(* ===== verification/Prelude.thy ===== *)
theory Prelude
  imports Main "HOL-Library.Word" "HOL-Library.Multiset"
begin

text \<open>
  Shared vocabulary of the development: machine integers, Rust strings and byte vectors, fallible
  results and the question-mark operator, computations that may panic, and the generic interfaces
  (a codec with its round-trip law, a machine with an invariant) which the components interpret on
  their own operations.
\<close>

unbundle bit_operations_syntax

named_theorems result_simps \<open>rules that evaluate fallible computations\<close>
named_theorems bytes_simps \<open>rules that relate strings and byte vectors\<close>

section \<open>Machine integers, strings, bytes\<close>

type_synonym u8 = "8 word"
type_synonym u32 = "32 word"
type_synonym u64 = "64 word"
type_synonym usize = "64 word"

text \<open>
  A Rust string is its sequence of UTF-8 bytes; every character of the model's strings is one such
  byte. The bytes of a value of type \<^verbatim>\<open>String\<close> are well-formed UTF-8 (predicate is_string of the
  theory Utf8). An error value of a crate the code only reports is the text it displays.
\<close>

type_synonym ext_error = string
type_synonym path = string

definition as_bytes :: "string \<Rightarrow> u8 list" where
  "as_bytes s = map of_char s"

definition of_bytes :: "u8 list \<Rightarrow> string" where
  "of_bytes bs = map (\<lambda>b. char_of (unat b)) bs"

lemma of_char_u8: "(of_char c :: u8) = of_nat (of_char c)"
  by (cases c) simp

lemma unat_of_char_u8 [bytes_simps]: "unat (of_char c :: u8) = of_char c"
proof -
  have "(of_char c :: nat) < 256" by simp
  then show ?thesis by (simp add: of_char_u8 unat_of_nat take_bit_nat_eq_self)
qed

lemma of_char_char_of_u8 [bytes_simps]: "(of_char (char_of (unat b)) :: u8) = b"
proof -
  have "unat b < 2 ^ LENGTH(8)" by (rule unsigned_less)
  then have "unat b < 256" by simp
  then show ?thesis by (simp add: of_char_u8)
qed

lemma as_bytes_of_bytes [simp]: "as_bytes (of_bytes bs) = bs"
  by (simp add: as_bytes_def of_bytes_def bytes_simps comp_def)

lemma of_bytes_as_bytes [simp]: "of_bytes (as_bytes s) = s"
  by (simp add: as_bytes_def of_bytes_def bytes_simps comp_def)

lemma as_bytes_append [simp]: "as_bytes (s @ t) = as_bytes s @ as_bytes t"
  by (simp add: as_bytes_def)

lemma as_bytes_Nil [simp]: "as_bytes [] = []"
  by (simp add: as_bytes_def)

lemma as_bytes_Cons [simp]: "as_bytes (c # s) = of_char c # as_bytes s"
  by (simp add: as_bytes_def)

lemma of_bytes_Nil [simp]: "of_bytes [] = []"
  by (simp add: of_bytes_def)

lemma of_bytes_Cons [simp]: "of_bytes (b # bs) = char_of (unat b) # of_bytes bs"
  by (simp add: of_bytes_def)

lemma length_as_bytes [simp]: "length (as_bytes s) = length s"
  by (simp add: as_bytes_def)

lemma length_of_bytes [simp]: "length (of_bytes bs) = length bs"
  by (simp add: of_bytes_def)

lemma as_bytes_inject [simp]: "as_bytes s = as_bytes t \<longleftrightarrow> s = t"
  by (metis of_bytes_as_bytes)

lemma of_bytes_inject [simp]: "of_bytes s = of_bytes t \<longleftrightarrow> s = t"
  by (metis as_bytes_of_bytes)

section \<open>Fallible results\<close>

text \<open>
  \<^verbatim>\<open>Result<T, E>\<close> is the sum type with the error on the left. \<open>and_then\<close> is the question-mark
  operator, \<open>map_err\<close> and \<open>ok_or\<close> are the methods of the same names.
\<close>

definition and_then :: "'e + 'a \<Rightarrow> ('a \<Rightarrow> 'e + 'b) \<Rightarrow> 'e + 'b" where
  "and_then r k = (case r of Inl e \<Rightarrow> Inl e | Inr x \<Rightarrow> k x)"

definition map_err :: "('e \<Rightarrow> 'f) \<Rightarrow> 'e + 'a \<Rightarrow> 'f + 'a" where
  "map_err f r = (case r of Inl e \<Rightarrow> Inl (f e) | Inr x \<Rightarrow> Inr x)"

definition ok_or :: "'a option \<Rightarrow> 'e \<Rightarrow> 'e + 'a" where
  "ok_or x e = (case x of None \<Rightarrow> Inl e | Some y \<Rightarrow> Inr y)"

lemma and_then_Inl [simp, result_simps]: "and_then (Inl e) k = Inl e"
  by (simp add: and_then_def)

lemma and_then_Inr [simp, result_simps]: "and_then (Inr x) k = k x"
  by (simp add: and_then_def)

lemma and_then_eq_Inr [result_simps]: "and_then r k = Inr y \<longleftrightarrow> (\<exists>x. r = Inr x \<and> k x = Inr y)"
  by (cases r) simp_all

lemma and_then_eq_Inl [result_simps]:
  "and_then r k = Inl e \<longleftrightarrow> r = Inl e \<or> (\<exists>x. r = Inr x \<and> k x = Inl e)"
  by (cases r) simp_all

lemma map_err_simps [simp, result_simps]:
  "map_err f (Inl e) = Inl (f e)" "map_err f (Inr x) = Inr x"
  by (simp_all add: map_err_def)

lemma map_err_eq_Inr [simp, result_simps]: "map_err f r = Inr x \<longleftrightarrow> r = Inr x"
  by (cases r) simp_all

lemma map_err_eq_Inl [result_simps]: "map_err f r = Inl e \<longleftrightarrow> (\<exists>d. r = Inl d \<and> e = f d)"
  by (cases r) auto

lemma ok_or_simps [simp, result_simps]: "ok_or None e = Inl e" "ok_or (Some x) e = Inr x"
  by (simp_all add: ok_or_def)

text \<open>A loop whose body ends in the question-mark operator and pushes onto a vector.\<close>

fun try_map :: "('a \<Rightarrow> 'e + 'b) \<Rightarrow> 'a list \<Rightarrow> 'e + 'b list" where
  "try_map f [] = Inr []"
| "try_map f (x # xs) = and_then (f x) (\<lambda>y. and_then (try_map f xs) (\<lambda>ys. Inr (y # ys)))"

lemma try_map_length: "try_map f xs = Inr ys \<Longrightarrow> length ys = length xs"
  by (induction xs arbitrary: ys) (auto simp: and_then_eq_Inr)

lemma try_map_list_all2: "try_map f xs = Inr ys \<Longrightarrow> list_all2 (\<lambda>x y. f x = Inr y) xs ys"
  by (induction xs arbitrary: ys) (auto simp: and_then_eq_Inr)

section \<open>Computations that may panic\<close>

datatype 'a run = Panic | Ret 'a

definition run_then :: "'a run \<Rightarrow> ('a \<Rightarrow> 'b run) \<Rightarrow> 'b run" where
  "run_then r k = (case r of Panic \<Rightarrow> Panic | Ret x \<Rightarrow> k x)"

lemma run_then_simps [simp]: "run_then Panic k = Panic" "run_then (Ret x) k = k x"
  by (simp_all add: run_then_def)

text \<open>
  Addition on \<^verbatim>\<open>usize\<close>: with overflow checks (a debug build) an overflow panics, without (a
  release build) it wraps around.
\<close>

definition usize_add :: "bool \<Rightarrow> usize \<Rightarrow> usize \<Rightarrow> usize run" where
  "usize_add checks a b = (if checks \<and> 2 ^ 64 \<le> unat a + unat b then Panic else Ret (a + b))"

definition usize_sub :: "bool \<Rightarrow> usize \<Rightarrow> usize \<Rightarrow> usize run" where
  "usize_sub checks a b = (if checks \<and> unat a < unat b then Panic else Ret (a - b))"

lemma usize_add_fits: "unat a + unat b < 2 ^ 64 \<Longrightarrow> usize_add checks a b = Ret (a + b)"
  by (simp add: usize_add_def)

lemma usize_sub_fits: "unat b \<le> unat a \<Longrightarrow> usize_sub checks a b = Ret (a - b)"
  by (simp add: usize_sub_def)

section \<open>Formatting numbers and joining paths\<close>

fun dec_nat :: "nat \<Rightarrow> string" where
  "dec_nat n = (if n < 10 then [char_of (48 + n)] else dec_nat (n div 10) @ [char_of (48 + n mod 10)])"

declare dec_nat.simps [simp del]

text \<open>\<^verbatim>\<open>Path::join\<close>: an absolute path replaces the base.\<close>

definition path_join :: "path \<Rightarrow> path \<Rightarrow> path" where
  "path_join base p =
    (if p \<noteq> [] \<and> hd p = CHR ''/'' then p
     else if base = [] \<or> last base = CHR ''/'' then base @ p
     else base @ ''/'' @ p)"

section \<open>Generic interfaces\<close>

text \<open>
  A codec: what an encoder promises of its decoder. The clients are the wire and storage formats of
  the program; each interprets the locale on its own pair of functions.
\<close>

locale codec =
  fixes enc :: "'a \<Rightarrow> 'b"
    and dec :: "'b \<Rightarrow> 'e + 'a"
    and valid :: "'a \<Rightarrow> bool"
  assumes dec_enc: "valid x \<Longrightarrow> dec (enc x) = Inr x"
begin

lemma enc_inject: "valid x \<Longrightarrow> valid y \<Longrightarrow> enc x = enc y \<longleftrightarrow> x = y"
  by (metis dec_enc sum.inject(2))

lemma try_map_dec_enc: "list_all valid xs \<Longrightarrow> try_map dec (map enc xs) = Inr xs"
  by (induction xs) (simp_all add: dec_enc)

lemma map_enc_inject:
  "list_all valid xs \<Longrightarrow> list_all valid ys \<Longrightarrow> map enc xs = map enc ys \<longleftrightarrow> xs = ys"
  by (metis sum.inject(2) try_map_dec_enc)

end

text \<open>A machine whose every allowed step keeps an invariant keeps it along every run of such steps.\<close>

locale machine =
  fixes step :: "'s \<Rightarrow> 'a \<Rightarrow> 's"
    and inv :: "'s \<Rightarrow> bool"
    and ok :: "'a \<Rightarrow> bool"
  assumes step_inv: "inv s \<Longrightarrow> ok a \<Longrightarrow> inv (step s a)"
begin

lemma run_inv: "inv s \<Longrightarrow> list_all ok as \<Longrightarrow> inv (foldl step s as)"
  by (induction as arbitrary: s) (auto intro: step_inv)

lemma run_prefix_inv: "inv s \<Longrightarrow> list_all ok as \<Longrightarrow> inv (foldl step s (take n as))"
  by (rule run_inv) (auto simp: list_all_iff dest: in_set_takeD)

end

text \<open>
  A machine with a relation to a simpler one: every concrete step is matched by the abstract step
  of the same label, so whole runs are.
\<close>

locale simulation =
  fixes cstep :: "'c \<Rightarrow> 'a \<Rightarrow> 'c"
    and astep :: "'m \<Rightarrow> 'a \<Rightarrow> 'm"
    and rel :: "'c \<Rightarrow> 'm \<Rightarrow> bool"
    and ok :: "'a \<Rightarrow> bool"
  assumes step_rel: "rel c m \<Longrightarrow> ok a \<Longrightarrow> rel (cstep c a) (astep m a)"
begin

lemma run_rel: "rel c m \<Longrightarrow> list_all ok as \<Longrightarrow> rel (foldl cstep c as) (foldl astep m as)"
  by (induction as arbitrary: c m) (auto intro: step_rel)

end

end
