(* ===== verification/Utf8.thy ===== *)
theory Utf8
  imports Prelude
begin

text \<open>
  Passwords as strings and bytes (src/lib.rs, lines 52 to 63). The lossy conversion of the standard
  library that the code goes through is modelled byte by byte: a maximal prefix of an ill-formed
  sequence becomes one U+FFFD.
\<close>

section \<open>The UTF-8 scanner of the standard library\<close>

definition continuation :: "u8 \<Rightarrow> bool" where
  "continuation b \<longleftrightarrow> b AND 192 = 128"

definition safe_get :: "u8 list \<Rightarrow> nat \<Rightarrow> u8" where
  "safe_get bs i = (if i < length bs then bs ! i else 0)"

text \<open>The ranges of the second byte of a three-byte and of a four-byte sequence.\<close>

definition second_of_three :: "u8 \<Rightarrow> u8 \<Rightarrow> bool" where
  "second_of_three b c \<longleftrightarrow>
     (b = 0xE0 \<and> 0xA0 \<le> c \<and> c \<le> 0xBF)
   \<or> (0xE1 \<le> b \<and> b \<le> 0xEC \<and> 0x80 \<le> c \<and> c \<le> 0xBF)
   \<or> (b = 0xED \<and> 0x80 \<le> c \<and> c \<le> 0x9F)
   \<or> (0xEE \<le> b \<and> b \<le> 0xEF \<and> 0x80 \<le> c \<and> c \<le> 0xBF)"

definition second_of_four :: "u8 \<Rightarrow> u8 \<Rightarrow> bool" where
  "second_of_four b c \<longleftrightarrow>
     (b = 0xF0 \<and> 0x90 \<le> c \<and> c \<le> 0xBF)
   \<or> (0xF1 \<le> b \<and> b \<le> 0xF3 \<and> 0x80 \<le> c \<and> c \<le> 0xBF)
   \<or> (b = 0xF4 \<and> 0x80 \<le> c \<and> c \<le> 0x8F)"

text \<open>
  One step of the scanner on a non-empty input: whether a character was read, and how many bytes
  were consumed (for an ill-formed sequence, the bytes that one replacement character stands for).
\<close>

definition utf8_step :: "u8 list \<Rightarrow> bool \<times> nat" where
  "utf8_step bs =
    (let b = safe_get bs 0; c = safe_get bs 1 in
     if b < 0x80 then (True, 1)
     else if 0xC2 \<le> b \<and> b \<le> 0xDF then (if continuation c then (True, 2) else (False, 1))
     else if 0xE0 \<le> b \<and> b \<le> 0xEF then
       (if \<not> second_of_three b c then (False, 1)
        else if \<not> continuation (safe_get bs 2) then (False, 2)
        else (True, 3))
     else if 0xF0 \<le> b \<and> b \<le> 0xF4 then
       (if \<not> second_of_four b c then (False, 1)
        else if \<not> continuation (safe_get bs 2) then (False, 2)
        else if \<not> continuation (safe_get bs 3) then (False, 3)
        else (True, 4))
     else (False, 1))"

lemma utf8_step_pos: "0 < snd (utf8_step bs)"
  by (simp add: utf8_step_def Let_def)

lemma utf8_step_positive: "utf8_step bs = (v, n) \<Longrightarrow> 0 < n"
  using utf8_step_pos [of bs] by simp

definition replacement :: "u8 list" where
  "replacement = [0xEF, 0xBF, 0xBD]"

function from_utf8_lossy :: "u8 list \<Rightarrow> u8 list" where
  "from_utf8_lossy bs =
    (if bs = [] then []
     else let (v, n) = utf8_step bs in
       (if v then take n bs else replacement) @ from_utf8_lossy (drop n bs))"
  by pat_completeness auto
termination
  by (relation "measure length") (auto dest!: utf8_step_positive [OF sym])

declare from_utf8_lossy.simps [simp del]

text \<open>Well-formed input: every step of the scanner reads a character.\<close>

function utf8_valid :: "u8 list \<Rightarrow> bool" where
  "utf8_valid bs =
    (if bs = [] then True
     else let (v, n) = utf8_step bs in v \<and> utf8_valid (drop n bs))"
  by pat_completeness auto
termination
  by (relation "measure length") (auto dest!: utf8_step_positive [OF sym])

declare utf8_valid.simps [simp del]

section \<open>Facts about the scanner\<close>

lemma continuation_0 [simp]: "\<not> continuation 0"
  by (simp add: continuation_def)

lemma safe_get_beyond: "length bs \<le> i \<Longrightarrow> safe_get bs i = 0"
  by (simp add: safe_get_def)

lemma second_ranges_0 [simp]: "\<not> second_of_three b 0" "\<not> second_of_four b 0"
  by (simp_all add: second_of_three_def second_of_four_def)

lemma utf8_step_in_range:
  assumes "utf8_step bs = (True, n)" and "bs \<noteq> []"
  shows "n \<le> length bs"
proof (rule ccontr)
  assume beyond: "\<not> n \<le> length bs"
  then have "safe_get bs (n - 1) = 0" by (simp add: safe_get_beyond)
  with assms beyond show False
    by (cases bs) (auto simp: utf8_step_def Let_def split: if_splits)
qed

text \<open>A successful step looks at the bytes it consumes and at no other.\<close>

lemma utf8_step_local:
  assumes "utf8_step bs = (True, n)" and "\<And>i. i < n \<Longrightarrow> safe_get bs' i = safe_get bs i"
  shows "utf8_step bs' = (True, n)"
proof -
  have "0 < n" using assms(1) by (rule utf8_step_positive)
  then have b0: "safe_get bs' 0 = safe_get bs 0" by (rule assms(2))
  have "1 < n \<Longrightarrow> safe_get bs' 1 = safe_get bs 1" "2 < n \<Longrightarrow> safe_get bs' 2 = safe_get bs 2"
    "3 < n \<Longrightarrow> safe_get bs' 3 = safe_get bs 3"
    using assms(2) by simp_all
  with assms(1) b0 show ?thesis
    by (auto simp: utf8_step_def Let_def split: if_splits)
qed

lemma utf8_step_take_append:
  assumes "utf8_step bs = (True, n)" and "bs \<noteq> []"
  shows "utf8_step (take n bs @ xs) = (True, n)"
proof (rule utf8_step_local [OF assms(1)])
  fix i assume "i < n"
  with utf8_step_in_range [OF assms] show "safe_get (take n bs @ xs) i = safe_get bs i"
    by (simp add: safe_get_def nth_append)
qed

lemma utf8_step_replacement: "utf8_step (replacement @ xs) = (True, 3)"
proof -
  have "safe_get (replacement @ xs) 0 = 0xEF" "safe_get (replacement @ xs) 1 = 0xBF"
    "safe_get (replacement @ xs) 2 = 0xBD"
    by (simp_all add: safe_get_def replacement_def)
  moreover have "second_of_three 0xEF 0xBF" "continuation 0xBD"
    by (simp_all add: second_of_three_def continuation_def)
  ultimately show ?thesis by (simp only: utf8_step_def Let_def) simp
qed

lemma utf8_valid_Nil [simp]: "utf8_valid []"
  by (simp add: utf8_valid.simps)

lemma utf8_valid_step:
  "utf8_step bs = (True, n) \<Longrightarrow> bs \<noteq> [] \<Longrightarrow> utf8_valid bs = utf8_valid (drop n bs)"
  by (simp add: utf8_valid.simps [of bs])

lemma utf8_valid_ascii: "list_all (\<lambda>b. b < 0x80) bs \<Longrightarrow> utf8_valid bs"
proof (induction bs)
  case (Cons b bs)
  then have "utf8_step (b # bs) = (True, 1)" by (simp add: utf8_step_def safe_get_def)
  with Cons show ?case by (simp add: utf8_valid_step)
qed simp

lemma utf8_valid_append: "utf8_valid as \<Longrightarrow> utf8_valid bs \<Longrightarrow> utf8_valid (as @ bs)"
proof (induction as rule: utf8_valid.induct)
  case (1 as)
  show ?case
  proof (cases "as = []")
    case False
    with "1.prems" obtain n where n: "utf8_step as = (True, n)" "utf8_valid (drop n as)"
      by (auto simp: utf8_valid.simps [of as] split: prod.splits)
    have len: "n \<le> length as" using n(1) False by (rule utf8_step_in_range)
    have "utf8_step (as @ bs) = (True, n)"
      using utf8_step_take_append [OF n(1) False, of "drop n as @ bs"]
      by (simp flip: append_assoc)
    moreover have "utf8_valid (drop n as @ bs)"
      using "1.IH" [OF False n(1) [symmetric] refl n(2) "1.prems"(2)] .
    ultimately show ?thesis using len False by (simp add: utf8_valid_step)
  qed (use "1.prems" in simp)
qed

section \<open>The lossy conversion\<close>

lemma from_utf8_lossy_valid: "utf8_valid bs \<Longrightarrow> from_utf8_lossy bs = bs"
proof (induction bs rule: from_utf8_lossy.induct)
  case (1 bs)
  show ?case
  proof (cases "bs = []")
    case False
    with "1.prems" obtain n where n: "utf8_step bs = (True, n)" "utf8_valid (drop n bs)"
      by (auto simp: utf8_valid.simps [of bs] split: prod.splits)
    have "from_utf8_lossy (drop n bs) = drop n bs"
      using "1.IH" [OF False n(1) [symmetric] refl n(2)] .
    with n False show ?thesis by (simp add: from_utf8_lossy.simps [of bs])
  qed (simp add: from_utf8_lossy.simps)
qed

lemma utf8_valid_from_utf8_lossy: "utf8_valid (from_utf8_lossy bs)"
proof (induction bs rule: from_utf8_lossy.induct)
  case (1 bs)
  show ?case
  proof (cases "bs = []")
    case False
    obtain v n where vn: "utf8_step bs = (v, n)" by (cases "utf8_step bs")
    have rest: "utf8_valid (from_utf8_lossy (drop n bs))"
      using "1.IH" [OF False vn [symmetric] refl] .
    show ?thesis
    proof (cases v)
      case True
      with vn have step: "utf8_step bs = (True, n)" by simp
      from utf8_step_in_range [OF step False] have "length (take n bs) = n" by simp
      with rest utf8_step_take_append [OF step False, of "from_utf8_lossy (drop n bs)"]
        utf8_step_positive [OF step] step False
      show ?thesis
        by (simp add: from_utf8_lossy.simps [of bs] utf8_valid_step)
    next
      case False': False
      with vn False rest utf8_step_replacement [of "from_utf8_lossy (drop n bs)"]
      show ?thesis
        by (simp add: from_utf8_lossy.simps [of bs] utf8_valid_step replacement_def)
    qed
  qed (simp add: from_utf8_lossy.simps)
qed

section \<open>Passwords\<close>

definition is_string :: "string \<Rightarrow> bool" where
  "is_string s \<longleftrightarrow> utf8_valid (as_bytes s)"

definition password_to_vec :: "string \<Rightarrow> u8 list" where
  "password_to_vec password = as_bytes password"

definition vec_to_password :: "u8 list \<Rightarrow> string" where
  "vec_to_password vec = of_bytes (from_utf8_lossy vec)"

definition is_valid_password :: "string \<Rightarrow> bool" where
  "is_valid_password password \<longleftrightarrow> vec_to_password (password_to_vec password) = password"

lemma is_string_Nil [simp]: "is_string []"
  by (simp add: is_string_def)

lemma is_string_append: "is_string s \<Longrightarrow> is_string t \<Longrightarrow> is_string (s @ t)"
  by (simp add: is_string_def utf8_valid_append)

lemma is_string_vec_to_password [simp]: "is_string (vec_to_password vec)"
  by (simp add: is_string_def vec_to_password_def utf8_valid_from_utf8_lossy)

lemma is_valid_password_string [simp]: "is_string s \<Longrightarrow> is_valid_password s"
  by (simp add: is_string_def is_valid_password_def vec_to_password_def password_to_vec_def
      from_utf8_lossy_valid)

lemma is_string_valid_password: "is_valid_password s \<Longrightarrow> is_string s"
  by (metis is_string_vec_to_password is_valid_password_def)

text \<open>
  C28: the validity test of passwords accepts every string the type can hold and refuses every byte
  sequence that is not well-formed UTF-8: it decides exactly the invariant of the string type. So the
  InvalidPassword branches of the callers are reachable only with a value Rust cannot construct.
\<close>

theorem is_valid_password_iff: "is_valid_password s \<longleftrightarrow> is_string s"
  using is_valid_password_string is_string_valid_password by blast

text \<open>A password survives the way to bytes and back.\<close>

lemma vec_to_password_to_vec [simp]:
  "is_string s \<Longrightarrow> vec_to_password (password_to_vec s) = s"
  using is_valid_password_string is_valid_password_def by blast

lemma vec_to_password_as_bytes [simp]: "is_string s \<Longrightarrow> vec_to_password (as_bytes s) = s"
  using vec_to_password_to_vec [of s] by (simp add: password_to_vec_def)

text \<open>The conversions are a codec on the values of the string type.\<close>

interpretation password_codec: codec password_to_vec
    "\<lambda>bs. Inr (vec_to_password bs) :: unit + string" is_string
  by unfold_locales simp

end
