(* ===== verification/Crypto.thy ===== *)
theory Crypto
  imports Utf8
begin

text \<open>
  The cryptographic crates the program calls (bcrypt, aes-gcm, hkdf, rsa) are not part of the
  repository. They are the fields of one record of functions, an argument of every definition that
  uses them; randomness they draw is an explicit argument. What the program relies on is stated as
  named predicates on such a record, and a concrete record shows that they can hold together.
\<close>

section \<open>The functions the program calls\<close>

type_synonym rsa_private_key = "u8 list"
type_synonym rsa_public_key = "u8 list"

record crypto =
  bcrypt_default_cost :: u32
  bcrypt_hash :: "u8 list \<Rightarrow> u32 \<Rightarrow> u8 list \<Rightarrow> ext_error + string"
    \<comment> \<open>password, cost, the 16 random bytes of salt; the hash string\<close>
  bcrypt_verify :: "u8 list \<Rightarrow> string \<Rightarrow> ext_error + bool"
  hkdf_sha256 :: "u8 list \<Rightarrow> u8 list \<Rightarrow> u8 list \<Rightarrow> nat \<Rightarrow> u8 list"
    \<comment> \<open>salt, input key material, info, output length\<close>
  aes_encrypt :: "u8 list \<Rightarrow> u8 list \<Rightarrow> u8 list \<Rightarrow> u8 list option"
    \<comment> \<open>key, nonce, message; the error of the crate is opaque\<close>
  aes_decrypt :: "u8 list \<Rightarrow> u8 list \<Rightarrow> u8 list \<Rightarrow> u8 list option"
  rsa_encrypt :: "rsa_public_key \<Rightarrow> u8 list \<Rightarrow> u8 list \<Rightarrow> ext_error + u8 list"
    \<comment> \<open>PKCS1 v1.5: key, padding randomness, message\<close>
  rsa_decrypt :: "rsa_private_key \<Rightarrow> u8 list \<Rightarrow> ext_error + u8 list"
  rsa_public :: "rsa_private_key \<Rightarrow> rsa_public_key"
  rsa_public_to_pem :: "rsa_public_key \<Rightarrow> ext_error + string"
  rsa_public_from_pem :: "string \<Rightarrow> ext_error + rsa_public_key"
  rsa_private_from_pem :: "string \<Rightarrow> ext_error + rsa_private_key"

section \<open>Key derivation (src/lib.rs, derive_key)\<close>

text \<open>
  HKDF-SHA256 with an empty info string; the 32 bytes asked for are below the limit of the
  expansion, so the \<^verbatim>\<open>expect\<close> of the source does not fire.
\<close>

definition derive_key :: "crypto \<Rightarrow> string \<Rightarrow> u8 list \<Rightarrow> u8 list" where
  "derive_key C input salt = hkdf_sha256 C salt (as_bytes input) [] 32"

section \<open>What the program relies on\<close>

definition no_nul :: "u8 list \<Rightarrow> bool" where
  "no_nul bs \<longleftrightarrow> 0 \<notin> set bs"

text \<open>
  bcrypt reads at most 72 bytes of a password and treats it as a zero-terminated string, so it tells
  passwords apart that are at most 72 bytes long and hold no zero byte.
\<close>

definition bcrypt_distinguishes :: "u8 list \<Rightarrow> bool" where
  "bcrypt_distinguishes bs \<longleftrightarrow> no_nul bs \<and> length bs \<le> 72"

text \<open>Hypothesis: a password verifies against every hash made of it, with 16 bytes of salt.\<close>

definition bcrypt_complete :: "crypto \<Rightarrow> bool" where
  "bcrypt_complete C \<longleftrightarrow>
     (\<forall>p c s h. length s = 16 \<longrightarrow> bcrypt_hash C p c s = Inr h \<longrightarrow> bcrypt_verify C p h = Inr True)"

text \<open>
  Hypothesis: verification against a hash that the crate made returns no error, and no other
  password of those bcrypt tells apart verifies (collisions of the 184-bit digest are ignored).
\<close>

definition bcrypt_exact :: "crypto \<Rightarrow> bool" where
  "bcrypt_exact C \<longleftrightarrow>
     (\<forall>p c s h q. length s = 16 \<longrightarrow> bcrypt_hash C p c s = Inr h \<longrightarrow>
        bcrypt_distinguishes p \<longrightarrow> bcrypt_distinguishes q \<longrightarrow> bcrypt_verify C q h = Inr (q = p))"

text \<open>Hypothesis: verification looks at the first 72 bytes of a password only.\<close>

definition bcrypt_truncates :: "crypto \<Rightarrow> bool" where
  "bcrypt_truncates C \<longleftrightarrow>
     (\<forall>p q h. take 72 p = take 72 q \<longrightarrow> bcrypt_verify C p h = bcrypt_verify C q h)"

text \<open>Hypothesis: the hash string carries its salt.\<close>

definition bcrypt_salted :: "crypto \<Rightarrow> bool" where
  "bcrypt_salted C \<longleftrightarrow>
     (\<forall>p q c s t h. length s = 16 \<longrightarrow> length t = 16 \<longrightarrow>
        bcrypt_hash C p c s = Inr h \<longrightarrow> bcrypt_hash C q c t = Inr h \<longrightarrow> s = t)"

text \<open>Hypothesis: decryption under the same key and nonce gives the message back.\<close>

definition aes_correct :: "crypto \<Rightarrow> bool" where
  "aes_correct C \<longleftrightarrow>
     (\<forall>k n m ct. aes_encrypt C k n m = Some ct \<longrightarrow> aes_decrypt C k n ct = Some m)"

text \<open>Hypothesis: a ciphertext is the message's length plus the 16 bytes of the tag.\<close>

definition aes_tagged :: "crypto \<Rightarrow> bool" where
  "aes_tagged C \<longleftrightarrow>
     (\<forall>k n m ct. aes_encrypt C k n m = Some ct \<longrightarrow> length ct = length m + 16)"

text \<open>Hypothesis: the holder of the private key reads what was encrypted to the public key.\<close>

definition rsa_correct :: "crypto \<Rightarrow> bool" where
  "rsa_correct C \<longleftrightarrow>
     (\<forall>k r m ct. rsa_encrypt C (rsa_public C k) r m = Inr ct \<longrightarrow> rsa_decrypt C k ct = Inr m)"

definition pem_correct :: "crypto \<Rightarrow> bool" where
  "pem_correct C \<longleftrightarrow>
     (\<forall>k pem. rsa_public_to_pem C k = Inr pem \<longrightarrow> rsa_public_from_pem C pem = Inr k)"

text \<open>
  Hypothesis: with the default cost and arguments of the right lengths hashing and encryption do not
  fail, so that the only errors left are those the program itself decides on.
\<close>

definition crypto_total :: "crypto \<Rightarrow> bool" where
  "crypto_total C \<longleftrightarrow>
     (\<forall>p s. length s = 16 \<longrightarrow> (\<exists>h. bcrypt_hash C p (bcrypt_default_cost C) s = Inr h))
   \<and> (\<forall>k n m. length n = 12 \<longrightarrow> (\<exists>ct. aes_encrypt C k n m = Some ct))"

lemma bcrypt_completeD:
  "bcrypt_complete C \<Longrightarrow> length s = 16 \<Longrightarrow> bcrypt_hash C p c s = Inr h \<Longrightarrow>
   bcrypt_verify C p h = Inr True"
  by (auto simp: bcrypt_complete_def)

lemma bcrypt_exactD:
  "bcrypt_exact C \<Longrightarrow> length s = 16 \<Longrightarrow> bcrypt_hash C p c s = Inr h \<Longrightarrow>
   bcrypt_distinguishes p \<Longrightarrow> bcrypt_distinguishes q \<Longrightarrow> bcrypt_verify C q h = Inr (q = p)"
  by (auto simp: bcrypt_exact_def)

lemma bcrypt_exact_other:
  "bcrypt_exact C \<Longrightarrow> length s = 16 \<Longrightarrow> bcrypt_hash C p c s = Inr h \<Longrightarrow>
   bcrypt_distinguishes p \<Longrightarrow> bcrypt_distinguishes q \<Longrightarrow> q \<noteq> p \<Longrightarrow>
   bcrypt_verify C q h = Inr False"
  by (simp add: bcrypt_exactD)

text \<open>A hash string that the crate made of a password.\<close>

definition bcrypt_made :: "crypto \<Rightarrow> u8 list \<Rightarrow> string \<Rightarrow> bool" where
  "bcrypt_made C p h \<longleftrightarrow> (\<exists>c s. length s = 16 \<and> bcrypt_hash C p c s = Inr h)"

lemma bcrypt_madeI: "length s = 16 \<Longrightarrow> bcrypt_hash C p c s = Inr h \<Longrightarrow> bcrypt_made C p h"
  by (auto simp: bcrypt_made_def)

lemma bcrypt_made_verify: "bcrypt_complete C \<Longrightarrow> bcrypt_made C p h \<Longrightarrow> bcrypt_verify C p h = Inr True"
  by (auto simp: bcrypt_made_def intro: bcrypt_completeD)

lemma bcrypt_made_exact:
  "bcrypt_exact C \<Longrightarrow> bcrypt_made C p h \<Longrightarrow> bcrypt_distinguishes p \<Longrightarrow> bcrypt_distinguishes q \<Longrightarrow>
   bcrypt_verify C q h = Inr (q = p)"
  by (auto simp: bcrypt_made_def dest: bcrypt_exactD)

lemma aes_correctD: "aes_correct C \<Longrightarrow> aes_encrypt C k n m = Some ct \<Longrightarrow> aes_decrypt C k n ct = Some m"
  by (auto simp: aes_correct_def)

lemma aes_taggedD: "aes_tagged C \<Longrightarrow> aes_encrypt C k n m = Some ct \<Longrightarrow> length ct = length m + 16"
  by (auto simp: aes_tagged_def)

lemma rsa_correctD:
  "rsa_correct C \<Longrightarrow> rsa_encrypt C (rsa_public C k) r m = Inr ct \<Longrightarrow> rsa_decrypt C k ct = Inr m"
  by (auto simp: rsa_correct_def)

lemma pem_correctD:
  "pem_correct C \<Longrightarrow> rsa_public_to_pem C k = Inr pem \<Longrightarrow> rsa_public_from_pem C pem = Inr k"
  by (auto simp: pem_correct_def)

lemma crypto_total_aes: "crypto_total C \<Longrightarrow> length n = 12 \<Longrightarrow> \<exists>ct. aes_encrypt C k n m = Some ct"
  by (simp add: crypto_total_def)

section \<open>A concrete record for the witnesses\<close>

text \<open>
  A hash that is the salt followed by the password, a cipher that prepends the first 16 bytes of the
  nonce-padded key as a tag, and a transparent RSA. It satisfies every hypothesis above.
\<close>

definition toy_tag :: "u8 list \<Rightarrow> u8 list \<Rightarrow> u8 list" where
  "toy_tag k n = take 16 (k @ n @ replicate 16 0)"

definition toy_crypto :: crypto where
  "toy_crypto =
    \<lparr>bcrypt_default_cost = 12,
     bcrypt_hash = (\<lambda>p c s. Inr (of_bytes (s @ take 72 p))),
     bcrypt_verify = (\<lambda>p h. Inr (drop 16 (as_bytes h) = take 72 p)),
     hkdf_sha256 = (\<lambda>salt ikm info n. ikm @ salt),
     aes_encrypt = (\<lambda>k n m. Some (toy_tag k n @ m)),
     aes_decrypt = (\<lambda>k n c. if take 16 c = toy_tag k n then Some (drop 16 c) else None),
     rsa_encrypt = (\<lambda>k r m. Inr m),
     rsa_decrypt = (\<lambda>k c. Inr c),
     rsa_public = (\<lambda>k. k),
     rsa_public_to_pem = (\<lambda>k. Inr (of_bytes k)),
     rsa_public_from_pem = (\<lambda>s. Inr (as_bytes s)),
     rsa_private_from_pem = (\<lambda>s. Inr (as_bytes s))\<rparr>"

lemma length_toy_tag [simp]: "length (toy_tag k n) = 16"
  by (simp add: toy_tag_def)

lemma toy_bcrypt_complete [simp]: "bcrypt_complete toy_crypto"
  by (auto simp: bcrypt_complete_def toy_crypto_def)

lemma toy_bcrypt_exact [simp]: "bcrypt_exact toy_crypto"
  by (auto simp: bcrypt_exact_def toy_crypto_def bcrypt_distinguishes_def)

lemma toy_bcrypt_truncates [simp]: "bcrypt_truncates toy_crypto"
  by (auto simp: bcrypt_truncates_def toy_crypto_def)

lemma toy_bcrypt_salted [simp]: "bcrypt_salted toy_crypto"
  by (auto simp: bcrypt_salted_def toy_crypto_def)

lemma toy_aes_correct [simp]: "aes_correct toy_crypto"
  by (auto simp: aes_correct_def toy_crypto_def)

lemma toy_aes_tagged [simp]: "aes_tagged toy_crypto"
  by (auto simp: aes_tagged_def toy_crypto_def)

lemma toy_rsa_correct [simp]: "rsa_correct toy_crypto"
  by (auto simp: rsa_correct_def toy_crypto_def)

lemma toy_pem_correct [simp]: "pem_correct toy_crypto"
  by (auto simp: pem_correct_def toy_crypto_def)

lemma toy_crypto_total [simp]: "crypto_total toy_crypto"
  by (simp add: crypto_total_def toy_crypto_def)

end
