(* ===== verification/AuthData.thy ===== *)
theory AuthData
  imports Crypto
begin

text \<open>
  The error types of the authentication code (src/error.rs, src/user.rs) and the two fixed-size byte
  structures that keep nonces and salts in the stored data (src/user.rs, AuthDataNonce and
  AuthDataSalt), with their conversions from and to arrays.
\<close>

section \<open>Errors\<close>

datatype UserAuthDataError =
    WrongIntermediateKey
  | MainPasswordNotSet
  | CouldNotAuthenticate
  | MatchingAuthNotProvided
  | InvalidPassword

datatype UserOperationError =
    Io ext_error
  | EncryptionError
  | HashingError ext_error
  | User UserAuthDataError

section \<open>Nonces and salts\<close>

text \<open>A Rust array of n bytes is a list of length n; a field is read by index.\<close>

record AuthDataNonce =
  nonce_a0 :: u8  nonce_a1 :: u8  nonce_a2 :: u8  nonce_a3 :: u8  nonce_a4 :: u8
  nonce_a5 :: u8  nonce_a6 :: u8  nonce_a7 :: u8  nonce_a8 :: u8  nonce_a9 :: u8
  nonce_a10 :: u8  nonce_a11 :: u8

definition AuthDataNonce_from :: "u8 list \<Rightarrow> AuthDataNonce" where
  "AuthDataNonce_from bytes =
    \<lparr>nonce_a0 = bytes ! 0, nonce_a1 = bytes ! 1, nonce_a2 = bytes ! 2, nonce_a3 = bytes ! 3,
     nonce_a4 = bytes ! 4, nonce_a5 = bytes ! 5, nonce_a6 = bytes ! 6, nonce_a7 = bytes ! 7,
     nonce_a8 = bytes ! 8, nonce_a9 = bytes ! 9, nonce_a10 = bytes ! 10, nonce_a11 = bytes ! 11\<rparr>"

definition AuthDataNonce_into :: "AuthDataNonce \<Rightarrow> u8 list" where
  "AuthDataNonce_into val =
    [nonce_a0 val, nonce_a1 val, nonce_a2 val, nonce_a3 val, nonce_a4 val, nonce_a5 val,
     nonce_a6 val, nonce_a7 val, nonce_a8 val, nonce_a9 val, nonce_a10 val, nonce_a11 val]"

record AuthDataSalt =
  salt_a0 :: u8  salt_a1 :: u8  salt_a2 :: u8  salt_a3 :: u8  salt_a4 :: u8  salt_a5 :: u8
  salt_a6 :: u8  salt_a7 :: u8  salt_a8 :: u8  salt_a9 :: u8  salt_a10 :: u8  salt_a11 :: u8
  salt_a12 :: u8  salt_a13 :: u8  salt_a14 :: u8  salt_a15 :: u8  salt_a16 :: u8
  salt_a17 :: u8  salt_a18 :: u8  salt_a19 :: u8  salt_a20 :: u8  salt_a21 :: u8
  salt_a22 :: u8  salt_a23 :: u8  salt_a24 :: u8  salt_a25 :: u8  salt_a26 :: u8
  salt_a27 :: u8  salt_a28 :: u8  salt_a29 :: u8  salt_a30 :: u8  salt_a31 :: u8

definition AuthDataSalt_from :: "u8 list \<Rightarrow> AuthDataSalt" where
  "AuthDataSalt_from bytes =
    \<lparr>salt_a0 = bytes ! 0, salt_a1 = bytes ! 1, salt_a2 = bytes ! 2, salt_a3 = bytes ! 3,
     salt_a4 = bytes ! 4, salt_a5 = bytes ! 5, salt_a6 = bytes ! 6, salt_a7 = bytes ! 7,
     salt_a8 = bytes ! 8, salt_a9 = bytes ! 9, salt_a10 = bytes ! 10, salt_a11 = bytes ! 11,
     salt_a12 = bytes ! 12, salt_a13 = bytes ! 13, salt_a14 = bytes ! 14, salt_a15 = bytes ! 15,
     salt_a16 = bytes ! 16, salt_a17 = bytes ! 17, salt_a18 = bytes ! 18, salt_a19 = bytes ! 19,
     salt_a20 = bytes ! 20, salt_a21 = bytes ! 21, salt_a22 = bytes ! 22, salt_a23 = bytes ! 23,
     salt_a24 = bytes ! 24, salt_a25 = bytes ! 25, salt_a26 = bytes ! 26, salt_a27 = bytes ! 27,
     salt_a28 = bytes ! 28, salt_a29 = bytes ! 29, salt_a30 = bytes ! 30, salt_a31 = bytes ! 31\<rparr>"

definition AuthDataSalt_into :: "AuthDataSalt \<Rightarrow> u8 list" where
  "AuthDataSalt_into val =
    [salt_a0 val, salt_a1 val, salt_a2 val, salt_a3 val, salt_a4 val, salt_a5 val, salt_a6 val,
     salt_a7 val, salt_a8 val, salt_a9 val, salt_a10 val, salt_a11 val, salt_a12 val,
     salt_a13 val, salt_a14 val, salt_a15 val, salt_a16 val, salt_a17 val, salt_a18 val,
     salt_a19 val, salt_a20 val, salt_a21 val, salt_a22 val, salt_a23 val, salt_a24 val,
     salt_a25 val, salt_a26 val, salt_a27 val, salt_a28 val, salt_a29 val, salt_a30 val,
     salt_a31 val]"

lemma list_of_nths: "length xs = n \<Longrightarrow> xs = map (\<lambda>i. xs ! i) [0..<n]"
  by (metis map_nth)

lemma AuthDataNonce_into_from: "length bytes = 12 \<Longrightarrow> AuthDataNonce_into (AuthDataNonce_from bytes) = bytes"
  by (subst (2) list_of_nths [of bytes 12])
    (simp_all add: AuthDataNonce_into_def AuthDataNonce_from_def upt_rec numeral_eq_Suc)

lemma AuthDataNonce_from_into: "AuthDataNonce_from (AuthDataNonce_into val) = val"
  by (simp add: AuthDataNonce_into_def AuthDataNonce_from_def)

lemma AuthDataSalt_into_from: "length bytes = 32 \<Longrightarrow> AuthDataSalt_into (AuthDataSalt_from bytes) = bytes"
  by (subst (2) list_of_nths [of bytes 32])
    (simp_all add: AuthDataSalt_into_def AuthDataSalt_from_def upt_rec numeral_eq_Suc)

lemma AuthDataSalt_from_into: "AuthDataSalt_from (AuthDataSalt_into val) = val"
  by (simp add: AuthDataSalt_into_def AuthDataSalt_from_def)

text \<open>Both conversions are codecs, in either direction.\<close>

interpretation nonce_array: codec AuthDataNonce_from
    "\<lambda>n. Inr (AuthDataNonce_into n) :: unit + u8 list" "\<lambda>bytes. length bytes = 12"
  by unfold_locales (simp add: AuthDataNonce_into_from)

interpretation salt_array: codec AuthDataSalt_from
    "\<lambda>n. Inr (AuthDataSalt_into n) :: unit + u8 list" "\<lambda>bytes. length bytes = 32"
  by unfold_locales (simp add: AuthDataSalt_into_from)

text \<open>
  Twelve-byte nonces and 32-byte salts survive the conversion to the stored structures and back,
  and the stored structures survive the conversion to arrays.
\<close>

theorem nonce_salt_roundtrip:
  "(length b12 = 12 \<longrightarrow> AuthDataNonce_into (AuthDataNonce_from b12) = b12)
   \<and> (length b32 = 32 \<longrightarrow> AuthDataSalt_into (AuthDataSalt_from b32) = b32)
   \<and> AuthDataNonce_from (AuthDataNonce_into nonce) = nonce
   \<and> AuthDataSalt_from (AuthDataSalt_into salt) = salt"
  by (simp add: AuthDataNonce_into_from AuthDataSalt_into_from AuthDataNonce_from_into
      AuthDataSalt_from_into)

text \<open>The round trip at a nonce of twelve sevens and a salt of 32 zeros.\<close>

theorem nonce_salt_roundtrip_witness:
  "AuthDataNonce_into (AuthDataNonce_from (replicate 12 7)) = replicate 12 7
   \<and> AuthDataSalt_into (AuthDataSalt_from (replicate 32 0)) = replicate 32 0"
  using nonce_salt_roundtrip [of "replicate 12 7" "replicate 32 0"] by simp

end
