(* ===== verification/SecondaryAuth.thy ===== *)
theory SecondaryAuth
  imports AuthData
begin

text \<open>
  Secondary passwords (src/auth.rs): the intermediate key encrypted under a key derived from the
  secondary password, next to a bcrypt hash of that password.
\<close>

section \<open>A box that a key opens\<close>

text \<open>
  What the two password structures of the program promise alike: what was sealed under a key comes
  out again when the box is opened with that key. \<open>lawful\<close> says what the cryptography must satisfy,
  \<open>fits\<close> which randomness, secrets and keys the promise is about.
\<close>

locale sealed_box =
  fixes seal :: "'c \<Rightarrow> 'r \<Rightarrow> 's \<Rightarrow> 'k \<Rightarrow> 'e + 'b"
    and unseal :: "'c \<Rightarrow> 'b \<Rightarrow> 'k \<Rightarrow> 'e + 's"
    and lawful :: "'c \<Rightarrow> bool"
    and fits :: "'r \<Rightarrow> 's \<Rightarrow> 'k \<Rightarrow> bool"
  assumes unseal_seal: "lawful c \<Longrightarrow> fits r s k \<Longrightarrow> seal c r s k = Inr b \<Longrightarrow> unseal c b k = Inr s"
begin

lemma sealed_unique:
  "lawful c \<Longrightarrow> fits r s k \<Longrightarrow> fits r' s' k \<Longrightarrow> seal c r s k = Inr b \<Longrightarrow> seal c r' s' k = Inr b \<Longrightarrow>
   s = s'"
  by (metis sum.inject(2) unseal_seal)

lemma unseal_all:
  "lawful c \<Longrightarrow> \<forall>(r, k) \<in> set rks. fits r s k \<Longrightarrow>
   try_map (\<lambda>(r, k). seal c r s k) rks = Inr bs \<Longrightarrow>
   list_all2 (\<lambda>b (r, k). unseal c b k = Inr s) bs rks"
proof (induction rks arbitrary: bs)
  case (Cons rk rks)
  then show ?case
    by (cases rk) (auto simp: and_then_eq_Inr intro: unseal_seal)
qed simp

end

section \<open>SecondaryPassword\<close>

record SecondaryPassword =
  enc_intermediate_nonce :: AuthDataNonce
  enc_intermediate :: "u8 list"
  password_salt :: AuthDataSalt
  password_hash :: string

text \<open>The random bytes drawn: a 32-byte salt for the key, the salt of bcrypt, the nonce.\<close>

record secondary_draws =
  draw_key_salt :: "u8 list"
  draw_bcrypt_salt :: "u8 list"
  draw_nonce :: "u8 list"

definition secondary_draws_ok :: "secondary_draws \<Rightarrow> bool" where
  "secondary_draws_ok r \<longleftrightarrow>
     length (draw_key_salt r) = 32 \<and> length (draw_bcrypt_salt r) = 16 \<and> length (draw_nonce r) = 12"

definition SecondaryPassword_new ::
  "crypto \<Rightarrow> secondary_draws \<Rightarrow> string \<Rightarrow> string \<Rightarrow> UserOperationError + SecondaryPassword" where
  "SecondaryPassword_new C r intermediate password =
    (let password_salt_arr = draw_key_salt r in
     and_then (map_err HashingError
       (bcrypt_hash C (as_bytes password) (bcrypt_default_cost C) (draw_bcrypt_salt r)))
       (\<lambda>hash.
     let key = derive_key C password password_salt_arr;
         nonce = draw_nonce r in
     and_then (ok_or (aes_encrypt C key nonce (password_to_vec intermediate)) EncryptionError)
       (\<lambda>enc.
     Inr \<lparr>enc_intermediate_nonce = AuthDataNonce_from nonce,
          enc_intermediate = enc,
          password_salt = AuthDataSalt_from password_salt_arr,
          password_hash = hash\<rparr>)))"

definition SecondaryPassword_intermediate ::
  "crypto \<Rightarrow> SecondaryPassword \<Rightarrow> string \<Rightarrow> UserOperationError + string" where
  "SecondaryPassword_intermediate C self password =
    and_then (map_err HashingError (bcrypt_verify C (as_bytes password) (password_hash self)))
      (\<lambda>verified.
     if \<not> verified then Inl (User CouldNotAuthenticate)
     else
       let key = derive_key C password (AuthDataSalt_into (password_salt self));
           nonce = AuthDataNonce_into (enc_intermediate_nonce self) in
       and_then (ok_or (aes_decrypt C key nonce (enc_intermediate self)) EncryptionError)
         (\<lambda>dec_result. Inr (vec_to_password dec_result)))"

section \<open>SecondaryAuth\<close>

datatype SecondaryAuthMethod = Password SecondaryPassword

record SecondaryAuth =
  auth_name :: string
  creation_date :: u64
  auth_method :: SecondaryAuthMethod

text \<open>
  \<open>since_epoch\<close> is what the clock of the system returns: seconds since the epoch, or an error when
  the clock is before it.
\<close>

definition new_password ::
  "ext_error + u64 \<Rightarrow> string \<Rightarrow> u64 option \<Rightarrow> SecondaryPassword \<Rightarrow> SecondaryAuth" where
  "new_password since_epoch n date password =
    \<lparr>auth_name = n,
     creation_date = (case date of
         Some d \<Rightarrow> d
       | None \<Rightarrow> (case since_epoch of Inr from_epoch \<Rightarrow> from_epoch | Inl err \<Rightarrow> 0)),
     auth_method = Password password\<rparr>"

definition type_name :: "SecondaryAuth \<Rightarrow> string" where
  "type_name self = (case auth_method self of Password _ \<Rightarrow> ''password'')"

definition SecondaryAuth_intermediate ::
  "crypto \<Rightarrow> SecondaryAuth \<Rightarrow> string option \<Rightarrow> UserOperationError + string" where
  "SecondaryAuth_intermediate C self secondary_password =
    (case auth_method self of
       Password pwd \<Rightarrow>
         (case secondary_password of
            Some provided_secondary \<Rightarrow> SecondaryPassword_intermediate C pwd provided_secondary
          | None \<Rightarrow> Inl (User MatchingAuthNotProvided)))"

section \<open>Facts\<close>

definition lawful_crypto :: "crypto \<Rightarrow> bool" where
  "lawful_crypto C \<longleftrightarrow> bcrypt_complete C \<and> bcrypt_exact C \<and> aes_correct C"

lemma lawful_toy [simp]: "lawful_crypto toy_crypto"
  by (simp add: lawful_crypto_def)

lemma lawful_cryptoD [dest]:
  assumes "lawful_crypto C"
  shows "bcrypt_complete C" "bcrypt_exact C" "aes_correct C"
  using assms by (simp_all add: lawful_crypto_def)

text \<open>What a freshly made secondary password holds.\<close>

lemma SecondaryPassword_new_eq_Inr:
  "SecondaryPassword_new C r intermediate password = Inr sp \<longleftrightarrow>
     (\<exists>h enc. bcrypt_hash C (as_bytes password) (bcrypt_default_cost C) (draw_bcrypt_salt r) = Inr h
        \<and> aes_encrypt C (derive_key C password (draw_key_salt r)) (draw_nonce r)
             (password_to_vec intermediate) = Some enc
        \<and> sp = \<lparr>enc_intermediate_nonce = AuthDataNonce_from (draw_nonce r), enc_intermediate = enc,
                password_salt = AuthDataSalt_from (draw_key_salt r), password_hash = h\<rparr>)"
  by (auto simp: SecondaryPassword_new_def Let_def and_then_eq_Inr ok_or_def split: option.splits)

lemma SecondaryPassword_roundtrip:
  assumes "lawful_crypto C" and "secondary_draws_ok r" and "is_string intermediate"
    and "SecondaryPassword_new C r intermediate password = Inr sp"
  shows "SecondaryPassword_intermediate C sp password = Inr intermediate"
proof -
  from assms(4) obtain h enc where
    h: "bcrypt_hash C (as_bytes password) (bcrypt_default_cost C) (draw_bcrypt_salt r) = Inr h"
    and enc: "aes_encrypt C (derive_key C password (draw_key_salt r)) (draw_nonce r)
         (password_to_vec intermediate) = Some enc"
    and sp: "sp = \<lparr>enc_intermediate_nonce = AuthDataNonce_from (draw_nonce r),
         enc_intermediate = enc, password_salt = AuthDataSalt_from (draw_key_salt r),
         password_hash = h\<rparr>"
    by (auto simp: SecondaryPassword_new_eq_Inr)
  from assms(1,2) h have "bcrypt_verify C (as_bytes password) h = Inr True"
    by (auto intro: bcrypt_completeD simp: secondary_draws_ok_def)
  moreover from assms(1) enc have "aes_decrypt C (derive_key C password (draw_key_salt r))
      (draw_nonce r) enc = Some (password_to_vec intermediate)"
    by (auto intro: aes_correctD)
  ultimately show ?thesis
    using assms(2,3)
    by (simp add: sp SecondaryPassword_intermediate_def Let_def secondary_draws_ok_def
        AuthDataSalt_into_from AuthDataNonce_into_from)
qed

interpretation secondary_box: sealed_box SecondaryPassword_new SecondaryPassword_intermediate
    lawful_crypto "\<lambda>r s k. secondary_draws_ok r \<and> is_string s"
  by unfold_locales (auto intro: SecondaryPassword_roundtrip)

text \<open>Opening succeeds only for a password that verifies against the stored hash.\<close>

lemma SecondaryPassword_intermediate_verifies:
  "SecondaryPassword_intermediate C sp password = Inr ik \<Longrightarrow>
   bcrypt_verify C (as_bytes password) (password_hash sp) = Inr True"
  by (auto simp: SecondaryPassword_intermediate_def and_then_eq_Inr split: if_splits)

lemma SecondaryPassword_intermediate_string:
  "SecondaryPassword_intermediate C sp password = Inr ik \<Longrightarrow> is_string ik"
  by (auto simp: SecondaryPassword_intermediate_def Let_def and_then_eq_Inr split: if_splits)

lemma SecondaryAuth_intermediate_eq_Inr:
  "SecondaryAuth_intermediate C self pw = Inr ik \<longleftrightarrow>
     (\<exists>sp s. auth_method self = Password sp \<and> pw = Some s
        \<and> SecondaryPassword_intermediate C sp s = Inr ik)"
  by (cases "auth_method self"; cases pw) (simp_all add: SecondaryAuth_intermediate_def)

lemma auth_method_new_password [simp]: "auth_method (new_password t n d sp) = Password sp"
  by (simp add: new_password_def)

lemma SecondaryPassword_refuses:
  assumes "lawful_crypto C" and "secondary_draws_ok r"
    and "SecondaryPassword_new C r intermediate password = Inr sp"
    and "bcrypt_distinguishes (as_bytes password)" and "bcrypt_distinguishes (as_bytes other)"
    and "other \<noteq> password"
  shows "SecondaryPassword_intermediate C sp other = Inl (User CouldNotAuthenticate)"
proof -
  from assms have "length (draw_bcrypt_salt r) = 16" and "bcrypt_exact C"
    and "bcrypt_hash C (as_bytes password) (bcrypt_default_cost C) (draw_bcrypt_salt r)
         = Inr (password_hash sp)"
    by (auto simp: SecondaryPassword_new_eq_Inr secondary_draws_ok_def)
  with assms have "bcrypt_verify C (as_bytes other) (password_hash sp) = Inr False"
    by (auto intro: bcrypt_exact_other)
  then show ?thesis by (simp add: SecondaryPassword_intermediate_def)
qed

text \<open>
  A secondary password opens what was sealed under it, and any other password that bcrypt tells
  apart from it is answered with CouldNotAuthenticate.
\<close>

theorem secondary_password_opens:
  assumes "lawful_crypto C" and "secondary_draws_ok r" and "is_string intermediate"
    and "SecondaryPassword_new C r intermediate password = Inr sp"
    and "bcrypt_distinguishes (as_bytes password)" and "bcrypt_distinguishes (as_bytes other)"
  shows "SecondaryPassword_intermediate C sp other =
         (if other = password then Inr intermediate else Inl (User CouldNotAuthenticate))"
  using assms by (simp add: secondary_box.unseal_seal SecondaryPassword_refuses)

definition toy_draws :: secondary_draws where
  "toy_draws = \<lparr>draw_key_salt = replicate 32 1, draw_bcrypt_salt = replicate 16 2,
                draw_nonce = replicate 12 3\<rparr>"

lemma toy_draws_ok [simp]: "secondary_draws_ok toy_draws"
  by (simp add: secondary_draws_ok_def toy_draws_def)

lemma toy_SecondaryPassword_new: "\<exists>sp. SecondaryPassword_new toy_crypto r ik pw = Inr sp"
  by (simp add: SecondaryPassword_new_def toy_crypto_def Let_def)

theorem secondary_password_opens_witness:
  "\<exists>sp. SecondaryPassword_new toy_crypto toy_draws ''ik'' ''pin'' = Inr sp
     \<and> SecondaryPassword_intermediate toy_crypto sp ''pin'' = Inr ''ik''
     \<and> SecondaryPassword_intermediate toy_crypto sp ''nip'' = Inl (User CouldNotAuthenticate)"
proof -
  obtain sp where sp: "SecondaryPassword_new toy_crypto toy_draws ''ik'' ''pin'' = Inr sp"
    using toy_SecondaryPassword_new by blast
  have ik: "is_string ''ik''"
    by (simp add: is_string_def utf8_valid_ascii)
  have d: "bcrypt_distinguishes (as_bytes ''pin'')" "bcrypt_distinguishes (as_bytes ''nip'')"
    by (simp_all add: bcrypt_distinguishes_def no_nul_def)
  note opens = secondary_password_opens [OF lawful_toy toy_draws_ok ik sp d(1)]
  from sp opens [OF d(1)] opens [OF d(2)] show ?thesis by auto
qed

end
