(* ===== verification/UserAuth.thy ===== *)
theory UserAuth
  imports SecondaryAuth
begin

text \<open>
  The authentication data of a user (src/user.rs): the main password encrypted under a key derived
  from the intermediate key, and the list of secondary methods.
\<close>

section \<open>MainPassword\<close>

record MainPassword =
  main_hash :: string
  enc_main :: "u8 list"
  enc_main_nonce :: AuthDataNonce
  intermediate_key_salt :: AuthDataSalt
  intermediate_key_hash :: string

record main_draws =
  draw_main_salt :: "u8 list"
  draw_intermediate_salt :: "u8 list"
  draw_main_nonce :: "u8 list"

definition main_draws_ok :: "main_draws \<Rightarrow> bool" where
  "main_draws_ok r \<longleftrightarrow> length (draw_main_salt r) = 16 \<and> length (draw_intermediate_salt r) = 16
     \<and> length (draw_main_nonce r) = 12"

definition MainPassword_new ::
  "crypto \<Rightarrow> main_draws \<Rightarrow> u8 list \<Rightarrow> string \<Rightarrow> u8 list \<Rightarrow> UserOperationError + MainPassword" where
  "MainPassword_new C r main intermediate_key intermediate_salt =
    and_then (map_err HashingError
      (bcrypt_hash C main (bcrypt_default_cost C) (draw_main_salt r))) (\<lambda>h.
    and_then (map_err HashingError
      (bcrypt_hash C (as_bytes intermediate_key) (bcrypt_default_cost C)
        (draw_intermediate_salt r))) (\<lambda>ih.
    let key = derive_key C intermediate_key intermediate_salt;
        main_nonce = draw_main_nonce r in
    case aes_encrypt C key main_nonce main of
      Some enc \<Rightarrow> Inr \<lparr>main_hash = h, enc_main = enc,
                      enc_main_nonce = AuthDataNonce_from main_nonce,
                      intermediate_key_salt = AuthDataSalt_from intermediate_salt,
                      intermediate_key_hash = ih\<rparr>
    | None \<Rightarrow> Inl EncryptionError))"

definition MainPassword_plain ::
  "crypto \<Rightarrow> MainPassword \<Rightarrow> string \<Rightarrow> UserOperationError + u8 list" where
  "MainPassword_plain C self ik_or_main =
    and_then (map_err HashingError (bcrypt_verify C (as_bytes ik_or_main) (main_hash self)))
      (\<lambda>is_main.
    if is_main then Inr (password_to_vec ik_or_main)
    else
      and_then (map_err HashingError
        (bcrypt_verify C (as_bytes ik_or_main) (intermediate_key_hash self))) (\<lambda>is_key.
      if \<not> is_key then Inl (User WrongIntermediateKey)
      else
        let key = derive_key C ik_or_main (AuthDataSalt_into (intermediate_key_salt self));
            main_nonce = AuthDataNonce_into (enc_main_nonce self) in
        and_then (ok_or (aes_decrypt C key main_nonce (enc_main self)) EncryptionError)
          (\<lambda>decrypted_main.
        and_then (map_err HashingError (bcrypt_verify C decrypted_main (main_hash self)))
          (\<lambda>matches.
        if \<not> matches then Inl (User WrongIntermediateKey) else Inr decrypted_main))))"

text \<open>\<open>salt\<close> is the random salt that hashing draws.\<close>

definition MainPassword_check ::
  "crypto \<Rightarrow> u8 list \<Rightarrow> MainPassword \<Rightarrow> string \<Rightarrow> UserOperationError + bool" where
  "MainPassword_check C salt self main_password =
    and_then (map_err HashingError
      (bcrypt_hash C (as_bytes main_password) (bcrypt_default_cost C) salt))
      (\<lambda>main_password_hash. Inr (main_hash self = main_password_hash))"

section \<open>UserAuthData\<close>

record UserAuthData =
  main_password :: "MainPassword option"
  auth :: "SecondaryAuth list"

definition UserAuthData_new :: UserAuthData where
  "UserAuthData_new = \<lparr>main_password = None, auth = []\<rparr>"

definition has_main :: "UserAuthData \<Rightarrow> bool" where
  "has_main self \<longleftrightarrow> main_password self \<noteq> None"

definition check_main ::
  "crypto \<Rightarrow> u8 list \<Rightarrow> UserAuthData \<Rightarrow> string \<Rightarrow> UserOperationError + bool" where
  "check_main C salt self pw =
    (case main_password self of
       None \<Rightarrow> Inl (User MainPasswordNotSet)
     | Some stored_main \<Rightarrow> MainPassword_check C salt stored_main pw)"

definition UserAuthData_main ::
  "crypto \<Rightarrow> UserAuthData \<Rightarrow> string \<Rightarrow> UserOperationError + string" where
  "UserAuthData_main C self intermediate_key =
    (if \<not> is_valid_password intermediate_key then Inl (User InvalidPassword)
     else case main_password self of
       Some m \<Rightarrow> and_then (MainPassword_plain C m intermediate_key) (\<lambda>v. Inr (vec_to_password v))
     | None \<Rightarrow> Inl (User MainPasswordNotSet))"

text \<open>An operation on a mutable reference returns its result and the new value.\<close>

definition add_secondary_password ::
  "crypto \<Rightarrow> secondary_draws \<Rightarrow> ext_error + u64 \<Rightarrow> UserAuthData \<Rightarrow> string \<Rightarrow> string \<Rightarrow> string \<Rightarrow>
   (UserOperationError + unit) \<times> UserAuthData" where
  "add_secondary_password C r since_epoch self n intermediate secondary_password =
    (if \<not> is_valid_password secondary_password then (Inl (User InvalidPassword), self)
     else case UserAuthData_main C self intermediate of
       Inl e \<Rightarrow> (Inl e, self)
     | Inr checked \<Rightarrow>
         (case SecondaryPassword_new C r intermediate secondary_password of
            Inl e \<Rightarrow> (Inl e, self)
          | Inr pwd \<Rightarrow>
              (Inr (), self\<lparr>auth := auth self @ [new_password since_epoch n None pwd]\<rparr>)))"

text \<open>The loop over the secondary methods: the first that leads to the main password ends it.\<close>

fun try_secondaries ::
  "crypto \<Rightarrow> MainPassword \<Rightarrow> SecondaryAuth list \<Rightarrow> string option \<Rightarrow> UserOperationError + string" where
  "try_secondaries C m [] secondary_password = Inl (User CouldNotAuthenticate)"
| "try_secondaries C m (sec_auth # rest) secondary_password =
    (case SecondaryAuth_intermediate C sec_auth secondary_password of
       Inr intermediate \<Rightarrow>
         (case MainPassword_plain C m intermediate of
            Inr main_pw_as_vec \<Rightarrow> Inr (vec_to_password main_pw_as_vec)
          | Inl e \<Rightarrow> try_secondaries C m rest secondary_password)
     | Inl e \<Rightarrow> try_secondaries C m rest secondary_password)"

definition main_by_auth ::
  "crypto \<Rightarrow> UserAuthData \<Rightarrow> string option \<Rightarrow> UserOperationError + string" where
  "main_by_auth C self secondary_password =
    and_then (ok_or (main_password self) (User MainPasswordNotSet)) (\<lambda>m.
    case secondary_password of
      Some provided_pw \<Rightarrow>
        (if \<not> is_valid_password provided_pw then Inl (User InvalidPassword)
         else case MainPassword_plain C m provided_pw of
           Inr main_pw \<Rightarrow> Inr (vec_to_password main_pw)
         | Inl e \<Rightarrow> try_secondaries C m (auth self) secondary_password)
    | None \<Rightarrow> try_secondaries C m (auth self) secondary_password)"

text \<open>\<open>fresh_salt\<close> are the 32 random bytes drawn when no main password is set.\<close>

definition set_main ::
  "crypto \<Rightarrow> main_draws \<Rightarrow> u8 list \<Rightarrow> UserAuthData \<Rightarrow> string \<Rightarrow> string \<Rightarrow>
   (UserOperationError + unit) \<times> UserAuthData" where
  "set_main C r fresh_salt self main intermediate_key =
    (if \<not> is_valid_password main then (Inl (User InvalidPassword), self)
     else if \<not> is_valid_password intermediate_key then (Inl (User InvalidPassword), self)
     else case main_password self of
       Some m \<Rightarrow>
         (case map_err HashingError
             (bcrypt_verify C (as_bytes intermediate_key) (intermediate_key_hash m)) of
            Inl e \<Rightarrow> (Inl e, self)
          | Inr verified \<Rightarrow>
              if \<not> verified then (Inl (User WrongIntermediateKey), self)
              else (case MainPassword_new C r (password_to_vec main) intermediate_key
                        (AuthDataSalt_into (intermediate_key_salt m)) of
                 Inl e \<Rightarrow> (Inl e, self)
               | Inr mp \<Rightarrow> (Inr (), self\<lparr>main_password := Some mp\<rparr>)))
     | None \<Rightarrow>
         (case MainPassword_new C r (password_to_vec main) intermediate_key fresh_salt of
            Inr mp \<Rightarrow> (Inr (), self\<lparr>main_password := Some mp\<rparr>)
          | Inl err \<Rightarrow> (Inl err, self)))"

definition push_main :: "UserAuthData \<Rightarrow> MainPassword \<Rightarrow> UserAuthData" where
  "push_main self value = self\<lparr>main_password := Some value\<rparr>"

definition push_secondary :: "UserAuthData \<Rightarrow> SecondaryAuth \<Rightarrow> UserAuthData" where
  "push_secondary self value = self\<lparr>auth := auth self @ [value]\<rparr>"

section \<open>What a successful login implies\<close>

lemma MainPassword_new_eq_Inr:
  "MainPassword_new C r m ik salt = Inr mp \<longleftrightarrow>
     (\<exists>h ih enc. bcrypt_hash C m (bcrypt_default_cost C) (draw_main_salt r) = Inr h
        \<and> bcrypt_hash C (as_bytes ik) (bcrypt_default_cost C) (draw_intermediate_salt r) = Inr ih
        \<and> aes_encrypt C (derive_key C ik salt) (draw_main_nonce r) m = Some enc
        \<and> mp = \<lparr>main_hash = h, enc_main = enc, enc_main_nonce = AuthDataNonce_from (draw_main_nonce r),
                intermediate_key_salt = AuthDataSalt_from salt, intermediate_key_hash = ih\<rparr>)"
  by (auto simp: MainPassword_new_def Let_def and_then_eq_Inr split: option.splits)

text \<open>The string given verifies against one of the two stored hashes.\<close>

lemma MainPassword_plain_verifies:
  "MainPassword_plain C mp pw = Inr v \<Longrightarrow>
   bcrypt_verify C (as_bytes pw) (main_hash mp) = Inr True
   \<or> bcrypt_verify C (as_bytes pw) (intermediate_key_hash mp) = Inr True"
  by (auto simp: MainPassword_plain_def and_then_eq_Inr split: if_splits)

text \<open>What is returned verifies against the hash of the main password.\<close>

lemma MainPassword_plain_result:
  "MainPassword_plain C mp pw = Inr v \<Longrightarrow> bcrypt_verify C v (main_hash mp) = Inr True"
  by (auto simp: MainPassword_plain_def Let_def and_then_eq_Inr password_to_vec_def
      split: if_splits)

lemma try_secondaries_None: "try_secondaries C mp as None = Inl (User CouldNotAuthenticate)"
proof (induction as)
  case (Cons a as)
  then show ?case
    by (cases "auth_method a") (simp add: SecondaryAuth_intermediate_def)
qed simp

lemma try_secondaries_Inr:
  "try_secondaries C mp as pw = Inr m \<Longrightarrow>
   \<exists>a \<in> set as. \<exists>ik v. SecondaryAuth_intermediate C a pw = Inr ik
     \<and> MainPassword_plain C mp ik = Inr v \<and> m = vec_to_password v"
  by (induction C mp as pw rule: try_secondaries.induct) (auto split: sum.splits)

definition accepted_by_main :: "crypto \<Rightarrow> MainPassword \<Rightarrow> string \<Rightarrow> bool" where
  "accepted_by_main C mp pw \<longleftrightarrow>
     bcrypt_verify C (as_bytes pw) (main_hash mp) = Inr True
   \<or> bcrypt_verify C (as_bytes pw) (intermediate_key_hash mp) = Inr True"

definition accepted_by_secondary :: "crypto \<Rightarrow> SecondaryAuth \<Rightarrow> string \<Rightarrow> bool" where
  "accepted_by_secondary C a pw \<longleftrightarrow>
     (case auth_method a of
        Password sp \<Rightarrow> bcrypt_verify C (as_bytes pw) (password_hash sp) = Inr True)"

text \<open>
  C8: no login without a password that verifies. Whatever the cryptography does, main_by_auth
  succeeds only if a password was given, it verifies against the stored hash of the main password, of
  the intermediate key or of one of the secondary passwords, and what comes back is the decoding of
  bytes that verify against the stored hash of the main password.
\<close>

theorem main_by_auth_sound:
  assumes "main_by_auth C self pw = Inr m"
  shows "\<exists>mp s v. main_password self = Some mp \<and> pw = Some s
     \<and> (accepted_by_main C mp s \<or> (\<exists>a \<in> set (auth self). accepted_by_secondary C a s))
     \<and> m = vec_to_password v \<and> bcrypt_verify C v (main_hash mp) = Inr True"
proof -
  from assms obtain mp where mp: "main_password self = Some mp"
    by (cases "main_password self") (simp_all add: main_by_auth_def)
  have via_secondary: ?thesis if "try_secondaries C mp (auth self) pw = Inr m"
    using try_secondaries_Inr [OF that] mp
    by (fastforce simp: SecondaryAuth_intermediate_eq_Inr accepted_by_secondary_def
        dest: MainPassword_plain_result SecondaryPassword_intermediate_verifies)
  show ?thesis
  proof (cases pw)
    case None
    with assms mp via_secondary show ?thesis by (simp add: main_by_auth_def)
  next
    case (Some s)
    show ?thesis
    proof (cases "MainPassword_plain C mp s")
      case (Inl e)
      with Some assms mp via_secondary show ?thesis
        by (simp add: main_by_auth_def split: if_splits)
    next
      case (Inr v)
      with Some assms mp have "m = vec_to_password v"
        by (simp add: main_by_auth_def split: if_splits)
      with Inr Some mp show ?thesis
        by (auto simp: accepted_by_main_def
            dest: MainPassword_plain_verifies MainPassword_plain_result)
    qed
  qed
qed

section \<open>Failed operations leave the data as it was\<close>

lemma set_main_frame:
  "auth (snd (set_main C r fs self m ik)) = auth self"
  by (auto simp: set_main_def split: option.splits sum.splits)

lemma set_main_error:
  "fst (set_main C r fs self m ik) = Inl e \<Longrightarrow> snd (set_main C r fs self m ik) = self"
  by (auto simp: set_main_def split: option.splits sum.splits if_splits)

lemma add_secondary_password_frame:
  "main_password (snd (add_secondary_password C r t self n ik pw)) = main_password self"
  by (auto simp: add_secondary_password_def split: sum.splits)

lemma add_secondary_password_error:
  "fst (add_secondary_password C r t self n ik pw) = Inl e \<Longrightarrow>
   snd (add_secondary_password C r t self n ik pw) = self"
  by (auto simp: add_secondary_password_def split: sum.splits if_splits)

text \<open>
  C16: the guards of the two mutating operations. When the string given as the intermediate key does
  not verify against its stored hash, set_main fails and changes nothing; when it verifies against
  neither stored hash, or no main password is set, add_secondary_password fails and changes nothing;
  set_main never touches the secondary methods, add_secondary_password never the main password, and
  neither changes anything when it returns an error.
\<close>

theorem mutations_guarded:
  "(\<forall>mp. main_password self = Some mp \<longrightarrow>
      bcrypt_verify C (as_bytes ik) (intermediate_key_hash mp) \<noteq> Inr True \<longrightarrow>
      (\<exists>e. set_main C r fs self m ik = (Inl e, self)))
   \<and> ((\<forall>mp. main_password self = Some mp \<longrightarrow> \<not> accepted_by_main C mp ik) \<longrightarrow>
      (\<exists>e. add_secondary_password C r' t self n ik pw = (Inl e, self)))
   \<and> auth (snd (set_main C r fs self m ik)) = auth self
   \<and> main_password (snd (add_secondary_password C r' t self n ik pw)) = main_password self
   \<and> (\<forall>e. fst (set_main C r fs self m ik) = Inl e \<longrightarrow> snd (set_main C r fs self m ik) = self)
   \<and> (\<forall>e. fst (add_secondary_password C r' t self n ik pw) = Inl e \<longrightarrow>
        snd (add_secondary_password C r' t self n ik pw) = self)"
proof -
  have "\<exists>e. set_main C r fs self m ik = (Inl e, self)"
    if "main_password self = Some mp"
      and "bcrypt_verify C (as_bytes ik) (intermediate_key_hash mp) \<noteq> Inr True" for mp
    using that by (auto simp: set_main_def map_err_def split: sum.splits)
  moreover have "\<exists>e. add_secondary_password C r' t self n ik pw = (Inl e, self)"
    if h: "\<forall>mp. main_password self = Some mp \<longrightarrow> \<not> accepted_by_main C mp ik"
  proof -
    have "UserAuthData_main C self ik \<noteq> Inr x" for x
      using h by (auto simp: UserAuthData_main_def and_then_eq_Inr accepted_by_main_def
          dest: MainPassword_plain_verifies split: option.splits if_splits)
    then obtain e where "UserAuthData_main C self ik = Inl e"
      by (cases "UserAuthData_main C self ik") auto
    then show ?thesis by (simp add: add_secondary_password_def)
  qed
  ultimately show ?thesis
    by (simp add: set_main_frame add_secondary_password_frame set_main_error
        add_secondary_password_error)
qed

section \<open>Checking the main password\<close>

lemma set_main_installs:
  assumes "set_main C r fs self m ik = (Inr (), self')"
  obtains mp salt where "main_password self' = Some mp"
    "MainPassword_new C r (password_to_vec m) ik salt = Inr mp"
  using assms by (auto simp: set_main_def split: option.splits sum.splits if_splits)

lemma set_main_verifies:
  assumes "bcrypt_complete C" and "main_draws_ok r" and "set_main C r fs self m ik = (Inr (), self')"
  obtains mp where "main_password self' = Some mp"
    "bcrypt_hash C (as_bytes m) (bcrypt_default_cost C) (draw_main_salt r) = Inr (main_hash mp)"
    "bcrypt_verify C (as_bytes m) (main_hash mp) = Inr True"
proof -
  from set_main_installs [OF assms(3)] obtain mp s where
    mp: "main_password self' = Some mp" "MainPassword_new C r (password_to_vec m) ik s = Inr mp"
    by blast
  then have hash: "bcrypt_hash C (as_bytes m) (bcrypt_default_cost C) (draw_main_salt r)
      = Inr (main_hash mp)"
    by (auto simp: MainPassword_new_eq_Inr password_to_vec_def)
  with assms(1,2) have "bcrypt_verify C (as_bytes m) (main_hash mp) = Inr True"
    by (auto intro: bcrypt_completeD simp: main_draws_ok_def)
  with mp(1) hash that show ?thesis by blast
qed

lemma verified_main_logs_in:
  assumes "main_password self = Some mp" and "bcrypt_verify C (as_bytes q) (main_hash mp) = Inr True"
    and "is_string q"
  shows "main_by_auth C self (Some q) = Inr q"
  using assms by (simp add: main_by_auth_def MainPassword_plain_def)

text \<open>
  C40: only 72 bytes of a main password count. After a successful set_main every string that agrees with
  the main password in its first 72 bytes logs in, and what comes back as the main password, which the
  module keeps and sends on, is the string that was typed, not the main password.
\<close>

theorem truncated_password_logs_in:
  assumes "bcrypt_complete C" and "bcrypt_truncates C" and "main_draws_ok r"
    and "set_main C r fs self m ik = (Inr (), self')"
    and "is_string q" and "take 72 (as_bytes q) = take 72 (as_bytes m)"
  shows "main_by_auth C self' (Some q) = Inr q"
proof -
  obtain mp where mp: "main_password self' = Some mp" "bcrypt_verify C (as_bytes m) (main_hash mp) = Inr True"
    by (rule set_main_verifies [OF assms(1,3,4)])
  moreover have "bcrypt_verify C (as_bytes q) (main_hash mp) = bcrypt_verify C (as_bytes m) (main_hash mp)"
    using assms(2,6) unfolding bcrypt_truncates_def by blast
  ultimately show ?thesis using verified_main_logs_in [OF mp(1) _ assms(5)] by simp
qed

text \<open>
  Check_main does not recognise the main password. After a successful set_main the main password
  logs in through main_by_auth, but check_main, which compares the stored hash with a hash made with
  a salt of its own, answers true for no string unless it drew the very salt of the stored hash.
\<close>

theorem check_main_rejects_main:
  assumes "bcrypt_complete C" and "bcrypt_salted C" and "main_draws_ok r" and "is_string m"
    and "set_main C r fs self m ik = (Inr (), self')"
    and "length salt = 16" and "salt \<noteq> draw_main_salt r"
  shows "main_by_auth C self' (Some m) = Inr m \<and> check_main C salt self' q \<noteq> Inr True"
proof -
  obtain mp where mp: "main_password self' = Some mp"
      "bcrypt_hash C (as_bytes m) (bcrypt_default_cost C) (draw_main_salt r) = Inr (main_hash mp)"
      "bcrypt_verify C (as_bytes m) (main_hash mp) = Inr True"
    by (rule set_main_verifies [OF assms(1,3,5)])
  have "main_by_auth C self' (Some m) = Inr m"
    by (rule verified_main_logs_in [OF mp(1,3) assms(4)])
  moreover have "bcrypt_hash C (as_bytes q) (bcrypt_default_cost C) salt \<noteq> Inr (main_hash mp)"
    using assms(2,3,6,7) mp(2) unfolding bcrypt_salted_def main_draws_ok_def by metis
  ultimately show ?thesis
    using mp(1) by (auto simp: check_main_def MainPassword_check_def and_then_eq_Inr)
qed

text \<open>The data of the witnesses: hashes salted with fours and fives.\<close>

definition demo_draws :: main_draws where
  "demo_draws = \<lparr>draw_main_salt = replicate 16 4, draw_intermediate_salt = replicate 16 5,
                 draw_main_nonce = replicate 12 6\<rparr>"

lemma demo_draws_ok [simp]: "main_draws_ok demo_draws"
  by (simp add: main_draws_ok_def demo_draws_def)

lemma demo_string [simp]: "is_string ''main''" "is_string ''key''"
  by (simp_all add: is_string_def utf8_valid_ascii)

definition demo_data :: UserAuthData where
  "demo_data =
    snd (set_main toy_crypto demo_draws (replicate 32 7) UserAuthData_new ''main'' ''key'')"

lemma demo_set_main:
  "set_main toy_crypto demo_draws (replicate 32 7) UserAuthData_new ''main'' ''key''
   = (Inr (), demo_data)"
  by (simp add: demo_data_def set_main_def UserAuthData_new_def MainPassword_new_def
      toy_crypto_def Let_def)

theorem check_main_rejects_main_witness:
  "main_by_auth toy_crypto demo_data (Some ''main'') = Inr ''main''
   \<and> check_main toy_crypto (replicate 16 9) demo_data ''main'' \<noteq> Inr True"
  by (rule check_main_rejects_main [OF toy_bcrypt_complete toy_bcrypt_salted demo_draws_ok _
        demo_set_main])
    (simp_all add: demo_draws_def)

theorem truncated_password_logs_in_witness:
  "\<exists>self'. set_main toy_crypto demo_draws (replicate 32 7) UserAuthData_new
         (replicate 72 CHR ''a'' @ ''right'') ''key'' = (Inr (), self')
     \<and> main_by_auth toy_crypto self' (Some (replicate 72 CHR ''a'' @ ''wrong''))
         = Inr (replicate 72 CHR ''a'' @ ''wrong'')"
proof -
  let ?m = "replicate 72 CHR ''a'' @ ''right''" and ?q = "replicate 72 CHR ''a'' @ ''wrong''"
  have strings: "is_string ?m" "is_string ?q"
    by (simp_all add: is_string_def as_bytes_def utf8_valid_ascii list_all_iff)
  then obtain self' where "set_main toy_crypto demo_draws (replicate 32 7) UserAuthData_new ?m ''key''
      = (Inr (), self')"
    by (simp add: set_main_def UserAuthData_new_def MainPassword_new_def toy_crypto_def Let_def)
  moreover have "take 72 (as_bytes ?q) = take 72 (as_bytes ?m)" by (simp add: as_bytes_def)
  ultimately show ?thesis
    using truncated_password_logs_in [OF toy_bcrypt_complete toy_bcrypt_truncates demo_draws_ok _ strings(2)]
    by blast
qed

theorem main_by_auth_sound_witness:
  "\<exists>mp s v. main_password demo_data = Some mp \<and> Some ''main'' = Some s
     \<and> (accepted_by_main toy_crypto mp s
        \<or> (\<exists>a \<in> set (auth demo_data). accepted_by_secondary toy_crypto a s))
     \<and> ''main'' = vec_to_password v \<and> bcrypt_verify toy_crypto v (main_hash mp) = Inr True"
proof (rule main_by_auth_sound)
  have "vec_to_password (as_bytes ''main'') = ''main''"
    by (rule vec_to_password_as_bytes) (rule demo_string)
  then show "main_by_auth toy_crypto demo_data (Some ''main'') = Inr ''main''"
    by (simp add: demo_data_def set_main_def UserAuthData_new_def MainPassword_new_def
        toy_crypto_def Let_def demo_draws_def main_by_auth_def MainPassword_plain_def
        password_to_vec_def del: vec_to_password_as_bytes)
qed

theorem mutations_guarded_witness:
  "(\<exists>e. set_main toy_crypto demo_draws [] demo_data ''new'' ''wrong'' = (Inl e, demo_data))
   \<and> auth (snd (set_main toy_crypto demo_draws [] demo_data ''new'' ''wrong'')) = auth demo_data"
proof -
  obtain mp where mp: "main_password demo_data = Some mp"
    and "bcrypt_verify toy_crypto (as_bytes ''wrong'') (intermediate_key_hash mp) \<noteq> Inr True"
    by (simp add: demo_data_def set_main_def UserAuthData_new_def MainPassword_new_def
        toy_crypto_def Let_def demo_draws_def)
  then show ?thesis
    using mutations_guarded [where self = demo_data and C = toy_crypto and ik = "''wrong''"] by blast
qed

section \<open>The loop as a search\<close>

text \<open>
  The reference: the candidates in the order in which they are tried, the secret itself and what each
  secondary method opens with it, and the first main password that one of them opens.
\<close>

definition right_of :: "'e + 'a \<Rightarrow> 'a option" where
  "right_of r = (case r of Inl e \<Rightarrow> None | Inr x \<Rightarrow> Some x)"

definition login_candidates :: "crypto \<Rightarrow> UserAuthData \<Rightarrow> string \<Rightarrow> string list" where
  "login_candidates C self pw =
     pw # List.map_filter (\<lambda>a. right_of (SecondaryAuth_intermediate C a (Some pw))) (auth self)"

definition login_search :: "crypto \<Rightarrow> UserAuthData \<Rightarrow> string \<Rightarrow> UserOperationError + string" where
  "login_search C self pw =
    (case main_password self of
       None \<Rightarrow> Inl (User MainPasswordNotSet)
     | Some m \<Rightarrow>
         if \<not> is_valid_password pw then Inl (User InvalidPassword)
         else
           (case List.map_filter (\<lambda>k. right_of (MainPassword_plain C m k)) (login_candidates C self pw) of
              [] \<Rightarrow> Inl (User CouldNotAuthenticate)
            | v # vs \<Rightarrow> Inr (vec_to_password v)))"

lemma right_of_simps [simp]: "right_of (Inl e) = None" "right_of (Inr x) = Some x"
  by (simp_all add: right_of_def)

lemma try_secondaries_search:
  "try_secondaries C m as (Some pw) =
    (case List.map_filter (\<lambda>k. right_of (MainPassword_plain C m k))
        (List.map_filter (\<lambda>a. right_of (SecondaryAuth_intermediate C a (Some pw))) as) of
       [] \<Rightarrow> Inl (User CouldNotAuthenticate)
     | v # vs \<Rightarrow> Inr (vec_to_password v))"
  by (induction as) (auto simp: map_filter_simps split: sum.split)

text \<open>
  C7: main_by_auth is a search. Its branches and its loop, which swallows the errors of the methods,
  answer as the first success among the candidates in their order, for every cryptography and all
  data; without a secret it never finds one.
\<close>

theorem main_by_auth_is_search:
  "main_by_auth C self (Some pw) = login_search C self pw
   \<and> main_by_auth C self None =
       Inl (User (if has_main self then CouldNotAuthenticate else MainPasswordNotSet))"
proof
  show "main_by_auth C self (Some pw) = login_search C self pw"
    by (cases "main_password self")
      (auto simp: main_by_auth_def login_search_def login_candidates_def map_filter_simps
        try_secondaries_search split: sum.split)
  show "main_by_auth C self None =
      Inl (User (if has_main self then CouldNotAuthenticate else MainPasswordNotSet))"
    by (cases "main_password self") (simp_all add: main_by_auth_def has_main_def try_secondaries_None)
qed

end
