(* ===== verification/AccountSpec.thy ===== *)
theory AccountSpec
  imports UserAuth
begin

text \<open>
  What the authentication data promises, without any cryptography: an account is a main password, an
  intermediate key and a list of secondary passwords, each with the secret it gives access to. The
  operations of src/user.rs refine the operations of this account, and so does a login.
\<close>

section \<open>The abstract account\<close>

record account =
  acc_main :: string
  acc_key :: string
  acc_secondary :: "(string \<times> string) list"
    \<comment> \<open>a secondary password and the secret sealed under it\<close>

definition account_set_main :: "string \<Rightarrow> string \<Rightarrow> account option \<Rightarrow> account option" where
  "account_set_main m ik acc =
    (case acc of
       None \<Rightarrow> Some \<lparr>acc_main = m, acc_key = ik, acc_secondary = []\<rparr>
     | Some a \<Rightarrow> Some (if ik = acc_key a then a\<lparr>acc_main := m\<rparr> else a))"

definition account_add :: "string \<Rightarrow> string \<Rightarrow> account option \<Rightarrow> account option" where
  "account_add ik pw acc =
    (case acc of
       None \<Rightarrow> None
     | Some a \<Rightarrow> Some (if ik = acc_main a \<or> ik = acc_key a
                      then a\<lparr>acc_secondary := acc_secondary a @ [(pw, ik)]\<rparr> else a))"

definition account_accepts :: "account \<Rightarrow> string \<Rightarrow> bool" where
  "account_accepts a pw \<longleftrightarrow> pw = acc_main a \<or> pw = acc_key a"

definition account_login :: "account option \<Rightarrow> string \<Rightarrow> UserOperationError + string" where
  "account_login acc pw =
    (case acc of
       None \<Rightarrow> Inl (User MainPasswordNotSet)
     | Some a \<Rightarrow>
         if account_accepts a pw
            \<or> list_ex (\<lambda>(p, k). p = pw \<and> account_accepts a k) (acc_secondary a)
         then Inr (acc_main a) else Inl (User CouldNotAuthenticate))"

section \<open>The representation\<close>

text \<open>The passwords the specification is about: those that bcrypt tells apart.\<close>

definition password_ok :: "string \<Rightarrow> bool" where
  "password_ok s \<longleftrightarrow> is_string s \<and> bcrypt_distinguishes (as_bytes s)"

definition holds_main :: "crypto \<Rightarrow> MainPassword \<Rightarrow> string \<Rightarrow> string \<Rightarrow> bool" where
  "holds_main C mp m ik \<longleftrightarrow>
     bcrypt_made C (as_bytes m) (main_hash mp)
   \<and> bcrypt_made C (as_bytes ik) (intermediate_key_hash mp)
   \<and> aes_decrypt C (derive_key C ik (AuthDataSalt_into (intermediate_key_salt mp)))
       (AuthDataNonce_into (enc_main_nonce mp)) (enc_main mp) = Some (as_bytes m)"

definition holds_secondary :: "crypto \<Rightarrow> SecondaryAuth \<Rightarrow> string \<times> string \<Rightarrow> bool" where
  "holds_secondary C a pk \<longleftrightarrow>
     (case auth_method a of Password sp \<Rightarrow>
        bcrypt_made C (as_bytes (fst pk)) (password_hash sp)
      \<and> aes_decrypt C (derive_key C (fst pk) (AuthDataSalt_into (password_salt sp)))
          (AuthDataNonce_into (enc_intermediate_nonce sp)) (enc_intermediate sp)
        = Some (as_bytes (snd pk)))"

definition account_ok :: "account \<Rightarrow> bool" where
  "account_ok a \<longleftrightarrow> password_ok (acc_main a) \<and> password_ok (acc_key a)
     \<and> list_all (\<lambda>(p, k). password_ok p \<and> password_ok k) (acc_secondary a)"

definition represents :: "crypto \<Rightarrow> UserAuthData \<Rightarrow> account option \<Rightarrow> bool" where
  "represents C self acc \<longleftrightarrow>
     (case acc of
        None \<Rightarrow> self = UserAuthData_new
      | Some a \<Rightarrow> account_ok a
          \<and> (\<exists>mp. main_password self = Some mp \<and> holds_main C mp (acc_main a) (acc_key a))
          \<and> list_all2 (holds_secondary C) (auth self) (acc_secondary a))"

lemma password_okD:
  assumes "password_ok s"
  shows "is_string s" "bcrypt_distinguishes (as_bytes s)"
  using assms by (simp_all add: password_ok_def)

lemma password_ok_ascii:
  "list_all (\<lambda>b. b \<noteq> 0 \<and> b < 0x80) (as_bytes s) \<Longrightarrow> length s \<le> 72 \<Longrightarrow> password_ok s"
  by (auto simp: password_ok_def is_string_def bcrypt_distinguishes_def no_nul_def list_all_iff
      intro!: utf8_valid_ascii)

lemma bcrypt_made_string:
  assumes "lawful_crypto C" and "bcrypt_made C (as_bytes p) h" and "password_ok p" and "password_ok q"
  shows "bcrypt_verify C (as_bytes q) h = Inr (q = p)"
  using bcrypt_made_exact [OF lawful_cryptoD(2) [OF assms(1)] assms(2)
      password_okD(2) [OF assms(3)] password_okD(2) [OF assms(4)]]
  by simp

text \<open>Opening the structures: exactly the right strings do.\<close>

lemma MainPassword_plain_exact:
  assumes C: "lawful_crypto C" and holds: "holds_main C mp m ik"
    and ok: "password_ok m" "password_ok ik" "password_ok pw"
  shows "MainPassword_plain C mp pw =
         (if pw = m \<or> pw = ik then Inr (as_bytes m) else Inl (User WrongIntermediateKey))"
proof -
  have main: "bcrypt_verify C (as_bytes q) (main_hash mp) = Inr (q = m)" if "password_ok q" for q
    using C holds ok(1) that by (auto simp: holds_main_def intro: bcrypt_made_string)
  have key: "bcrypt_verify C (as_bytes pw) (intermediate_key_hash mp) = Inr (pw = ik)"
    using C holds ok(2,3) by (auto simp: holds_main_def intro: bcrypt_made_string)
  show ?thesis
    using main [OF ok(3)] main [OF ok(1)] key holds
    by (cases "pw = m"; cases "pw = ik")
      (simp_all add: MainPassword_plain_def holds_main_def password_to_vec_def)
qed

lemma SecondaryAuth_intermediate_exact:
  assumes C: "lawful_crypto C" and holds: "holds_secondary C a (p, k)"
    and ok: "password_ok p" "password_ok k" "password_ok pw"
  shows "SecondaryAuth_intermediate C a (Some pw) =
         (if pw = p then Inr k else Inl (User CouldNotAuthenticate))"
proof -
  obtain sp where sp: "auth_method a = Password sp" by (cases "auth_method a")
  have "bcrypt_verify C (as_bytes pw) (password_hash sp) = Inr (pw = p)"
    using C holds ok(1,3) sp by (auto simp: holds_secondary_def intro: bcrypt_made_string)
  then show ?thesis
    using holds sp password_okD [OF ok(2)]
    by (simp add: SecondaryAuth_intermediate_def SecondaryPassword_intermediate_def Let_def
        holds_secondary_def)
qed

lemma holds_main_new:
  assumes "lawful_crypto C" and "main_draws_ok r" and "length salt = 32"
    and "MainPassword_new C r (as_bytes m) ik salt = Inr mp"
  shows "holds_main C mp m ik"
proof -
  from assms(4) obtain h ih enc where
    made: "bcrypt_hash C (as_bytes m) (bcrypt_default_cost C) (draw_main_salt r) = Inr h"
      "bcrypt_hash C (as_bytes ik) (bcrypt_default_cost C) (draw_intermediate_salt r) = Inr ih"
    and enc: "aes_encrypt C (derive_key C ik salt) (draw_main_nonce r) (as_bytes m) = Some enc"
    and mp: "mp = \<lparr>main_hash = h, enc_main = enc,
      enc_main_nonce = AuthDataNonce_from (draw_main_nonce r),
      intermediate_key_salt = AuthDataSalt_from salt, intermediate_key_hash = ih\<rparr>"
    by (auto simp: MainPassword_new_eq_Inr)
  from assms(1) enc have "aes_decrypt C (derive_key C ik salt) (draw_main_nonce r) enc
      = Some (as_bytes m)"
    by (auto intro: aes_correctD)
  with made assms(2,3) show ?thesis
    by (auto simp: mp holds_main_def main_draws_ok_def AuthDataSalt_into_from
        AuthDataNonce_into_from intro: bcrypt_madeI)
qed

lemma holds_secondary_new:
  assumes "lawful_crypto C" and "secondary_draws_ok r"
    and "SecondaryPassword_new C r k p = Inr sp"
  shows "holds_secondary C (new_password t n d sp) (p, k)"
proof -
  from assms(3) obtain h enc where
    made: "bcrypt_hash C (as_bytes p) (bcrypt_default_cost C) (draw_bcrypt_salt r) = Inr h"
    and enc: "aes_encrypt C (derive_key C p (draw_key_salt r)) (draw_nonce r) (as_bytes k)
      = Some enc"
    and sp: "sp = \<lparr>enc_intermediate_nonce = AuthDataNonce_from (draw_nonce r),
      enc_intermediate = enc, password_salt = AuthDataSalt_from (draw_key_salt r),
      password_hash = h\<rparr>"
    by (auto simp: SecondaryPassword_new_eq_Inr password_to_vec_def)
  from assms(1) enc have "aes_decrypt C (derive_key C p (draw_key_salt r)) (draw_nonce r) enc
      = Some (as_bytes k)"
    by (auto intro: aes_correctD)
  with made assms(2) show ?thesis
    by (auto simp: sp holds_secondary_def secondary_draws_ok_def AuthDataSalt_into_from
        AuthDataNonce_into_from intro: bcrypt_madeI)
qed

text \<open>The main password structure is a box as well, opened by the intermediate key.\<close>

lemma MainPassword_roundtrip:
  assumes "lawful_crypto C" and "main_draws_ok r" and "length salt = 32"
    and "password_ok m" and "password_ok ik"
    and "MainPassword_new C r (as_bytes m) ik salt = Inr mp"
  shows "MainPassword_plain C mp ik = Inr (as_bytes m)"
proof -
  have "holds_main C mp m ik" using assms(1-3,6) by (rule holds_main_new)
  then show ?thesis using assms(1,4,5) by (simp add: MainPassword_plain_exact)
qed

interpretation main_box: sealed_box
    "\<lambda>C r m ik. MainPassword_new C (fst r) (as_bytes m) ik (snd r)"
    "\<lambda>C mp ik. map_sum id vec_to_password (MainPassword_plain C mp ik)" lawful_crypto
    "\<lambda>r m ik. main_draws_ok (fst r) \<and> length (snd r) = 32 \<and> password_ok m \<and> password_ok ik"
proof unfold_locales
  fix C and r :: "main_draws \<times> u8 list" and m ik mp
  assume "lawful_crypto C" and fits: "main_draws_ok (fst r) \<and> length (snd r) = 32 \<and> password_ok m
      \<and> password_ok ik" and "MainPassword_new C (fst r) (as_bytes m) ik (snd r) = Inr mp"
  then have "MainPassword_plain C mp ik = Inr (as_bytes m)"
    by (auto intro: MainPassword_roundtrip)
  with fits show "map_sum id vec_to_password (MainPassword_plain C mp ik) = Inr m"
    by (simp add: password_okD)
qed

section \<open>Each operation refines its abstract counterpart\<close>

lemma represents_new [simp]: "represents C UserAuthData_new None"
  by (simp add: represents_def)

lemma represents_SomeE:
  assumes "represents C self (Some a)"
  obtains mp where "main_password self = Some mp" "holds_main C mp (acc_main a) (acc_key a)"
    "account_ok a" "list_all2 (holds_secondary C) (auth self) (acc_secondary a)"
  using assms by (auto simp: represents_def)

lemma account_okD:
  assumes "account_ok a"
  shows "password_ok (acc_main a)" "password_ok (acc_key a)"
    "list_all (\<lambda>(p, k). password_ok p \<and> password_ok k) (acc_secondary a)"
  using assms by (simp_all add: account_ok_def)

lemma try_secondaries_exact:
  assumes C: "lawful_crypto C" and holds: "holds_main C mp (acc_main a) (acc_key a)"
    and ok: "password_ok (acc_main a)" "password_ok (acc_key a)" "password_ok pw"
    and secs: "list_all2 (holds_secondary C) as pks"
      "list_all (\<lambda>(p, k). password_ok p \<and> password_ok k) pks"
  shows "try_secondaries C mp as (Some pw) =
    (if list_ex (\<lambda>(p, k). p = pw \<and> account_accepts a k) pks
     then Inr (acc_main a) else Inl (User CouldNotAuthenticate))"
  using secs
proof (induction as pks rule: list_all2_induct)
  case (Cons s as pk pks)
  obtain p k where pk: "pk = (p, k)" by (cases pk)
  with Cons have okpk: "password_ok p" "password_ok k" by simp_all
  have opens: "SecondaryAuth_intermediate C s (Some pw) =
      (if pw = p then Inr k else Inl (User CouldNotAuthenticate))"
    using C Cons(1) okpk ok(3) by (simp add: SecondaryAuth_intermediate_exact pk)
  have plain: "MainPassword_plain C mp k =
      (if account_accepts a k then Inr (as_bytes (acc_main a)) else Inl (User WrongIntermediateKey))"
    using C holds ok okpk by (simp add: MainPassword_plain_exact account_accepts_def)
  show ?case
    using Cons.IH Cons.prems by (auto simp: opens plain pk password_okD [OF ok(1)])
qed simp

lemma main_by_auth_exact:
  assumes "lawful_crypto C" and "represents C self acc" and "password_ok pw"
  shows "main_by_auth C self (Some pw) = account_login acc pw"
proof (cases acc)
  case None
  with assms show ?thesis
    by (simp add: represents_def UserAuthData_new_def main_by_auth_def account_login_def)
next
  case (Some a)
  with assms(2) obtain mp where mp: "main_password self = Some mp"
      "holds_main C mp (acc_main a) (acc_key a)" "account_ok a"
      "list_all2 (holds_secondary C) (auth self) (acc_secondary a)"
    by (auto elim: represents_SomeE)
  note ok = account_okD [OF mp(3)]
  have "MainPassword_plain C mp pw =
      (if account_accepts a pw then Inr (as_bytes (acc_main a)) else Inl (User WrongIntermediateKey))"
    using assms(1,3) mp(2) ok(1,2) by (simp add: MainPassword_plain_exact account_accepts_def)
  with assms mp ok Some show ?thesis
    by (auto simp: main_by_auth_def account_login_def password_okD try_secondaries_exact)
qed

text \<open>A successful set_main is the abstract one; so is every set_main refused for its key.\<close>

lemma set_main_refines:
  assumes "lawful_crypto C" and "represents C self acc" and "main_draws_ok r" and "length fs = 32"
    and "password_ok m" and "password_ok ik"
    and "set_main C r fs self m ik = (Inr (), self')"
  shows "represents C self' (account_set_main m ik acc)
    \<and> (\<forall>a. acc = Some a \<longrightarrow> ik = acc_key a)"
proof (cases acc)
  case None
  with assms(2) have "self = UserAuthData_new" by (simp add: represents_def)
  with assms(5-7) obtain mp where "MainPassword_new C r (as_bytes m) ik fs = Inr mp"
      "self' = UserAuthData_new\<lparr>main_password := Some mp\<rparr>"
    by (auto simp: set_main_def UserAuthData_new_def password_okD password_to_vec_def
        split: sum.splits)
  with assms None show ?thesis
    by (auto simp: represents_def account_set_main_def account_ok_def UserAuthData_new_def
        intro: holds_main_new)
next
  case (Some a)
  with assms(2) obtain mp where mp: "main_password self = Some mp"
      "holds_main C mp (acc_main a) (acc_key a)" "account_ok a"
      "list_all2 (holds_secondary C) (auth self) (acc_secondary a)"
    by (auto elim: represents_SomeE)
  note ok = account_okD [OF mp(3)]
  have "bcrypt_verify C (as_bytes ik) (intermediate_key_hash mp) = Inr (ik = acc_key a)"
    using assms(1,6) mp(2) ok(2) by (auto simp: holds_main_def intro: bcrypt_made_string)
  with assms(5-7) mp(1) obtain mp' where ik: "ik = acc_key a"
      and mp': "MainPassword_new C r (as_bytes m) ik
        (AuthDataSalt_into (intermediate_key_salt mp)) = Inr mp'"
        "self' = self\<lparr>main_password := Some mp'\<rparr>"
    by (auto simp: set_main_def password_okD password_to_vec_def split: sum.splits if_splits)
  have "length (AuthDataSalt_into (intermediate_key_salt mp)) = 32"
    by (simp add: AuthDataSalt_into_def)
  with assms(1,3) mp'(1) have "holds_main C mp' m ik" by (simp add: holds_main_new)
  with mp mp'(2) ok ik Some assms(5) show ?thesis
    by (simp add: represents_def account_set_main_def account_ok_def)
qed

lemma add_secondary_password_refines:
  assumes "lawful_crypto C" and "represents C self acc" and "secondary_draws_ok r"
    and "password_ok ik" and "password_ok pw"
    and "add_secondary_password C r t self n ik pw = (Inr (), self')"
  shows "represents C self' (account_add ik pw acc)
    \<and> (\<exists>a. acc = Some a \<and> account_accepts a ik)"
proof (cases acc)
  case None
  with assms show ?thesis
    by (simp add: represents_def UserAuthData_new_def add_secondary_password_def
        UserAuthData_main_def password_okD)
next
  case (Some a)
  with assms(2) obtain mp where mp: "main_password self = Some mp"
      "holds_main C mp (acc_main a) (acc_key a)" "account_ok a"
      "list_all2 (holds_secondary C) (auth self) (acc_secondary a)"
    by (auto elim: represents_SomeE)
  note ok = account_okD [OF mp(3)]
  have "UserAuthData_main C self ik =
      (if account_accepts a ik then Inr (acc_main a) else Inl (User WrongIntermediateKey))"
    using assms(1,4) mp(1,2) ok(1,2)
    by (simp add: UserAuthData_main_def MainPassword_plain_exact account_accepts_def password_okD)
  with assms(5,6) obtain sp where acc: "account_accepts a ik"
      and sp: "SecondaryPassword_new C r ik pw = Inr sp"
        "self' = self\<lparr>auth := auth self @ [new_password t n None sp]\<rparr>"
    by (auto simp: add_secondary_password_def password_okD split: sum.splits if_splits)
  have "holds_secondary C (new_password t n None sp) (pw, ik)"
    using assms(1,3) sp(1) by (rule holds_secondary_new)
  with mp sp(2) ok acc assms(4,5) Some show ?thesis
    by (auto simp: represents_def account_add_def account_ok_def account_accepts_def
        intro: list_all2_appendI)
qed

section \<open>Histories of operations\<close>

datatype auth_op =
    SetMain main_draws "u8 list" string string
  | AddSecondary secondary_draws "ext_error + u64" string string string

fun auth_op_ok :: "auth_op \<Rightarrow> bool" where
  "auth_op_ok (SetMain r fs m ik) \<longleftrightarrow>
     main_draws_ok r \<and> length fs = 32 \<and> password_ok m \<and> password_ok ik"
| "auth_op_ok (AddSecondary r t n ik pw) \<longleftrightarrow>
     secondary_draws_ok r \<and> password_ok ik \<and> password_ok pw"

fun auth_run :: "crypto \<Rightarrow> UserAuthData \<Rightarrow> auth_op \<Rightarrow> (UserOperationError + unit) \<times> UserAuthData" where
  "auth_run C self (SetMain r fs m ik) = set_main C r fs self m ik"
| "auth_run C self (AddSecondary r t n ik pw) = add_secondary_password C r t self n ik pw"

definition auth_step :: "crypto \<times> UserAuthData \<Rightarrow> auth_op \<Rightarrow> crypto \<times> UserAuthData" where
  "auth_step s x = (fst s, snd (auth_run (fst s) (snd s) x))"

fun account_step :: "account option \<Rightarrow> auth_op \<Rightarrow> account option" where
  "account_step acc (SetMain r fs m ik) = account_set_main m ik acc"
| "account_step acc (AddSecondary r t n ik pw) = account_add ik pw acc"

fun account_result :: "account option \<Rightarrow> auth_op \<Rightarrow> UserOperationError + unit" where
  "account_result None (SetMain r fs m ik) = Inr ()"
| "account_result (Some a) (SetMain r fs m ik) =
     (if ik = acc_key a then Inr () else Inl (User WrongIntermediateKey))"
| "account_result None (AddSecondary r t n ik pw) = Inl (User MainPasswordNotSet)"
| "account_result (Some a) (AddSecondary r t n ik pw) =
     (if account_accepts a ik then Inr () else Inl (User WrongIntermediateKey))"

lemma MainPassword_new_total:
  "crypto_total C \<Longrightarrow> main_draws_ok r \<Longrightarrow> \<exists>mp. MainPassword_new C r m ik salt = Inr mp"
  unfolding MainPassword_new_eq_Inr crypto_total_def main_draws_ok_def by metis

lemma SecondaryPassword_new_total:
  "crypto_total C \<Longrightarrow> secondary_draws_ok r \<Longrightarrow> \<exists>sp. SecondaryPassword_new C r ik pw = Inr sp"
  unfolding SecondaryPassword_new_eq_Inr crypto_total_def secondary_draws_ok_def by metis

lemma set_main_result:
  assumes C: "lawful_crypto C" "crypto_total C" and rep: "represents C self acc"
    and ok: "auth_op_ok (SetMain r fs m ik)"
  shows "fst (set_main C r fs self m ik) = account_result acc (SetMain r fs m ik)"
proof (cases acc)
  case None
  from MainPassword_new_total [OF C(2)] ok
  obtain mp where "MainPassword_new C r (password_to_vec m) ik fs = Inr mp" by fastforce
  with None rep ok show ?thesis
    by (simp add: represents_def UserAuthData_new_def set_main_def password_okD)
next
  case (Some a)
  with rep obtain mp where mp: "main_password self = Some mp"
      "holds_main C mp (acc_main a) (acc_key a)" "account_ok a"
    by (auto elim: represents_SomeE)
  have verify: "bcrypt_verify C (as_bytes ik) (intermediate_key_hash mp) = Inr (ik = acc_key a)"
    using C(1) ok mp(2) account_okD(2) [OF mp(3)]
    by (auto simp: holds_main_def intro: bcrypt_made_string)
  from MainPassword_new_total [OF C(2)] ok
  obtain mp' where "MainPassword_new C r (password_to_vec m) ik
      (AuthDataSalt_into (intermediate_key_salt mp)) = Inr mp'" by fastforce
  with Some mp(1) verify ok show ?thesis
    by (cases "ik = acc_key a") (simp_all add: set_main_def password_okD)
qed

lemma add_secondary_password_result:
  assumes C: "lawful_crypto C" "crypto_total C" and rep: "represents C self acc"
    and ok: "auth_op_ok (AddSecondary r t n ik pw)"
  shows "fst (add_secondary_password C r t self n ik pw)
    = account_result acc (AddSecondary r t n ik pw)"
proof (cases acc)
  case None
  with rep ok show ?thesis
    by (simp add: represents_def UserAuthData_new_def add_secondary_password_def
        UserAuthData_main_def password_okD)
next
  case (Some a)
  with rep obtain mp where mp: "main_password self = Some mp"
      "holds_main C mp (acc_main a) (acc_key a)" "account_ok a"
    by (auto elim: represents_SomeE)
  have "UserAuthData_main C self ik =
      (if account_accepts a ik then Inr (acc_main a) else Inl (User WrongIntermediateKey))"
    using C(1) ok mp account_okD(1,2) [OF mp(3)]
    by (simp add: UserAuthData_main_def MainPassword_plain_exact account_accepts_def password_okD)
  moreover from SecondaryPassword_new_total [OF C(2)] ok
  obtain sp where "SecondaryPassword_new C r ik pw = Inr sp" by fastforce
  ultimately show ?thesis
    using Some ok by (simp add: add_secondary_password_def password_okD)
qed

lemma auth_run_result:
  "lawful_crypto C \<Longrightarrow> crypto_total C \<Longrightarrow> represents C self acc \<Longrightarrow> auth_op_ok x \<Longrightarrow>
   fst (auth_run C self x) = account_result acc x"
  by (cases x) (simp_all add: set_main_result add_secondary_password_result del: auth_op_ok.simps)

lemma account_step_error: "account_result acc x = Inl e \<Longrightarrow> account_step acc x = acc"
  by (cases "(acc, x)" rule: account_result.cases)
    (auto simp: account_set_main_def account_add_def account_accepts_def split: if_splits)

lemma auth_run_error: "fst (auth_run C self x) = Inl e \<Longrightarrow> snd (auth_run C self x) = self"
  by (cases x) (simp_all add: set_main_error add_secondary_password_error)

lemma auth_run_refines:
  assumes "lawful_crypto C" and "represents C self acc" and "auth_op_ok x"
    and "auth_run C self x = (Inr (), self')"
  shows "represents C self' (account_step acc x)"
  using assms set_main_refines [OF assms(1,2)] add_secondary_password_refines [OF assms(1,2)]
  by (cases x) auto

lemma auth_step_refines:
  assumes C: "lawful_crypto C" "crypto_total C" and rep: "represents C self acc"
    and ok: "auth_op_ok x"
  shows "represents C (snd (auth_run C self x)) (account_step acc x)"
proof (cases "fst (auth_run C self x)")
  case (Inl e)
  then have "account_result acc x = Inl e" using auth_run_result [OF C rep ok] by simp
  with Inl show ?thesis by (simp add: auth_run_error account_step_error rep)
next
  case (Inr u)
  then have "auth_run C self x = (Inr (), snd (auth_run C self x))" by (simp add: prod_eq_iff)
  with C(1) rep ok show ?thesis by (rule auth_run_refines)
qed

interpretation auth_data: simulation auth_step account_step
    "\<lambda>s acc. lawful_crypto (fst s) \<and> crypto_total (fst s) \<and> represents (fst s) (snd s) acc"
    auth_op_ok
  by unfold_locales (simp add: auth_step_def auth_step_refines)

lemma fst_auth_steps: "fst (foldl auth_step s xs) = fst s"
  by (induction xs arbitrary: s) (simp_all add: auth_step_def)

text \<open>
  C1: the authentication data refines the abstract account. After any sequence of set_main and
  add_secondary_password calls on fresh data, whatever random bytes they drew, a login with any
  password has the outcome the account specifies (the main password for the main password, the
  intermediate key and the secondary passwords sealed under one of these; CouldNotAuthenticate for
  everything else; MainPasswordNotSet before setup), and the next operation reports the result the
  account specifies.
\<close>

theorem auth_data_refines_account:
  assumes "lawful_crypto C" and "crypto_total C" and "list_all auth_op_ok xs"
    and "password_ok pw" and "auth_op_ok x"
  shows "let self = snd (foldl auth_step (C, UserAuthData_new) xs);
             acc = foldl account_step None xs in
         main_by_auth C self (Some pw) = account_login acc pw
       \<and> fst (auth_run C self x) = account_result acc x"
proof -
  have "represents C (snd (foldl auth_step (C, UserAuthData_new) xs)) (foldl account_step None xs)"
    using auth_data.run_rel [of "(C, UserAuthData_new)" None xs] assms(1-3)
    by (simp add: fst_auth_steps)
  with assms show ?thesis
    by (simp add: main_by_auth_exact auth_run_result)
qed

text \<open>An account with a main password and one secondary password, and the three logins.\<close>

definition toy_setup :: auth_op where
  "toy_setup = SetMain demo_draws (replicate 32 7) ''main'' ''key''"

definition toy_add :: "string \<Rightarrow> auth_op" where
  "toy_add ik = AddSecondary toy_draws (Inr 1700000000) ''phone'' ik ''pin''"

definition toy_change :: auth_op where
  "toy_change = SetMain demo_draws (replicate 32 8) ''fresh'' ''key''"

lemma toy_passwords_ok [simp]:
  "password_ok ''main''" "password_ok ''key''" "password_ok ''pin''" "password_ok ''fresh''"
  "password_ok ''guess''"
  by (simp_all add: password_ok_ascii)

lemma toy_ops_ok [simp]:
  "auth_op_ok toy_setup" "auth_op_ok toy_change" "password_ok ik \<Longrightarrow> auth_op_ok (toy_add ik)"
  by (simp_all add: toy_setup_def toy_add_def toy_change_def)

lemmas toy_op_defs = toy_setup_def toy_add_def toy_change_def

theorem auth_data_refines_account_witness:
  "main_by_auth toy_crypto (snd (foldl auth_step (toy_crypto, UserAuthData_new)
     [toy_setup, toy_add ''key''])) (Some ''pin'') = Inr ''main''
   \<and> main_by_auth toy_crypto (snd (foldl auth_step (toy_crypto, UserAuthData_new)
     [toy_setup, toy_add ''key''])) (Some ''guess'') = Inl (User CouldNotAuthenticate)"
  using auth_data_refines_account [of toy_crypto "[toy_setup, toy_add ''key'']" "''pin''" toy_change]
    auth_data_refines_account [of toy_crypto "[toy_setup, toy_add ''key'']" "''guess''" toy_change]
  by (simp add: Let_def toy_op_defs account_login_def account_set_main_def account_add_def
      account_accepts_def)

section \<open>Changing the main password\<close>

text \<open>
  C13: secondary passwords outlive a change of the main password. When set_main succeeds on data that
  holds an account, every secondary password sealed under the intermediate key logs in afterwards and
  yields the new main password, and so do the intermediate key and the new main password themselves.
\<close>

theorem change_main_keeps_secondaries:
  assumes "lawful_crypto C" and "represents C self (Some a)" and "main_draws_ok r"
    and "length fs = 32" and "password_ok m" and "password_ok ik"
    and "set_main C r fs self m ik = (Inr (), self')"
    and "p = m \<or> p = ik \<or> (p, acc_key a) \<in> set (acc_secondary a)" and "password_ok p"
  shows "main_by_auth C self' (Some p) = Inr m"
proof -
  have rep: "represents C self' (account_set_main m ik (Some a))" and ik: "ik = acc_key a"
    using set_main_refines [OF assms(1-7)] by blast+
  have "account_login (account_set_main m ik (Some a)) p = Inr m"
    using assms(8) ik
    by (auto simp: account_login_def account_set_main_def account_accepts_def list_ex_iff)
  with assms(1,9) rep show ?thesis by (simp add: main_by_auth_exact)
qed

text \<open>
  C23: the test of the intermediate key in add_secondary_password does not test the intermediate key.
  Given the main password in its place, the operation succeeds and seals the main password; the new
  secondary password works until the main password changes, and then it logs in no more.
\<close>

theorem secondary_sealed_under_main_dies:
  assumes C: "lawful_crypto C" "crypto_total C"
    and ok: "list_all auth_op_ok
      [SetMain r fs m ik, AddSecondary r' t n m pw, SetMain r'' fs' m' ik]"
    and distinct: "distinct [m, ik, pw, m']"
    and before: "s1 = snd (foldl auth_step (C, UserAuthData_new)
      [SetMain r fs m ik, AddSecondary r' t n m pw])"
    and after: "s2 = snd (auth_step (C, s1) (SetMain r'' fs' m' ik))"
  shows "main_by_auth C s1 (Some pw) = Inr m
    \<and> main_by_auth C s2 (Some pw) = Inl (User CouldNotAuthenticate)"
proof -
  let ?xs = "[SetMain r fs m ik, AddSecondary r' t n m pw]"
  let ?y = "SetMain r'' fs' m' ik"
  have pw: "password_ok pw" and oks: "list_all auth_op_ok ?xs" "list_all auth_op_ok (?xs @ [?y])"
    and y: "auth_op_ok ?y"
    using ok by simp_all
  have "represents C s1 (foldl account_step None ?xs)"
    using auth_data.run_rel [of "(C, UserAuthData_new)" None ?xs] C oks(1)
    by (simp add: before auth_step_def)
  moreover from this have "represents C s2 (account_step (foldl account_step None ?xs) ?y)"
    using auth_step_refines [OF C _ y] by (simp add: after auth_step_def)
  ultimately show ?thesis
    using C(1) pw distinct
    by (auto simp: main_by_auth_exact account_login_def account_set_main_def account_add_def
        account_accepts_def)
qed

text \<open>The change on the account above: the secondary password yields the new main password.\<close>

lemma toy_account:
  "represents toy_crypto (snd (foldl auth_step (toy_crypto, UserAuthData_new)
     [toy_setup, toy_add ''key'']))
     (Some \<lparr>acc_main = ''main'', acc_key = ''key'', acc_secondary = [(''pin'', ''key'')]\<rparr>)"
  using auth_data.run_rel [of "(toy_crypto, UserAuthData_new)" None "[toy_setup, toy_add ''key'']"]
  by (simp add: toy_op_defs auth_step_def account_set_main_def account_add_def)

text \<open>Data that represents an account with a main password and an intermediate key.\<close>

lemma demo_account:
  assumes "password_ok m" and "password_ok ik"
  obtains mp where "represents toy_crypto (push_main UserAuthData_new mp)
    (Some \<lparr>acc_main = m, acc_key = ik, acc_secondary = []\<rparr>)"
proof -
  obtain mp where mp: "MainPassword_new toy_crypto demo_draws (as_bytes m) ik (replicate 32 0) = Inr mp"
    by (auto simp: MainPassword_new_def toy_crypto_def Let_def)
  then have "holds_main toy_crypto mp m ik"
    by (intro holds_main_new [OF lawful_toy demo_draws_ok _ mp]) simp
  with assms that show ?thesis
    by (simp add: represents_def account_ok_def push_main_def UserAuthData_new_def)
qed

theorem change_main_keeps_secondaries_witness:
  "\<exists>self'. set_main toy_crypto demo_draws (replicate 32 8)
      (snd (foldl auth_step (toy_crypto, UserAuthData_new) [toy_setup, toy_add ''key'']))
      ''fresh'' ''key'' = (Inr (), self')
    \<and> main_by_auth toy_crypto self' (Some ''pin'') = Inr ''fresh''"
proof -
  let ?s = "snd (foldl auth_step (toy_crypto, UserAuthData_new) [toy_setup, toy_add ''key''])"
  let ?r = "set_main toy_crypto demo_draws (replicate 32 8) ?s ''fresh'' ''key''"
  have "fst ?r = Inr ()"
    using auth_run_result [OF lawful_toy toy_crypto_total toy_account toy_ops_ok(2)]
    by (simp add: toy_change_def)
  then have r: "?r = (Inr (), snd ?r)" by (simp add: prod_eq_iff)
  have "main_by_auth toy_crypto (snd ?r) (Some ''pin'') = Inr ''fresh''"
    using change_main_keeps_secondaries [OF lawful_toy toy_account demo_draws_ok _ _ _ r,
        of "''pin''"]
    by simp
  with r show ?thesis by blast
qed

theorem secondary_sealed_under_main_dies_witness:
  "main_by_auth toy_crypto (snd (foldl auth_step (toy_crypto, UserAuthData_new)
     [toy_setup, toy_add ''main''])) (Some ''pin'') = Inr ''main''
   \<and> main_by_auth toy_crypto (snd (auth_step (toy_crypto, snd (foldl auth_step
     (toy_crypto, UserAuthData_new) [toy_setup, toy_add ''main''])) toy_change)) (Some ''pin'')
     = Inl (User CouldNotAuthenticate)"
  using secondary_sealed_under_main_dies [of toy_crypto demo_draws "replicate 32 7" "''main''"
      "''key''" toy_draws "Inr 1700000000" "''phone''" "''pin''" demo_draws "replicate 32 8"
      "''fresh''"]
  by (simp add: toy_op_defs)

end
