(* ===== verification/MountPoints.thy ===== *)
theory MountPoints
  imports Prelude
begin

text \<open>
  The mounts a user configures and the hash that root authorizes (src/mount.rs). The hash map of the
  additional mounts is a finite map; the order in which a process enumerates it is not part of the
  map's value (the standard library seeds it at random), so the operations that iterate take the
  order as an argument, a list without repetitions of exactly the keys.
\<close>

section \<open>MountParams and MountPoints\<close>

record MountParams =
  fstype :: string
  device :: string
  flags :: "string list"

definition MountParams_new :: "string \<Rightarrow> string \<Rightarrow> string list \<Rightarrow> MountParams" where
  "MountParams_new dev fs fl = \<lparr>fstype = fs, device = dev, flags = fl\<rparr>"

definition MountParams_default :: MountParams where
  "MountParams_default = \<lparr>fstype = [], device = [], flags = []\<rparr>"

record MountPoints =
  mounts :: "string \<rightharpoonup> MountParams"
  home :: MountParams

definition MountPoints_new :: "MountParams \<Rightarrow> (string \<rightharpoonup> MountParams) \<Rightarrow> MountPoints" where
  "MountPoints_new h ms = \<lparr>mounts = ms, home = h\<rparr>"

definition MountPoints_default :: MountPoints where
  "MountPoints_default = \<lparr>mounts = Map.empty, home = MountParams_default\<rparr>"

definition enumerates :: "'k list \<Rightarrow> ('k \<rightharpoonup> 'v) \<Rightarrow> bool" where
  "enumerates ks m \<longleftrightarrow> distinct ks \<and> set ks = dom m"

definition foreach :: "MountPoints \<Rightarrow> string list \<Rightarrow> (string \<Rightarrow> MountParams \<Rightarrow> 'r) \<Rightarrow> 'r list" where
  "foreach self ks fn = List.map_filter (\<lambda>a. map_option (\<lambda>b. fn a b) (mounts self a)) ks"

definition add_premount :: "MountPoints \<Rightarrow> string \<Rightarrow> MountParams \<Rightarrow> MountPoints" where
  "add_premount self dir mnt = self\<lparr>mounts := (mounts self)(dir \<mapsto> mnt)\<rparr>"

definition with_premount :: "MountPoints \<Rightarrow> string \<Rightarrow> MountParams \<Rightarrow> MountPoints" where
  "with_premount self dir mnt =
    (let n = self\<lparr>mounts := (mounts self)(dir := None)\<rparr> in add_premount n dir mnt)"

definition set_mount :: "MountPoints \<Rightarrow> MountParams \<Rightarrow> MountPoints" where
  "set_mount self mnt = self\<lparr>home := mnt\<rparr>"

definition with_mount :: "MountPoints \<Rightarrow> MountParams \<Rightarrow> MountPoints" where
  "with_mount self mnt = set_mount self mnt"

section \<open>The hash\<close>

text \<open>
  The hasher is a crate: the model is the sequence of calls it receives, and its 64-bit result is a
  function of that sequence.
\<close>

datatype hasher_call = Write "u8 list" | Write_u8 u8 | Write_usize usize

type_synonym digest = "hasher_call list \<Rightarrow> u64"

fun flag_calls :: "nat \<Rightarrow> string list \<Rightarrow> hasher_call list" where
  "flag_calls i1 [] = []"
| "flag_calls i1 (a # rest) =
     [Write_usize (of_nat i1), Write (as_bytes a)] @ flag_calls (Suc i1) rest"

fun mount_calls :: "nat \<Rightarrow> (string \<times> MountParams) list \<Rightarrow> hasher_call list" where
  "mount_calls i [] = []"
| "mount_calls i ((dir, m) # rest) =
     [Write_usize (of_nat i), Write_u8 0, Write (as_bytes dir), Write_u8 1,
      Write (as_bytes (device m)), Write_u8 2, Write (as_bytes (fstype m)), Write_u8 3]
     @ flag_calls 0 (flags m) @ mount_calls (Suc i) rest"

definition hash_calls :: "MountPoints \<Rightarrow> string list \<Rightarrow> hasher_call list" where
  "hash_calls self ks =
     [Write (as_bytes (device (home self))), Write (as_bytes (fstype (home self))),
      Write (as_bytes (concat (flags (home self))))]
     @ mount_calls 0 (foreach self ks Pair)"

text \<open>
  The bytes that reach the hash function. The hasher trait of the standard library turns an integer
  into the bytes of its native representation (here that of a little-endian machine with 64 bits) and
  hands them on like any other bytes: the calls leave no trace but their bytes, one after the other.
\<close>

definition usize_bytes :: "usize \<Rightarrow> u8 list" where
  "usize_bytes n = map (\<lambda>j. ucast (drop_bit (8 * j) n)) [0..<8]"

fun call_bytes :: "hasher_call \<Rightarrow> u8 list" where
  "call_bytes (Write bs) = bs"
| "call_bytes (Write_u8 b) = [b]"
| "call_bytes (Write_usize n) = usize_bytes n"

definition hashed_bytes :: "MountPoints \<Rightarrow> string list \<Rightarrow> u8 list" where
  "hashed_bytes self ks = concat (map call_bytes (hash_calls self ks))"

text \<open>Formatting with the upper-case hexadecimal format: no leading zeros.\<close>

definition hex_digit :: "nat \<Rightarrow> char" where
  "hex_digit d = (if d < 10 then char_of (48 + d) else char_of (55 + d))"

fun hex_nat :: "nat \<Rightarrow> string" where
  "hex_nat n = (if n < 16 then [hex_digit n] else hex_nat (n div 16) @ [hex_digit (n mod 16)])"

declare hex_nat.simps [simp del]

definition hex_upper :: "u64 \<Rightarrow> string" where
  "hex_upper w = hex_nat (unat w)"

definition mount_hash :: "digest \<Rightarrow> MountPoints \<Rightarrow> string list \<Rightarrow> string" where
  "mount_hash dg self ks = hex_upper (dg (hash_calls self ks))"

section \<open>Lookup and iteration\<close>

lemma with_premount_mounts [simp]: "mounts (with_premount mp dir m) = (mounts mp)(dir \<mapsto> m)"
  by (simp add: with_premount_def add_premount_def)

lemma with_premount_home [simp]: "home (with_premount mp dir m) = home mp"
  by (simp add: with_premount_def add_premount_def)

lemma with_mount_simps [simp]: "home (with_mount mp m) = m" "mounts (with_mount mp m) = mounts mp"
  by (simp_all add: with_mount_def set_mount_def)

lemma foreach_Cons [simp]:
  "foreach mp (k # ks) fn =
    (case mounts mp k of None \<Rightarrow> foreach mp ks fn | Some b \<Rightarrow> fn k b # foreach mp ks fn)"
  by (simp add: foreach_def map_filter_simps split: option.splits)

lemma foreach_Nil [simp]: "foreach mp [] fn = []"
  by (simp add: foreach_def map_filter_simps)

lemma foreach_eq_map:
  "set ks \<subseteq> dom (mounts mp) \<Longrightarrow> foreach mp ks fn = map (\<lambda>k. fn k (the (mounts mp k))) ks"
  by (induction ks) auto

lemma foreach_map: "map g (foreach mp ks fn) = foreach mp ks (\<lambda>a b. g (fn a b))"
  by (induction ks) (simp_all split: option.splits)

lemma set_foreach:
  "set ks = dom (mounts mp) \<Longrightarrow> set (foreach mp ks fn) = {fn a b | a b. mounts mp a = Some b}"
  by (force simp: foreach_eq_map)

lemma length_foreach: "set ks \<subseteq> dom (mounts mp) \<Longrightarrow> length (foreach mp ks fn) = length ks"
  by (simp add: foreach_eq_map)

lemma foreach_Pair_keys: "set ks \<subseteq> dom (mounts mp) \<Longrightarrow> map fst (foreach mp ks Pair) = ks"
  by (simp add: foreach_eq_map comp_def)

lemma map_of_foreach_Pair:
  "enumerates ks (mounts mp) \<Longrightarrow> map_of (foreach mp ks Pair) = mounts mp"
proof
  fix k
  assume e: "enumerates ks (mounts mp)"
  then have "foreach mp ks Pair = map (\<lambda>k. (k, the (mounts mp k))) ks"
    by (simp add: foreach_eq_map enumerates_def)
  with e show "map_of (foreach mp ks Pair) k = mounts mp k"
    by (cases "k \<in> set ks") (auto simp: map_of_map_restrict restrict_map_def enumerates_def)
qed

text \<open>
  The configuration is a map. Adding a mount for a directory replaces the one it had and leaves
  every other directory and the home mount alone, setting the home mount leaves the others alone, and
  an iteration in any enumeration order visits every configured mount once.
\<close>

theorem mount_points_map_laws:
  assumes "enumerates ks (mounts mp)"
  shows "mounts (with_premount mp dir m) d = (if d = dir then Some m else mounts mp d)
    \<and> home (with_premount mp dir m) = home mp
    \<and> home (with_mount mp m) = m \<and> mounts (with_mount mp m) = mounts mp
    \<and> set (foreach mp ks fn) = {fn a b | a b. mounts mp a = Some b}
    \<and> length (foreach mp ks fn) = card (dom (mounts mp))"
proof -
  have "length (foreach mp ks fn) = card (dom (mounts mp))"
    using assms by (simp add: enumerates_def length_foreach distinct_card [symmetric])
  with assms show ?thesis by (simp add: enumerates_def set_foreach)
qed

section \<open>The hexadecimal format\<close>

text \<open>The value of a hexadecimal digit and of a numeral.\<close>

definition hex_value :: "string \<Rightarrow> nat" where
  "hex_value s = foldl (\<lambda>n c. 16 * n +
     (let d = of_char c in if d < (65::nat) then d - 48 else d - 55)) 0 s"

lemma hex_value_snoc:
  "hex_value (s @ [c]) =
     16 * hex_value s + (let d = of_char c in if d < (65::nat) then d - 48 else d - 55)"
  by (simp add: hex_value_def)

lemma hex_value_digit:
  "d < 16 \<Longrightarrow> (let v = of_char (hex_digit d) in if v < (65::nat) then v - 48 else v - 55) = d"
  by (simp add: hex_digit_def Let_def)

lemma hex_value_hex_nat: "hex_value (hex_nat n) = n"
proof (induction n rule: hex_nat.induct)
  case (1 n)
  show ?case
  proof (cases "n < 16")
    case True
    then show ?thesis
      using hex_value_snoc [of "[]"] by (simp add: hex_nat.simps [of n] hex_value_digit)
        (simp add: hex_value_def)
  next
    case False
    with "1.IH" show ?thesis
      by (simp add: hex_nat.simps [of n] hex_value_snoc hex_value_digit)
  qed
qed

interpretation hex_format: codec hex_upper
    "\<lambda>s. Inr (word_of_nat (hex_value s)) :: unit + u64" "\<lambda>_. True"
  by unfold_locales (simp add: hex_upper_def hex_value_hex_nat)

lemma hex_upper_inject [simp]: "hex_upper v = hex_upper w \<longleftrightarrow> v = w"
  using hex_format.enc_inject [of v w] by simp

section \<open>What the hash determines\<close>

text \<open>What may follow the flags of a mount: nothing, or the next mount.\<close>

definition mount_boundary :: "hasher_call list \<Rightarrow> bool" where
  "mount_boundary r \<longleftrightarrow> r = [] \<or> (\<exists>i r'. r = Write_usize i # Write_u8 0 # r')"

lemma mount_boundary_mount_calls [simp]: "mount_boundary (mount_calls i es)"
  by (cases "(i, es)" rule: mount_calls.cases) (auto simp: mount_boundary_def)

lemma flag_calls_inject:
  "mount_boundary r \<Longrightarrow> mount_boundary r' \<Longrightarrow>
   flag_calls i fs @ r = flag_calls i fs' @ r' \<longleftrightarrow> fs = fs' \<and> r = r'"
proof (induction fs arbitrary: i fs')
  case Nil
  then show ?case by (cases fs') (auto simp: mount_boundary_def)
next
  case (Cons f fs)
  show ?case
  proof (cases fs')
    case Nil
    with Cons.prems show ?thesis by (auto simp: mount_boundary_def)
  next
    case (Cons f' fs'')
    then show ?thesis using Cons.IH [OF Cons.prems] by auto
  qed
qed

lemma mount_calls_inject: "mount_calls i es = mount_calls i es' \<longleftrightarrow> es = es'"
proof (induction es arbitrary: i es')
  case Nil
  then show ?case by (cases es') auto
next
  case (Cons e es)
  obtain dir m where e: "e = (dir, m)" by (cases e)
  show ?case
  proof (cases es')
    case Nil
    with e show ?thesis by simp
  next
    case (Cons e' es'')
    obtain dir' m' where e': "e' = (dir', m')" by (cases e')
    show ?thesis
      using Cons.IH [of "Suc i" es''] by (auto simp: Cons e e' flag_calls_inject)
  qed
qed

lemma hash_calls_eq_iff:
  "hash_calls mp ks = hash_calls mp' ks' \<longleftrightarrow>
     device (home mp) = device (home mp') \<and> fstype (home mp) = fstype (home mp')
   \<and> concat (flags (home mp)) = concat (flags (home mp'))
   \<and> foreach mp ks Pair = foreach mp' ks' Pair"
  by (auto simp: hash_calls_def mount_calls_inject)

lemma foreach_Pair_inject:
  assumes "enumerates ks (mounts mp)" and "enumerates ks' (mounts mp')"
  shows "foreach mp ks Pair = foreach mp' ks' Pair \<longleftrightarrow> mounts mp = mounts mp' \<and> ks = ks'"
proof
  assume eq: "foreach mp ks Pair = foreach mp' ks' Pair"
  have "ks = ks'"
    using foreach_Pair_keys [of ks mp] foreach_Pair_keys [of ks' mp'] assms eq
    by (simp add: enumerates_def)
  moreover have "mounts mp = mounts mp'"
    using map_of_foreach_Pair [OF assms(1)] map_of_foreach_Pair [OF assms(2)] eq by simp
  ultimately show "mounts mp = mounts mp' \<and> ks = ks'" by simp
qed (simp add: foreach_def)

text \<open>
  What the calls to the hasher determine, exactly. Two configurations, each enumerated in some
  order, feed the hasher the same calls if and only if their home mounts agree on device, file system
  and on the concatenation of their flags, their additional mounts are the same map, and the two
  orders are the same.
\<close>

theorem hash_calls_determine:
  assumes "enumerates ks (mounts mp)" and "enumerates ks' (mounts mp')"
  shows "hash_calls mp ks = hash_calls mp' ks' \<longleftrightarrow>
     device (home mp) = device (home mp') \<and> fstype (home mp) = fstype (home mp')
   \<and> concat (flags (home mp)) = concat (flags (home mp'))
   \<and> mounts mp = mounts mp' \<and> ks = ks'"
  using foreach_Pair_inject [OF assms] by (simp add: hash_calls_eq_iff)

text \<open>
  C27: the hash of a configuration depends on the enumeration order of the process that computes it.
  If the digest does not collide on the call sequences of the configuration, two processes agree on
  the hash exactly when they enumerate the additional mounts in the same order; with at most one
  additional mount they always agree.
\<close>

theorem mount_hash_depends_on_order:
  assumes "enumerates ks (mounts mp)" and "enumerates ks' (mounts mp)"
  shows "(inj_on dg {hash_calls mp os | os. enumerates os (mounts mp)} \<longrightarrow>
      (mount_hash dg mp ks = mount_hash dg mp ks' \<longleftrightarrow> ks = ks'))
    \<and> (length ks \<le> 1 \<longrightarrow> mount_hash dg mp ks = mount_hash dg mp ks')"
proof -
  have "ks = ks'" if "length ks \<le> 1"
  proof -
    have "length ks' = length ks"
      using assms by (metis distinct_card enumerates_def)
    with that assms show ?thesis
      by (cases ks; cases ks') (auto simp: enumerates_def)
  qed
  moreover have "mount_hash dg mp ks = mount_hash dg mp ks' \<longleftrightarrow> ks = ks'"
    if inj: "inj_on dg {hash_calls mp os | os. enumerates os (mounts mp)}"
    using inj_on_eq_iff [OF inj, of "hash_calls mp ks" "hash_calls mp ks'"] assms
    by (auto simp: mount_hash_def hash_calls_determine)
  ultimately show ?thesis by auto
qed

section \<open>What the hashed bytes determine\<close>

text \<open>
  Texts that no separator can be taken for: those of the home mount and the flags have no zero byte,
  and a directory, a device and a file system type do not contain the byte that is written after them.
  Indices are below 256.
\<close>

definition plain_home :: "MountParams \<Rightarrow> bool" where
  "plain_home m \<longleftrightarrow> 0 \<notin> set (as_bytes (device m @ fstype m @ concat (flags m)))"

definition plain_flags :: "nat \<Rightarrow> string list \<Rightarrow> bool" where
  "plain_flags i fs \<longleftrightarrow> i + length fs \<le> 256 \<and> (\<forall>f \<in> set fs. 0 \<notin> set (as_bytes f))"

definition plain_mount :: "string \<times> MountParams \<Rightarrow> bool" where
  "plain_mount e \<longleftrightarrow> 1 \<notin> set (as_bytes (fst e)) \<and> 2 \<notin> set (as_bytes (device (snd e)))
     \<and> 3 \<notin> set (as_bytes (fstype (snd e))) \<and> plain_flags 0 (flags (snd e))"

definition plain_points :: "MountPoints \<Rightarrow> bool" where
  "plain_points mp \<longleftrightarrow> plain_home (home mp) \<and> card (dom (mounts mp)) \<le> 256
     \<and> (\<forall>dir m. mounts mp dir = Some m \<longrightarrow> plain_mount (dir, m))"

text \<open>A small index is one byte and seven zeros.\<close>

lemma usize_bytes_small: "i < 256 \<Longrightarrow> usize_bytes (of_nat i) = of_nat i # replicate 7 0"
proof -
  assume i: "i < 256"
  then have unat: "unat (of_nat i :: usize) = i"
    by (simp add: unat_of_nat take_bit_nat_eq_self)
  have "drop_bit (8 * j) (of_nat i :: usize) = 0" if "0 < j" for j
  proof -
    have "(2::nat) ^ 8 \<le> 2 ^ (8 * j)" using that by (intro power_increasing) auto
    with i have "i div 2 ^ (8 * j) = 0" by (intro div_less) simp
    with unat i have "unat (drop_bit (8 * j) (of_nat i :: usize)) = 0"
      unfolding unsigned_drop_bit_eq by (simp add: drop_bit_eq_div take_bit_nat_eq_self)
    then show ?thesis by (simp only: unsigned_eq_0_iff)
  qed
  then have "ucast (drop_bit (8 * j) (of_nat i :: usize)) = (if j = 0 then of_nat i else 0 :: u8)" for j
    using i by (cases "j = 0") (simp_all add: unsigned_of_nat take_bit_nat_eq_self)
  then show ?thesis
    by (simp add: usize_bytes_def upt_rec numeral_eq_Suc)
qed

text \<open>A text ends before a zero, or before a byte that a zero follows.\<close>

definition after_text :: "u8 list \<Rightarrow> bool" where
  "after_text r \<longleftrightarrow> r = [] \<or> (\<exists>k r'. k \<noteq> 0 \<and> r = k # 0 # r')"

lemma text_ends:
  "0 \<notin> set a \<Longrightarrow> 0 \<notin> set b \<Longrightarrow> after_text r \<Longrightarrow> after_text r' \<Longrightarrow>
   a @ r = b @ r' \<longleftrightarrow> a = b \<and> r = r'"
proof (induction a arbitrary: b)
  case Nil
  then show ?case by (cases b; cases "tl b") (auto simp: after_text_def)
next
  case (Cons x a)
  then show ?case
    by (cases b; cases a) (auto simp: after_text_def)
qed

lemma marked_text:
  "x \<notin> set a \<Longrightarrow> x \<notin> set b \<Longrightarrow> a @ x # r = b @ x # r' \<longleftrightarrow> a = b \<and> r = r'"
proof (induction a arbitrary: b)
  case Nil
  then show ?case by (cases b) auto
next
  case (Cons y a)
  then show ?case by (cases b) auto
qed

lemma home_ends:
  "0 \<notin> set a \<Longrightarrow> 0 \<notin> set b \<Longrightarrow> (r = [] \<or> hd r = 0) \<Longrightarrow> (r' = [] \<or> hd r' = 0) \<Longrightarrow>
   a @ r = b @ r' \<longleftrightarrow> a = b \<and> r = r'"
proof (induction a arbitrary: b)
  case Nil
  then show ?case by (cases b) auto
next
  case (Cons y a)
  then show ?case by (cases b) auto
qed

text \<open>The bytes of the flags of one mount and of the additional mounts.\<close>

definition flag_bytes :: "nat \<Rightarrow> string list \<Rightarrow> u8 list" where
  "flag_bytes i fs = concat (map call_bytes (flag_calls i fs))"

definition mount_bytes :: "nat \<Rightarrow> (string \<times> MountParams) list \<Rightarrow> u8 list" where
  "mount_bytes i es = concat (map call_bytes (mount_calls i es))"

lemma flag_bytes_simps [simp]:
  "flag_bytes i [] = []"
  "i < 256 \<Longrightarrow> flag_bytes i (f # fs) = of_nat i # replicate 7 0 @ as_bytes f @ flag_bytes (Suc i) fs"
  by (simp_all add: flag_bytes_def usize_bytes_small)

lemma mount_bytes_simps [simp]:
  "mount_bytes i [] = []"
  "i < 256 \<Longrightarrow> mount_bytes i ((dir, m) # es) =
     of_nat i # replicate 7 0 @ 0 # as_bytes dir @ 1 # as_bytes (device m) @ 2 # as_bytes (fstype m) @
     3 # flag_bytes 0 (flags m) @ mount_bytes (Suc i) es"
  by (simp_all add: mount_bytes_def flag_bytes_def usize_bytes_small)

lemma hashed_bytes_parts:
  "hashed_bytes mp ks = as_bytes (device (home mp) @ fstype (home mp) @ concat (flags (home mp)))
     @ mount_bytes 0 (foreach mp ks Pair)"
  by (simp add: hashed_bytes_def hash_calls_def mount_bytes_def)

text \<open>What may follow the flags of the mount with an index: nothing, or the next mount.\<close>

definition next_mount :: "nat \<Rightarrow> u8 list \<Rightarrow> bool" where
  "next_mount i r \<longleftrightarrow> r = [] \<or> (\<exists>r'. i < 256 \<and> r = of_nat i # replicate 7 0 @ 0 # r')"

lemma small_not_zero: "0 < i \<Longrightarrow> i < 256 \<Longrightarrow> (of_nat i :: u8) \<noteq> 0"
  by (simp add: word_of_nat_eq_0_iff nat_dvd_not_less)

lemma seven_zeros: "replicate 7 (0 :: u8) = 0 # replicate 6 0"
  by (simp add: numeral_eq_Suc)

lemma next_mount_bytes: "i + length es \<le> 256 \<Longrightarrow> next_mount i (mount_bytes i es)"
  by (cases es) (auto simp: next_mount_def)

lemma next_mount_after_text: "0 < i \<Longrightarrow> next_mount i r \<Longrightarrow> after_text r"
  using small_not_zero by (auto simp: next_mount_def after_text_def seven_zeros)

lemma after_flag:
  assumes "plain_flags i fs" and "0 < i" and "0 < n" and "next_mount n r"
  shows "after_text (flag_bytes i fs @ r)"
  using assms small_not_zero next_mount_after_text
  by (cases fs) (auto simp: plain_flags_def after_text_def seven_zeros)

lemma foreach_plain:
  assumes "enumerates ks (mounts mp)" and "plain_points mp"
  shows "length (foreach mp ks Pair) \<le> 256 \<and> (\<forall>e \<in> set (foreach mp ks Pair). plain_mount e)"
proof -
  have "length (foreach mp ks Pair) = card (dom (mounts mp))"
    using assms(1) by (simp add: enumerates_def length_foreach distinct_card [symmetric])
  moreover have "plain_mount e" if "e \<in> set (foreach mp ks Pair)" for e
    using that assms set_foreach [of ks mp Pair] by (auto simp: enumerates_def plain_points_def)
  ultimately show ?thesis using assms(2) by (simp add: plain_points_def)
qed

text \<open>The bytes of the flags and what follows them determine both.\<close>

lemma no_flag_follows:
  assumes "plain_flags i (f # fs)" and "0 < n" and "next_mount n r" and "next_mount n r'"
  shows "r \<noteq> flag_bytes i (f # fs) @ r'"
proof
  assume eq: "r = flag_bytes i (f # fs) @ r'"
  have i: "i < 256" using assms(1) by (simp add: plain_flags_def)
  then obtain q where "r = of_nat n # replicate 7 0 @ 0 # q"
    using assms(3) eq by (auto simp: next_mount_def)
  with eq i have rest: "0 # q = as_bytes f @ flag_bytes (Suc i) fs @ r'" by simp
  have "after_text (flag_bytes (Suc i) fs @ r')"
    using assms(1,2,4) by (intro after_flag [where n = n]) (auto simp: plain_flags_def)
  moreover have "0 \<notin> set (as_bytes f)" using assms(1) by (simp add: plain_flags_def)
  ultimately show False using rest by (cases "as_bytes f") (auto simp: after_text_def)
qed

lemma flag_bytes_inject:
  "plain_flags i fs \<Longrightarrow> plain_flags i gs \<Longrightarrow> 0 < n \<Longrightarrow> next_mount n r \<Longrightarrow> next_mount n r' \<Longrightarrow>
   flag_bytes i fs @ r = flag_bytes i gs @ r' \<longleftrightarrow> fs = gs \<and> r = r'"
proof (induction fs arbitrary: i gs)
  case Nil
  then show ?case using no_flag_follows [of i _ _ n r r'] by (cases gs) auto
next
  case (Cons f fs)
  show ?case
  proof (cases gs)
    case Nil
    with Cons.prems show ?thesis using no_flag_follows [of i f fs n r' r] by auto
  next
    case (Cons g gs')
    have plain: "i < 256" "plain_flags (Suc i) fs" "plain_flags (Suc i) gs'"
      "0 \<notin> set (as_bytes f)" "0 \<notin> set (as_bytes g)"
      using Cons Cons.prems(1,2) by (simp_all add: plain_flags_def)
    with Cons.prems have "after_text (flag_bytes (Suc i) fs @ r)" "after_text (flag_bytes (Suc i) gs' @ r')"
      by (auto intro!: after_flag [where n = n])
    from text_ends [OF plain(4,5) this] Cons.IH [OF plain(2,3) Cons.prems(3-5)] plain(1) show ?thesis
      by (auto simp: Cons)
  qed
qed

lemma mount_bytes_inject:
  "i + length es \<le> 256 \<Longrightarrow> i + length ds \<le> 256 \<Longrightarrow> \<forall>e \<in> set es. plain_mount e \<Longrightarrow>
   \<forall>e \<in> set ds. plain_mount e \<Longrightarrow> mount_bytes i es = mount_bytes i ds \<longleftrightarrow> es = ds"
proof (induction es arbitrary: i ds)
  case Nil
  then show ?case by (cases ds) auto
next
  case (Cons e es)
  obtain dir m where e: "e = (dir, m)" by (cases e)
  show ?case
  proof (cases ds)
    case Nil
    with Cons.prems e show ?thesis by simp
  next
    case (Cons d ds')
    obtain dir' m' where d: "d = (dir', m')" by (cases d)
    have i: "i < 256" "next_mount (Suc i) (mount_bytes (Suc i) es)" "next_mount (Suc i) (mount_bytes (Suc i) ds')"
      using Cons.prems(1,2) Cons by (auto intro: next_mount_bytes)
    have plain: "plain_mount (dir, m)" "plain_mount (dir', m')"
      using Cons.prems(3,4) Cons e d by auto
    then have "flag_bytes 0 (flags m) @ mount_bytes (Suc i) es = flag_bytes 0 (flags m') @ mount_bytes (Suc i) ds'
        \<longleftrightarrow> flags m = flags m' \<and> mount_bytes (Suc i) es = mount_bytes (Suc i) ds'"
      using i(2,3) by (intro flag_bytes_inject [where n = "Suc i"]) (auto simp: plain_mount_def)
    moreover have "mount_bytes (Suc i) es = mount_bytes (Suc i) ds' \<longleftrightarrow> es = ds'"
      using Cons.prems Cons by (intro Cons.IH) auto
    ultimately show ?thesis
      using i(1) plain by (auto simp: Cons e d plain_mount_def marked_text)
  qed
qed

text \<open>
  C24: what the hashed bytes determine, exactly. Take two configurations in which no text can be
  confused with a separator and no index needs a second byte, each enumerated in some order. The same bytes reach the hash function if
  and only if the home mounts have the same device, file system type and flags once these are written
  one after the other, the additional mounts are the same map, and the two orders are the same. So the
  separators between the parts of an additional mount do their work, and the home mount has none.
\<close>

theorem hashed_bytes_determine:
  assumes "enumerates ks (mounts mp)" and "enumerates ks' (mounts mp')"
    and "plain_points mp" and "plain_points mp'"
  shows "hashed_bytes mp ks = hashed_bytes mp' ks' \<longleftrightarrow>
     device (home mp) @ fstype (home mp) @ concat (flags (home mp))
       = device (home mp') @ fstype (home mp') @ concat (flags (home mp'))
   \<and> mounts mp = mounts mp' \<and> ks = ks'"
proof -
  let ?es = "foreach mp ks Pair" and ?es' = "foreach mp' ks' Pair"
  have plain: "0 + length ?es \<le> 256" "0 + length ?es' \<le> 256"
    "\<forall>e \<in> set ?es. plain_mount e" "\<forall>e \<in> set ?es'. plain_mount e"
    using foreach_plain [OF assms(1,3)] foreach_plain [OF assms(2,4)] by simp_all
  have "mount_bytes 0 es = [] \<or> hd (mount_bytes 0 es) = 0" for es
    by (cases es) (auto simp: mount_bytes_simps(2) [of 0, simplified])
  then have "hashed_bytes mp ks = hashed_bytes mp' ks' \<longleftrightarrow>
      device (home mp) @ fstype (home mp) @ concat (flags (home mp))
        = device (home mp') @ fstype (home mp') @ concat (flags (home mp'))
    \<and> mount_bytes 0 ?es = mount_bytes 0 ?es'"
    using assms(3,4) unfolding hashed_bytes_parts
    by (subst home_ends) (simp_all add: plain_points_def plain_home_def as_bytes_inject del: as_bytes_append)
  then show ?thesis
    using mount_bytes_inject [OF plain] foreach_Pair_inject [OF assms(1,2)] by simp
qed

section \<open>Joining flags\<close>

text \<open>The standard library's join of a slice of strings.\<close>

fun join :: "string \<Rightarrow> string list \<Rightarrow> string" where
  "join sep [] = []"
| "join sep [s] = s"
| "join sep (s # t # rest) = s @ sep @ join sep (t # rest)"

lemma count_join:
  "\<forall>s \<in> set fl. CHR '','' \<notin> set s \<Longrightarrow>
   count_list (join '','' fl) (CHR '','') = length fl - 1"
  by (induction "'',''" fl rule: join.induct) (auto simp: count_list_0_iff)

text \<open>
  The hash does not see where one flag of the home mount ends and the next begins. Two
  configurations whose home mounts differ only in how the same characters are cut into flags have the
  same hash, in every order and for every digest, while the option string handed to the mount system
  call is different for each number of flags.
\<close>

theorem home_flags_ambiguous:
  assumes "concat fl = concat fl'" and "length fl < length fl'" and "fl \<noteq> []"
    and "\<forall>s \<in> set fl \<union> set fl'. CHR '','' \<notin> set s"
  shows "mount_hash dg (with_mount mp (p\<lparr>flags := fl\<rparr>)) ks
      = mount_hash dg (with_mount mp (p\<lparr>flags := fl'\<rparr>)) ks
    \<and> join '','' fl \<noteq> join '','' fl'"
proof -
  have "hash_calls (with_mount mp (p\<lparr>flags := fl\<rparr>)) ks
      = hash_calls (with_mount mp (p\<lparr>flags := fl'\<rparr>)) ks"
    using assms(1) by (simp add: hash_calls_eq_iff foreach_def)
  moreover have "length fl - 1 \<noteq> length fl' - 1"
    using assms(2,3) by (cases fl) auto
  then have "join '','' fl \<noteq> join '','' fl'"
    using assms(4) count_join [of fl] count_join [of fl'] by (metis UnCI)
  ultimately show ?thesis by (simp add: mount_hash_def)
qed

section \<open>Witnesses\<close>

definition demo_mount :: MountParams where
  "demo_mount = MountParams_new ''/dev/sda1'' ''ext4'' [''rw'', ''noatime'']"

definition demo_points :: MountPoints where
  "demo_points = MountPoints_new demo_mount [''/a'' \<mapsto> demo_mount, ''/b'' \<mapsto> demo_mount]"

lemma demo_orders [simp]:
  "enumerates [''/a'', ''/b''] (mounts demo_points)" "enumerates [''/b'', ''/a''] (mounts demo_points)"
  by (auto simp: enumerates_def demo_points_def MountPoints_new_def split: if_splits)

theorem mount_points_map_laws_witness:
  "length (foreach demo_points [''/b'', ''/a''] Pair) = card (dom (mounts demo_points))
   \<and> mounts (with_premount demo_points ''/a'' MountParams_default) ''/b'' = mounts demo_points ''/b''"
  using mount_points_map_laws [OF demo_orders(2), of "''/a''" MountParams_default "''/b''" Pair]
  by simp

theorem hash_calls_determine_witness:
  "hash_calls demo_points [''/a'', ''/b''] \<noteq> hash_calls demo_points [''/b'', ''/a'']"
  using hash_calls_determine [OF demo_orders] by simp

text \<open>
  The device and the file system type of an additional mount are kept apart, those of the home mount
  are not.
\<close>

definition shifted_mount :: MountParams where
  "shifted_mount = MountParams_new ''/dev/sda1e'' ''xt4'' [''rw'', ''noatime'']"

lemma demo_shifted:
  "enumerates [''/a'', ''/b''] (mounts (with_premount demo_points ''/a'' shifted_mount))"
  "enumerates [''/a'', ''/b''] (mounts (with_mount demo_points shifted_mount))"
  by (auto simp: enumerates_def demo_points_def MountPoints_new_def split: if_splits)

lemma demo_plain:
  "plain_points demo_points" "plain_points (with_premount demo_points ''/a'' shifted_mount)"
  "plain_points (with_mount demo_points shifted_mount)"
proof -
  have "dom (mounts demo_points) = {''/a'', ''/b''}"
    by (auto simp: demo_points_def MountPoints_new_def)
  then have card: "card (dom (mounts demo_points)) = 2"
    "card (dom (mounts (with_premount demo_points ''/a'' shifted_mount))) = 2"
    by (simp_all add: insert_absorb)
  have home: "plain_home demo_mount" "plain_home shifted_mount"
    by (simp_all add: plain_home_def demo_mount_def shifted_mount_def MountParams_new_def)
  have plain: "plain_mount (''/a'', demo_mount)" "plain_mount (''/b'', demo_mount)"
    "plain_mount (''/a'', shifted_mount)"
    by (simp_all add: plain_mount_def plain_flags_def demo_mount_def shifted_mount_def MountParams_new_def)
  show "plain_points demo_points" "plain_points (with_premount demo_points ''/a'' shifted_mount)"
    "plain_points (with_mount demo_points shifted_mount)"
    unfolding plain_points_def
    using card home plain by (simp_all add: demo_points_def MountPoints_new_def)
qed

theorem hashed_bytes_determine_witness:
  "hashed_bytes demo_points [''/a'', ''/b''] \<noteq> hashed_bytes demo_points [''/b'', ''/a'']
   \<and> hashed_bytes demo_points [''/a'', ''/b'']
       \<noteq> hashed_bytes (with_premount demo_points ''/a'' shifted_mount) [''/a'', ''/b'']
   \<and> hashed_bytes demo_points [''/a'', ''/b'']
       = hashed_bytes (with_mount demo_points shifted_mount) [''/a'', ''/b'']"
proof -
  have "mounts (with_premount demo_points ''/a'' shifted_mount) ''/a'' \<noteq> mounts demo_points ''/a''"
    by (simp add: demo_points_def demo_mount_def shifted_mount_def MountPoints_new_def MountParams_new_def)
  then have "mounts demo_points \<noteq> mounts (with_premount demo_points ''/a'' shifted_mount)" by metis
  moreover have "device (home demo_points) @ fstype (home demo_points) @ concat (flags (home demo_points))
      = device shifted_mount @ fstype shifted_mount @ concat (flags shifted_mount)"
    by (simp add: demo_points_def demo_mount_def shifted_mount_def MountPoints_new_def MountParams_new_def)
  ultimately show ?thesis
    using hashed_bytes_determine [OF demo_orders demo_plain(1,1)]
      hashed_bytes_determine [OF demo_orders(1) demo_shifted(1) demo_plain(1,2)]
      hashed_bytes_determine [OF demo_orders(1) demo_shifted(2) demo_plain(1,3)]
    by simp
qed

text \<open>A digest that tells the two orders apart: it looks at the seventh call, the first directory.\<close>

definition demo_digest :: digest where
  "demo_digest calls = (case calls ! 5 of Write bs \<Rightarrow> (if bs = as_bytes ''/a'' then 1 else 2) | _ \<Rightarrow> 0)"

lemma enumerates_two:
  assumes "enumerates os m" and "dom m = {a, b}" and "a \<noteq> b"
  shows "os = [a, b] \<or> os = [b, a]"
proof -
  have "length os = card (dom m)"
    using assms(1) by (metis distinct_card enumerates_def)
  with assms(2,3) have "length os = 2" by simp
  then obtain x y where "os = [x, y]"
    by (auto simp: length_Suc_conv numeral_2_eq_2)
  with assms show ?thesis by (auto simp: enumerates_def)
qed

lemma demo_digest_injective:
  "inj_on demo_digest {hash_calls demo_points os | os. enumerates os (mounts demo_points)}"
proof -
  have "dom (mounts demo_points) = {''/a'', ''/b''}"
    by (auto simp: demo_points_def MountPoints_new_def)
  then have os: "os = [''/a'', ''/b''] \<or> os = [''/b'', ''/a'']"
    if "enumerates os (mounts demo_points)" for os
    using enumerates_two [OF that] by simp
  have digests: "demo_digest (hash_calls demo_points [''/a'', ''/b'']) = 1"
    "demo_digest (hash_calls demo_points [''/b'', ''/a'']) = 2"
    by (simp_all add: demo_digest_def hash_calls_def demo_points_def MountPoints_new_def)
  show ?thesis
  proof (rule inj_onI)
    fix x y
    assume "x \<in> {hash_calls demo_points os | os. enumerates os (mounts demo_points)}"
      and "y \<in> {hash_calls demo_points os | os. enumerates os (mounts demo_points)}"
      and eq: "demo_digest x = demo_digest y"
    then obtain o1 o2 where x: "x = hash_calls demo_points o1" "enumerates o1 (mounts demo_points)"
      and y: "y = hash_calls demo_points o2" "enumerates o2 (mounts demo_points)"
      by auto
    show "x = y"
      using os [OF x(2)] os [OF y(2)] eq digests by (elim disjE) (simp_all add: x(1) y(1))
  qed
qed

theorem mount_hash_depends_on_order_witness:
  "mount_hash demo_digest demo_points [''/a'', ''/b'']
   \<noteq> mount_hash demo_digest demo_points [''/b'', ''/a'']"
  using mount_hash_depends_on_order [OF demo_orders, of demo_digest] demo_digest_injective by simp

theorem home_flags_ambiguous_witness:
  "mount_hash demo_digest (with_mount demo_points (demo_mount\<lparr>flags := [''nosuid'']\<rparr>)) [''/a'', ''/b'']
     = mount_hash demo_digest (with_mount demo_points (demo_mount\<lparr>flags := [''no'', ''suid'']\<rparr>))
         [''/a'', ''/b'']
   \<and> join '','' [''nosuid''] \<noteq> join '','' [''no'', ''suid'']"
  by (rule home_flags_ambiguous) simp_all

end
