(* ===== verification/ServiceResult.thy ===== *)
theory ServiceResult
  imports Prelude
begin

text \<open>
  The results of the service (src/pam/result.rs) and its errors (src/pam/mod.rs). A result travels
  over the bus as its 32-bit discriminant.
\<close>

section \<open>ServiceError\<close>

datatype ServiceError =
    MissingPrivilegesError
  | ZbusError ext_error
  | IOError ext_error
  | PKCS1Error ext_error
  | JsonError ext_error
  | JoinError ext_error

section \<open>ServiceOperationResult\<close>

datatype ServiceOperationResult =
    Ok
  | PubKeyError
  | DataDecryptionFailed
  | CannotLoadUserMountError
  | MountError
  | SessionAlreadyOpened
  | SessionAlreadyClosed
  | CannotIdentifyUser
  | EmptyPubKey
  | EncryptionError
  | UnauthorizedMount
  | SerializationError
  | IOError
  | Unknown

text \<open>The conversion to u32 is the discriminant; the one left out is one more than the last.\<close>

fun result_into_u32 :: "ServiceOperationResult \<Rightarrow> u32" where
  "result_into_u32 Ok = 0"
| "result_into_u32 PubKeyError = 1"
| "result_into_u32 DataDecryptionFailed = 2"
| "result_into_u32 CannotLoadUserMountError = 3"
| "result_into_u32 MountError = 4"
| "result_into_u32 SessionAlreadyOpened = 5"
| "result_into_u32 SessionAlreadyClosed = 6"
| "result_into_u32 CannotIdentifyUser = 7"
| "result_into_u32 EmptyPubKey = 8"
| "result_into_u32 ServiceOperationResult.EncryptionError = 9"
| "result_into_u32 UnauthorizedMount = 10"
| "result_into_u32 SerializationError = 11"
| "result_into_u32 ServiceOperationResult.IOError = 12"
| "result_into_u32 Unknown = 13"

definition result_from_u32 :: "u32 \<Rightarrow> ServiceOperationResult" where
  "result_from_u32 value =
    (if value = 0 then Ok
     else if value = 1 then PubKeyError
     else if value = 2 then DataDecryptionFailed
     else if value = 3 then CannotLoadUserMountError
     else if value = 4 then MountError
     else if value = 5 then SessionAlreadyOpened
     else if value = 6 then SessionAlreadyClosed
     else if value = 7 then CannotIdentifyUser
     else if value = 8 then EmptyPubKey
     else if value = 9 then ServiceOperationResult.EncryptionError
     else if value = 10 then UnauthorizedMount
     else if value = 11 then SerializationError
     else if value = 12 then ServiceOperationResult.IOError
     else Unknown)"

fun result_display :: "ServiceOperationResult \<Rightarrow> string" where
  "result_display Ok = ''Ok''"
| "result_display PubKeyError = ''Public Key Error''"
| "result_display DataDecryptionFailed = ''Data Decryption Failed''"
| "result_display CannotLoadUserMountError = ''Cannot Load User Mount''"
| "result_display MountError = ''Mount Error''"
| "result_display SessionAlreadyOpened = ''Session Already Opened''"
| "result_display SessionAlreadyClosed = ''Session Already Closed''"
| "result_display CannotIdentifyUser = ''Cannot Identify User''"
| "result_display EmptyPubKey = ''Empty Public Key''"
| "result_display ServiceOperationResult.EncryptionError = ''Encryption error''"
| "result_display UnauthorizedMount = ''Unauthorized mount attempted''"
| "result_display SerializationError = ''(De)Serialization error''"
| "result_display ServiceOperationResult.IOError = ''I/O Error''"
| "result_display Unknown = ''Unknown Error''"

text \<open>The results are ordered by their discriminants, as the C representation of the source is.\<close>

lemma result_from_into [simp]: "result_from_u32 (result_into_u32 r) = r"
  by (cases r) (simp_all add: result_from_u32_def)

lemma result_into_inject [simp]: "result_into_u32 r = result_into_u32 s \<longleftrightarrow> r = s"
  by (metis result_from_into)

instantiation ServiceOperationResult :: linorder
begin

definition less_eq_ServiceOperationResult :: "ServiceOperationResult \<Rightarrow> ServiceOperationResult \<Rightarrow> bool" where
  "r \<le> s \<longleftrightarrow> result_into_u32 r \<le> result_into_u32 s"

definition less_ServiceOperationResult :: "ServiceOperationResult \<Rightarrow> ServiceOperationResult \<Rightarrow> bool" where
  "r < s \<longleftrightarrow> result_into_u32 r < result_into_u32 s"

instance
  by standard
    (auto simp: less_eq_ServiceOperationResult_def less_ServiceOperationResult_def less_le_not_le)

end

lemma Unknown_greatest: "r \<le> Unknown"
  by (cases r) (simp_all add: less_eq_ServiceOperationResult_def)

lemma result_from_u32_beyond: "13 \<le> v \<Longrightarrow> result_from_u32 v = Unknown"
  by (auto simp: result_from_u32_def word_le_nat_alt)

lemma result_into_from: "v \<le> 13 \<Longrightarrow> result_into_u32 (result_from_u32 v) = v"
proof -
  assume "v \<le> 13"
  then have le: "unat v \<le> 13" by (simp add: word_le_nat_alt)
  obtain n where v: "v = word_of_nat n" and n: "n \<le> 13"
    using le that [of "unat v"] by simp
  from n have "n \<in> {0, 1, 2, 3, 4, 5, 6, 7, 8, 9, 10, 11, 12, 13}"
    by (simp only: insert_iff empty_iff) arith
  then show ?thesis
    by (elim insertE) (simp_all add: v result_from_u32_def)
qed

interpretation result_wire: codec result_into_u32
    "\<lambda>v. Inr (result_from_u32 v) :: unit + ServiceOperationResult" "\<lambda>_. True"
  by unfold_locales simp

text \<open>
  The wire format of results. A result sent as its discriminant is read back unchanged, no two
  results share a discriminant, every value from 13 on reads as Unknown, every value up to 13 is sent
  back as it came, and no two results display alike.
\<close>

theorem result_wire_format:
  "result_from_u32 (result_into_u32 r) = r
   \<and> (result_into_u32 r = result_into_u32 s \<longleftrightarrow> r = s)
   \<and> (13 \<le> v \<longrightarrow> result_from_u32 v = Unknown)
   \<and> (v \<le> 13 \<longrightarrow> result_into_u32 (result_from_u32 v) = v)
   \<and> (result_display r = result_display s \<longleftrightarrow> r = s)"
proof -
  have "result_display r = result_display s \<longleftrightarrow> r = s"
    by (cases r; cases s) simp_all
  then show ?thesis
    by (simp add: result_from_u32_beyond result_into_from)
qed

theorem result_wire_format_witness:
  "result_from_u32 4000 = Unknown \<and> result_into_u32 (result_from_u32 10) = 10"
  using result_wire_format [of Ok Ok 4000] result_wire_format [of Ok Ok 10] by simp

end
