(* ===== verification/SystemModel.thy ===== *)
theory SystemModel
  imports Prelude
begin

text \<open>
  What the program uses of the operating system through the standard library and the mount crate:
  files, directories, modes, owners and mounts. A call either fails, with an error the environment
  chooses, or has the documented effect on the world. Symbolic links and the aliasing of path strings
  are not modelled, and a missing parent directory is one of the failures the environment may choose.
\<close>

section \<open>The world\<close>

record mount_request =
  req_fstype :: "string option"
  req_data :: "string option"
  req_source :: string
  req_target :: path

record world =
  files :: "path \<rightharpoonup> u8 list"
  dirs :: "path set"
  modes :: "path \<rightharpoonup> u32"
  uids :: "path \<rightharpoonup> u32"
  gids :: "path \<rightharpoonup> u32"
  mounted :: "mount_request multiset"

datatype sys_call =
    Sys_open path
  | Sys_read path
  | Sys_create path
  | Sys_write path
  | Sys_flush path
  | Sys_metadata path
  | Sys_set_permissions path
  | Sys_chown path
  | Sys_create_dir path
  | Sys_remove path
  | Sys_mount mount_request
  | Sys_unmount mount_request

text \<open>
  The environment of one handler: which calls fail, how many bytes of a buffer a single write takes
  (at most all of them, the rest is the caller's business), and the number of an error, if the
  operating system gave one.
\<close>

record sys =
  fails :: "sys_call \<Rightarrow> ext_error option"
  write_takes :: "path \<Rightarrow> nat \<Rightarrow> nat"
  raw_os_error :: "ext_error \<Rightarrow> int option"

definition reliable :: "sys \<Rightarrow> bool" where
  "reliable S \<longleftrightarrow> (\<forall>c. fails S c = None) \<and> (\<forall>p n. n \<le> write_takes S p n)"

definition path_exists :: "world \<Rightarrow> path \<Rightarrow> bool" where
  "path_exists w p \<longleftrightarrow> files w p \<noteq> None \<or> p \<in> dirs w"

definition is_dir :: "world \<Rightarrow> path \<Rightarrow> bool" where
  "is_dir w p \<longleftrightarrow> p \<in> dirs w"

text \<open>The octal mode 0700.\<close>

definition mode_0700 :: u32 where
  "mode_0700 = 7 * 8 * 8"

text \<open>A call that only needs the environment's permission.\<close>

definition allowed :: "sys \<Rightarrow> sys_call \<Rightarrow> ext_error + unit" where
  "allowed S c = (case fails S c of Some e \<Rightarrow> Inl e | None \<Rightarrow> Inr ())"

lemma allowed_reliable [simp]: "reliable S \<Longrightarrow> allowed S c = Inr ()"
  by (simp add: allowed_def reliable_def)

section \<open>Files and directories\<close>

definition create_dir :: "sys \<Rightarrow> world \<Rightarrow> path \<Rightarrow> (ext_error + unit) \<times> world" where
  "create_dir S w p =
    (if path_exists w p then (Inl ''File exists'', w)
     else case allowed S (Sys_create_dir p) of
       Inl e \<Rightarrow> (Inl e, w)
     | Inr u \<Rightarrow> (Inr (), w\<lparr>dirs := insert p (dirs w)\<rparr>))"

definition set_mode :: "sys \<Rightarrow> world \<Rightarrow> path \<Rightarrow> u32 \<Rightarrow> (ext_error + unit) \<times> world" where
  "set_mode S w p m =
    (case allowed S (Sys_set_permissions p) of
       Inl e \<Rightarrow> (Inl e, w)
     | Inr u \<Rightarrow> (Inr (), w\<lparr>modes := (modes w)(p \<mapsto> m)\<rparr>))"

text \<open>An owner or group that is not given stays as it is.\<close>

definition chown :: "sys \<Rightarrow> world \<Rightarrow> path \<Rightarrow> u32 option \<Rightarrow> u32 option \<Rightarrow> (ext_error + unit) \<times> world" where
  "chown S w p uid gid =
    (case allowed S (Sys_chown p) of
       Inl e \<Rightarrow> (Inl e, w)
     | Inr u \<Rightarrow>
         (Inr (), w\<lparr>uids := (case uid of Some x \<Rightarrow> (uids w)(p \<mapsto> x) | None \<Rightarrow> uids w),
                  gids := (case gid of Some x \<Rightarrow> (gids w)(p \<mapsto> x) | None \<Rightarrow> gids w)\<rparr>))"

text \<open>\<open>valid\<close> is the test of the text encoding that reading into a string performs.\<close>

definition read_to_string :: "(u8 list \<Rightarrow> bool) \<Rightarrow> sys \<Rightarrow> world \<Rightarrow> path \<Rightarrow> ext_error + string" where
  "read_to_string valid S w p =
    and_then (allowed S (Sys_open p)) (\<lambda>_.
    and_then (allowed S (Sys_read p)) (\<lambda>_.
    case files w p of
      None \<Rightarrow> Inl ''No such file or is a directory''
    | Some bs \<Rightarrow> if valid bs then Inr (of_bytes bs) else Inl ''stream did not contain valid UTF-8''))"

text \<open>Creating a file truncates the one that is there.\<close>

definition file_create :: "sys \<Rightarrow> world \<Rightarrow> path \<Rightarrow> (ext_error + unit) \<times> world" where
  "file_create S w p =
    (if is_dir w p then (Inl ''Is a directory'', w)
     else case allowed S (Sys_create p) of
       Inl e \<Rightarrow> (Inl e, w)
     | Inr u \<Rightarrow> (Inr (), w\<lparr>files := (files w)(p \<mapsto> [])\<rparr>))"

text \<open>
  One \<^verbatim>\<open>write\<close> call on a freshly created file takes a prefix of the buffer and returns its length;
  \<^verbatim>\<open>write_all\<close> repeats it until everything is written or a call fails.
\<close>

definition file_write :: "sys \<Rightarrow> world \<Rightarrow> path \<Rightarrow> u8 list \<Rightarrow> (ext_error + nat) \<times> world" where
  "file_write S w p buf =
    (case allowed S (Sys_write p) of
       Inl e \<Rightarrow> (Inl e, w)
     | Inr u \<Rightarrow>
         (let n = min (length buf) (write_takes S p (length buf)) in
          (Inr n, w\<lparr>files := (files w)(p \<mapsto> take n buf)\<rparr>)))"

definition file_write_all :: "sys \<Rightarrow> world \<Rightarrow> path \<Rightarrow> u8 list \<Rightarrow> (ext_error + unit) \<times> world" where
  "file_write_all S w p buf =
    (case allowed S (Sys_write p) of
       Inl e \<Rightarrow>
         (Inl e, w\<lparr>files := (files w)(p \<mapsto> take (write_takes S p (length buf)) buf)\<rparr>)
     | Inr u \<Rightarrow> (Inr (), w\<lparr>files := (files w)(p \<mapsto> buf)\<rparr>))"

text \<open>Writing a whole file: create or truncate it, then write everything.\<close>

definition fs_write :: "sys \<Rightarrow> world \<Rightarrow> path \<Rightarrow> u8 list \<Rightarrow> (ext_error + unit) \<times> world" where
  "fs_write S w p buf =
    (case file_create S w p of
       (Inl e, w1) \<Rightarrow> (Inl e, w1)
     | (Inr u, w1) \<Rightarrow> file_write_all S w1 p buf)"

text \<open>
  The path without its last component, for paths without repeated separators and dot components;
  a path of one component has the empty path as its parent, the root and the empty path have none.
\<close>

definition path_parent :: "path \<Rightarrow> path option" where
  "path_parent p =
    (let q = rev (dropWhile (\<lambda>c. c = CHR ''/'') (rev p));
         r = rev (dropWhile (\<lambda>c. c \<noteq> CHR ''/'') (rev q));
         t = rev (dropWhile (\<lambda>c. c = CHR ''/'') (rev r)) in
     if q = [] then None
     else if r = [] then Some []
     else if t = [] then Some ''/''
     else Some t)"

text \<open>Creating a directory with all its missing ancestors; a path has fewer of them than bytes.\<close>

fun ancestors :: "nat \<Rightarrow> path \<Rightarrow> path list" where
  "ancestors 0 p = []"
| "ancestors (Suc n) p =
    (case path_parent p of None \<Rightarrow> [] | Some q \<Rightarrow> if q = [] then [] else q # ancestors n q)"

definition create_dir_all :: "sys \<Rightarrow> world \<Rightarrow> path \<Rightarrow> (ext_error + unit) \<times> world" where
  "create_dir_all S w p =
    (if p = [] then (Inr (), w)
     else case allowed S (Sys_create_dir p) of
       Inl e \<Rightarrow> (Inl e, w)
     | Inr u \<Rightarrow>
         (if \<exists>q \<in> set (p # ancestors (length p) p). files w q \<noteq> None
          then (Inl ''Not a directory'', w)
          else (Inr (), w\<lparr>dirs := set (p # ancestors (length p) p) \<union> dirs w\<rparr>)))"

definition remove_file :: "sys \<Rightarrow> world \<Rightarrow> path \<Rightarrow> (ext_error + unit) \<times> world" where
  "remove_file S w p =
    (case allowed S (Sys_remove p) of
       Inl e \<Rightarrow> (Inl e, w)
     | Inr u \<Rightarrow>
         (if files w p = None then (Inl ''No such file or is a directory'', w)
          else (Inr (), w\<lparr>files := (files w)(p := None)\<rparr>)))"

section \<open>Mounts\<close>

text \<open>
  A successful mount is recorded; its handle is the request. Dropping a handle that was turned into
  an unmount-on-drop guard detaches the mount again, and ignores a failure to do so. Detaching takes
  away the request itself; that the kernel takes the topmost of several mounts at one target is not
  modelled.
\<close>

definition do_mount :: "sys \<Rightarrow> world \<Rightarrow> mount_request \<Rightarrow> (ext_error + mount_request) \<times> world" where
  "do_mount S w r =
    (case allowed S (Sys_mount r) of
       Inl e \<Rightarrow> (Inl e, w)
     | Inr u \<Rightarrow> (Inr r, w\<lparr>mounted := add_mset r (mounted w)\<rparr>))"

fun drop_mounts :: "sys \<Rightarrow> world \<Rightarrow> mount_request list \<Rightarrow> world" where
  "drop_mounts S w [] = w"
| "drop_mounts S w (h # hs) =
    (case allowed S (Sys_unmount h) of
       Inl e \<Rightarrow> drop_mounts S w hs
     | Inr u \<Rightarrow> drop_mounts S (w\<lparr>mounted := mounted w - {#h#}\<rparr>) hs)"

definition detaches :: "sys \<Rightarrow> bool" where
  "detaches S \<longleftrightarrow> (\<forall>h. fails S (Sys_unmount h) = None)"

lemma reliable_detaches: "reliable S \<Longrightarrow> detaches S"
  by (simp add: reliable_def detaches_def)

lemma drop_mounts_detaches:
  "detaches S \<Longrightarrow> drop_mounts S w hs = w\<lparr>mounted := mounted w - mset hs\<rparr>"
proof (induction hs arbitrary: w)
  case (Cons h hs)
  then have "drop_mounts S w (h # hs) = w\<lparr>mounted := mounted w - {#h#} - mset hs\<rparr>"
    by (simp add: allowed_def detaches_def)
  then show ?case by (simp add: diff_diff_add_mset)
qed simp

lemma files_drop_mounts [simp]: "files (drop_mounts S w hs) = files w"
  by (induction hs arbitrary: w) (simp_all split: sum.splits)

lemma mounted_frames [simp]:
  "mounted (snd (create_dir S w p)) = mounted w"
  "mounted (snd (set_mode S w p m)) = mounted w"
  "mounted (snd (chown S w p uid gid)) = mounted w"
  "mounted (snd (file_create S w p)) = mounted w"
  "mounted (snd (file_write S w p buf)) = mounted w"
  "mounted (snd (file_write_all S w p buf)) = mounted w"
  by (simp_all add: create_dir_def set_mode_def chown_def file_create_def file_write_def
      file_write_all_def Let_def split: sum.splits)

lemma files_frames [simp]:
  "files (snd (create_dir S w p)) = files w"
  "files (snd (set_mode S w p m)) = files w"
  "files (snd (chown S w p uid gid)) = files w"
  "files (snd (do_mount S w r)) = files w"
  by (simp_all add: create_dir_def set_mode_def chown_def do_mount_def
      split: sum.splits)

lemma create_dir_all_frame:
  "create_dir_all S w p = (r, w') \<Longrightarrow> mounted w' = mounted w \<and> files w' = files w \<and> dirs w \<subseteq> dirs w'"
  by (auto simp: create_dir_all_def split: if_splits sum.splits)

lemma fs_write_frame:
  "fs_write S w p buf = (r, w') \<Longrightarrow>
   mounted w' = mounted w \<and> dirs w' = dirs w \<and> (\<forall>q. q \<noteq> p \<longrightarrow> files w' q = files w q)"
  by (auto simp: fs_write_def file_create_def file_write_all_def split: if_splits sum.splits prod.splits)

lemma create_dir_frame: "create_dir S w p = (r, w') \<Longrightarrow> mounted w' = mounted w \<and> files w' = files w"
  by (metis files_frames(1) mounted_frames(1) snd_conv)

lemma chown_frame:
  "chown S w p uid gid = (r, w') \<Longrightarrow> mounted w' = mounted w \<and> files w' = files w"
  by (metis files_frames(3) mounted_frames(3) snd_conv)

lemma mounted_do_mount:
  "do_mount S w r = (Inr h, w') \<Longrightarrow> h = r \<and> mounted w' = add_mset r (mounted w)"
  "do_mount S w r = (Inl e, w') \<Longrightarrow> w' = w"
  by (auto simp: do_mount_def split: sum.splits)

text \<open>An operation that works on one file leaves the directories and all other files alone.\<close>

definition touches :: "path \<Rightarrow> world \<Rightarrow> world \<Rightarrow> bool" where
  "touches p w w' \<longleftrightarrow> dirs w' = dirs w \<and> (\<forall>q. q \<noteq> p \<longrightarrow> files w' q = files w q)"

lemma touches_refl [simp]: "touches p w w"
  by (simp add: touches_def)

lemma touches_trans: "touches p w1 w2 \<Longrightarrow> touches p w2 w3 \<Longrightarrow> touches p w1 w3"
  by (simp add: touches_def)

lemma touches_calls [intro, simp]:
  "touches p w (snd (file_create S w p))"
  "touches p w (snd (file_write S w p buf))"
  "touches p w (snd (file_write_all S w p buf))"
  "touches p w (snd (set_mode S w p m))"
  by (simp_all add: touches_def file_create_def file_write_def file_write_all_def set_mode_def Let_def
      split: sum.split)

lemma touches_steps:
  "file_create S w p = (r, w') \<Longrightarrow> touches p w w'"
  "file_write S w p buf = (n, w') \<Longrightarrow> touches p w w'"
  "file_write_all S w p buf = (r, w') \<Longrightarrow> touches p w w'"
  "set_mode S w p m = (r, w') \<Longrightarrow> touches p w w'"
  by (metis touches_calls snd_conv)+

end
