(* ===== verification/Disk.thy ===== *)
theory Disk
  imports Utf8 SystemModel ServiceResult
begin

text \<open>
  The two file helpers of the service (src/pam/disk.rs): a directory that is created with mode 0700,
  and a file that is read, or created from a default when it does not exist.
\<close>

definition create_directory :: "sys \<Rightarrow> world \<Rightarrow> path \<Rightarrow> (ServiceError + unit) \<times> world" where
  "create_directory S w dirpath =
    (if \<not> path_exists w dirpath then
       (case create_dir S w dirpath of
          (Inr u, w1) \<Rightarrow>
            (case allowed S (Sys_metadata dirpath) of
               Inl e \<Rightarrow> (Inl (ServiceError.IOError e), w1)
             | Inr permissions \<Rightarrow>
                 (case set_mode S w1 dirpath mode_0700 of
                    (Inl e, w2) \<Rightarrow> (Inl (ServiceError.IOError e), w2)
                  | (Inr u, w2) \<Rightarrow> (Inr (), w2)))
        | (Inl err, w1) \<Rightarrow> (Inl (ServiceError.IOError err), w1))
     else (Inr (), w))"

definition read_file_or_create_default ::
  "sys \<Rightarrow> world \<Rightarrow> path \<Rightarrow> ServiceError + string \<Rightarrow> (ServiceError + string) \<times> world" where
  "read_file_or_create_default S w filepath default_contents =
    (if path_exists w filepath then
       (map_err ServiceError.IOError (read_to_string utf8_valid S w filepath), w)
     else
       (case default_contents of
          Inl e \<Rightarrow> (Inl e, w)
        | Inr contents \<Rightarrow>
            (case file_create S w filepath of
               (Inl err, w1) \<Rightarrow> (Inl (ServiceError.IOError err), w1)
             | (Inr u, w1) \<Rightarrow>
                 (case allowed S (Sys_metadata filepath) of
                    Inl e \<Rightarrow> (Inl (ServiceError.IOError e), w1)
                  | Inr metadata \<Rightarrow>
                      (case set_mode S w1 filepath mode_0700 of
                         (Inl e, w2) \<Rightarrow> (Inl (ServiceError.IOError e), w2)
                       | (Inr u, w2) \<Rightarrow>
                           (case file_write_all S w2 filepath (as_bytes contents) of
                              (Inl err, w3) \<Rightarrow> (Inl (ServiceError.IOError err), w3)
                            | (Inr u, w3) \<Rightarrow> (Inr contents, w3)))))))"

section \<open>Facts\<close>

lemma file_create_Inr:
  "file_create S w p = (Inr u, w') \<Longrightarrow> \<not> is_dir w p \<and> w' = w\<lparr>files := (files w)(p \<mapsto> [])\<rparr>"
  by (auto simp: file_create_def split: sum.splits if_splits)

lemma set_mode_Inr:
  "set_mode S w p m = (Inr u, w') \<Longrightarrow> w' = w\<lparr>modes := (modes w)(p \<mapsto> m)\<rparr>"
  by (auto simp: set_mode_def split: sum.splits)

lemma file_write_all_Inr:
  "file_write_all S w p buf = (Inr u, w') \<Longrightarrow> w' = w\<lparr>files := (files w)(p \<mapsto> buf)\<rparr>"
  by (auto simp: file_write_all_def split: sum.splits)

lemma read_to_string_Inr:
  "read_to_string valid S w p = Inr s \<Longrightarrow> files w p = Some (as_bytes s) \<and> valid (as_bytes s)"
  by (auto simp: read_to_string_def and_then_eq_Inr split: option.splits if_splits)

lemma read_to_string_reliable:
  "reliable S \<Longrightarrow> files w p = Some (as_bytes s) \<Longrightarrow> valid (as_bytes s) \<Longrightarrow>
   read_to_string valid S w p = Inr s"
  by (simp add: read_to_string_def)

text \<open>What a successful call leaves in the file.\<close>

lemma read_or_create_Inr:
  assumes "read_file_or_create_default S w p d = (Inr s, w')"
  shows "files w' = (files w)(p \<mapsto> as_bytes s)
    \<and> (if path_exists w p then w' = w \<and> is_string s else d = Inr s)"
proof (cases "path_exists w p")
  case True
  with assms have w': "w' = w" and r: "read_to_string utf8_valid S w p = Inr s"
    by (auto simp: read_file_or_create_default_def)
  with read_to_string_Inr [OF r] True show ?thesis by (auto simp: is_string_def)
next
  case False
  with assms obtain w1 w2 where steps: "d = Inr s" "file_create S w p = (Inr (), w1)"
    "set_mode S w1 p mode_0700 = (Inr (), w2)"
    "file_write_all S w2 p (as_bytes s) = (Inr (), w')"
    by (auto simp: read_file_or_create_default_def split: sum.splits prod.splits)
  then show ?thesis
    using False by (auto dest!: file_create_Inr set_mode_Inr file_write_all_Inr)
qed

lemma read_or_create_mounted [simp]:
  "mounted (snd (read_file_or_create_default S w p d)) = mounted w"
  by (simp add: read_file_or_create_default_def file_create_def set_mode_def file_write_all_def
      split: sum.splits)

lemma read_or_create_reliable:
  "reliable S \<Longrightarrow> \<not> path_exists w p \<Longrightarrow>
   read_file_or_create_default S w p (Inr s) =
     (Inr s, w\<lparr>files := (files w)(p \<mapsto> as_bytes s), modes := (modes w)(p \<mapsto> mode_0700)\<rparr>)"
  by (simp add: read_file_or_create_default_def file_create_def set_mode_def file_write_all_def
      is_dir_def path_exists_def)

text \<open>
  A default is made once. Whenever the helper returns contents, under any failures of the
  environment, the file then holds exactly these contents and every other file is as before; and a
  later call that the environment does not disturb returns the same contents, whatever default it is
  given, and changes nothing.
\<close>

theorem read_or_create_persists:
  assumes "read_file_or_create_default S w p d = (Inr s, w')" and "\<forall>x. d = Inr x \<longrightarrow> is_string x"
    and "reliable S'"
  shows "files w' p = Some (as_bytes s) \<and> (\<forall>q. q \<noteq> p \<longrightarrow> files w' q = files w q)
    \<and> read_file_or_create_default S' w' p d' = (Inr s, w')"
proof -
  note contents = read_or_create_Inr [OF assms(1)]
  with assms(2) have "is_string s" by (auto split: if_splits)
  with contents assms(3) have "read_to_string utf8_valid S' w' p = Inr s"
    by (simp add: read_to_string_reliable is_string_def)
  with contents show ?thesis by (simp add: read_file_or_create_default_def path_exists_def)
qed

text \<open>
  The directory of the service. Whenever create_directory succeeds the directory exists, one it
  made has mode 0700, one that was there is left as it was; and without failures it always succeeds.
\<close>

theorem create_directory_spec:
  "(create_directory S w p = (Inr (), w') \<longrightarrow>
      path_exists w' p
    \<and> (if path_exists w p then w' = w
       else p \<in> dirs w' \<and> modes w' p = Some mode_0700 \<and> files w' = files w))
   \<and> (reliable S \<longrightarrow> (\<exists>w'. create_directory S w p = (Inr (), w')))"
  by (auto simp: create_directory_def create_dir_def set_mode_def path_exists_def
      split: sum.splits if_splits)

definition demo_sys :: sys where
  "demo_sys = \<lparr>fails = (\<lambda>_. None), write_takes = (\<lambda>p n. n), raw_os_error = (\<lambda>_. None)\<rparr>"

lemma demo_sys_reliable [simp]: "reliable demo_sys"
  by (simp add: reliable_def demo_sys_def)

definition demo_world :: world where
  "demo_world = \<lparr>files = Map.empty, dirs = {''/etc/polyauth/''}, modes = Map.empty,
                 uids = Map.empty, gids = Map.empty, mounted = {#}\<rparr>"

theorem read_or_create_persists_witness:
  "\<exists>w'. read_file_or_create_default demo_sys demo_world ''/k'' (Inr ''pem'') = (Inr ''pem'', w')
     \<and> read_file_or_create_default demo_sys w' ''/k'' (Inr ''other'') = (Inr ''pem'', w')"
proof -
  have new: "\<not> path_exists demo_world ''/k''"
    by (simp add: path_exists_def demo_world_def)
  have "is_string ''pem''" by (simp add: is_string_def utf8_valid_ascii)
  then show ?thesis
    using read_or_create_persists [OF read_or_create_reliable [OF demo_sys_reliable new, of "''pem''"]
        _ demo_sys_reliable, of "Inr ''other''"]
      read_or_create_reliable [OF demo_sys_reliable new, of "''pem''"]
    by auto
qed

theorem create_directory_spec_witness:
  "\<exists>w'. create_directory demo_sys demo_world ''/usr/lib/polyauth/'' = (Inr (), w')
     \<and> modes w' ''/usr/lib/polyauth/'' = Some mode_0700"
proof -
  obtain w' where w': "create_directory demo_sys demo_world ''/usr/lib/polyauth/'' = (Inr (), w')"
    using create_directory_spec [of demo_sys demo_world "''/usr/lib/polyauth/''" demo_world] by auto
  have "\<not> path_exists demo_world ''/usr/lib/polyauth/''"
    by (simp add: path_exists_def demo_world_def)
  with create_directory_spec [of demo_sys demo_world "''/usr/lib/polyauth/''" w'] w'
  show ?thesis by auto
qed

end
