(* ===== verification/MountAuth.thy ===== *)
theory MountAuth
  imports Disk
begin

text \<open>
  Which mounts root has authorized (src/pam/mount.rs, MountAuth, MountAuthOperations and
  MountAuthDBus): a map from user names to the hashes authorized for them, kept in a JSON file that
  is read and rewritten as a whole.
\<close>

section \<open>MountAuth\<close>

record MountAuth =
  authorizations :: "string \<rightharpoonup> string list"

definition MountAuth_default :: MountAuth where
  "MountAuth_default = \<lparr>authorizations = Map.empty\<rparr>"

text \<open>The JSON crate, for this type.\<close>

record auth_json =
  auth_to_string_pretty :: "MountAuth \<Rightarrow> ext_error + string"
  auth_from_str :: "string \<Rightarrow> ext_error + MountAuth"

definition MountAuth_new :: "auth_json \<Rightarrow> string \<Rightarrow> ServiceError + MountAuth" where
  "MountAuth_new J json_str = map_err JsonError (auth_from_str J json_str)"

definition MountAuth_load_from_file ::
  "auth_json \<Rightarrow> sys \<Rightarrow> world \<Rightarrow> path \<Rightarrow> ServiceError + MountAuth" where
  "MountAuth_load_from_file J S w file_path =
    and_then (map_err ServiceError.IOError (read_to_string utf8_valid S w file_path))
      (\<lambda>json_str. MountAuth_new J json_str)"

definition add_authorization :: "MountAuth \<Rightarrow> string \<Rightarrow> string \<Rightarrow> MountAuth" where
  "add_authorization self username hash =
    (let entry = (case authorizations self username of Some v \<Rightarrow> v | None \<Rightarrow> []) in
     self\<lparr>authorizations := (authorizations self)(username \<mapsto> entry @ [hash])\<rparr>)"

definition authorized :: "MountAuth \<Rightarrow> string \<Rightarrow> string \<Rightarrow> bool" where
  "authorized self username hash =
    (case authorizations self username of
       Some values \<Rightarrow> hash \<in> set values
     | None \<Rightarrow> False)"

section \<open>MountAuthOperations\<close>

record MountAuthOperations =
  file_path :: path

definition read_auth_file ::
  "auth_json \<Rightarrow> sys \<Rightarrow> world \<Rightarrow> MountAuthOperations \<Rightarrow> (ServiceError + MountAuth) \<times> world" where
  "read_auth_file J S w self =
    (case read_file_or_create_default S w (file_path self)
        (map_err JsonError (auth_to_string_pretty J MountAuth_default)) of
       (Inr auth_str, w') \<Rightarrow> (MountAuth_new J auth_str, w')
     | (Inl err, w') \<Rightarrow> (Inl err, w'))"

text \<open>
  The file is truncated before the text is made, and the text is handed to a single write call; the
  unwrapped serialization error is a panic.
\<close>

definition write_auth_file ::
  "auth_json \<Rightarrow> sys \<Rightarrow> world \<Rightarrow> MountAuthOperations \<Rightarrow> MountAuth \<Rightarrow> (ServiceError + unit) run \<times> world"
where
  "write_auth_file J S w self auths =
    (case file_create S w (file_path self) of
       (Inl err, w1) \<Rightarrow> (Ret (Inl (ServiceError.IOError err)), w1)
     | (Inr u, w1) \<Rightarrow>
         (case auth_to_string_pretty J auths of
            Inl e \<Rightarrow> (Panic, w1)
          | Inr text \<Rightarrow>
              (case file_write S w1 (file_path self) (as_bytes (text @ [CHR 0x0A])) of
                 (Inl err, w2) \<Rightarrow> (Ret (Inl (ServiceError.IOError err)), w2)
               | (Inr n, w2) \<Rightarrow>
                   (case allowed S (Sys_flush (file_path self)) of
                      Inl err \<Rightarrow> (Ret (Inl (ServiceError.IOError err)), w2)
                    | Inr u \<Rightarrow> (Ret (Inr ()), w2)))))"

section \<open>MountAuthDBus\<close>

text \<open>
  Each method holds the lock on the operations while it runs (authorize for writing, check for
  reading), so a method is one step on the world.
\<close>

definition authorize ::
  "auth_json \<Rightarrow> sys \<Rightarrow> world \<Rightarrow> MountAuthOperations \<Rightarrow> string \<Rightarrow> string \<Rightarrow> u32 run \<times> world" where
  "authorize J S w lck username hash =
    (case read_auth_file J S w lck of
       (Inl err, w1) \<Rightarrow> (Ret (result_into_u32 ServiceOperationResult.IOError), w1)
     | (Inr auths, w1) \<Rightarrow>
         (case write_auth_file J S w1 lck (add_authorization auths username hash) of
            (Panic, w2) \<Rightarrow> (Panic, w2)
          | (Ret (Inl err), w2) \<Rightarrow> (Ret (result_into_u32 ServiceOperationResult.IOError), w2)
          | (Ret (Inr u), w2) \<Rightarrow> (Ret (result_into_u32 Ok), w2)))"

definition check ::
  "auth_json \<Rightarrow> sys \<Rightarrow> world \<Rightarrow> MountAuthOperations \<Rightarrow> string \<Rightarrow> string \<Rightarrow> bool \<times> world" where
  "check J S w lck username hash =
    (case read_auth_file J S w lck of
       (Inr auths, w1) \<Rightarrow> (authorized auths username hash, w1)
     | (Inl err, w1) \<Rightarrow> (False, w1))"

section \<open>The map of authorizations\<close>

lemma authorized_default [simp]: "\<not> authorized MountAuth_default u h"
  by (simp add: authorized_def MountAuth_default_def)

lemma authorized_add [simp]:
  "authorized (add_authorization a u h) u' h' \<longleftrightarrow> u' = u \<and> h' = h \<or> authorized a u' h'"
  by (auto simp: authorized_def add_authorization_def Let_def split: option.splits)

section \<open>What the file holds\<close>

text \<open>
  Hypothesis on the JSON crate, for one value: what it prints for the value is text it parses back to
  the same value, also with a line break after it.
\<close>

definition auth_json_correct :: "auth_json \<Rightarrow> MountAuth \<Rightarrow> bool" where
  "auth_json_correct J a \<longleftrightarrow>
     (case auth_to_string_pretty J a of
        Inl e \<Rightarrow> False
      | Inr json \<Rightarrow> is_string json \<and> auth_from_str J json = Inr a
          \<and> auth_from_str J (json @ [CHR 0x0A]) = Inr a)"

text \<open>
  What a call that nothing disturbs reads: the value the text of the file parses to, or the empty
  table when there is no file.
\<close>

definition auth_file_holds ::
  "auth_json \<Rightarrow> world \<Rightarrow> MountAuthOperations \<Rightarrow> MountAuth \<Rightarrow> bool" where
  "auth_file_holds J w self a \<longleftrightarrow>
     \<not> is_dir w (file_path self)
   \<and> (case files w (file_path self) of
        None \<Rightarrow> a = MountAuth_default
      | Some bs \<Rightarrow> utf8_valid bs \<and> auth_from_str J (of_bytes bs) = Inr a)"

lemma is_string_newline: "is_string s \<Longrightarrow> is_string (s @ [CHR 0x0A])"
  by (rule is_string_append) (simp_all add: is_string_def utf8_valid_ascii)

lemma auth_file_holds_string:
  "files w (file_path self) = Some (as_bytes s) \<Longrightarrow> is_string s \<Longrightarrow> auth_from_str J s = Inr a \<Longrightarrow>
   \<not> is_dir w (file_path self) \<Longrightarrow> auth_file_holds J w self a"
  by (simp add: auth_file_holds_def is_string_def)

lemma auth_file_holds_unique:
  "auth_file_holds J w self a \<Longrightarrow> auth_file_holds J w self b \<Longrightarrow> a = b"
  by (auto simp: auth_file_holds_def split: option.splits)

text \<open>Reading returns what the file holds and keeps it.\<close>

lemma read_auth_file_reliable:
  assumes "auth_json_correct J MountAuth_default" and "reliable S" and "auth_file_holds J w self a"
  shows "\<exists>w'. read_auth_file J S w self = (Inr a, w') \<and> auth_file_holds J w' self a"
proof (cases "files w (file_path self)")
  case (Some bs)
  with assms(2,3) have "read_to_string utf8_valid S w (file_path self) = Inr (of_bytes bs)"
    by (simp add: read_to_string_reliable auth_file_holds_def)
  with Some assms(3) show ?thesis
    by (auto simp: read_auth_file_def read_file_or_create_default_def MountAuth_new_def
        path_exists_def auth_file_holds_def)
next
  case None
  with assms(3) have new: "\<not> path_exists w (file_path self)" "a = MountAuth_default"
    by (auto simp: auth_file_holds_def path_exists_def is_dir_def)
  obtain json where json: "auth_to_string_pretty J a = Inr json" "is_string json"
    "auth_from_str J json = Inr a"
    using assms(1) new(2) by (auto simp: auth_json_correct_def split: sum.splits)
  have "read_auth_file J S w self = (Inr a, w\<lparr>files := (files w)(file_path self \<mapsto> as_bytes json),
      modes := (modes w)(file_path self \<mapsto> mode_0700)\<rparr>)"
    using json new assms(2)
    by (simp add: read_auth_file_def read_or_create_reliable MountAuth_new_def)
  moreover have "auth_file_holds J (w\<lparr>files := (files w)(file_path self \<mapsto> as_bytes json),
      modes := (modes w)(file_path self \<mapsto> mode_0700)\<rparr>) self a"
    using json(2,3) assms(3)
    by (auto intro!: auth_file_holds_string simp: is_dir_def auth_file_holds_def is_string_def)
  ultimately show ?thesis by blast
qed

lemma file_create_reliable:
  "reliable S \<Longrightarrow> \<not> is_dir w p \<Longrightarrow> file_create S w p = (Inr (), w\<lparr>files := (files w)(p \<mapsto> [])\<rparr>)"
  by (simp add: file_create_def)

lemma file_write_reliable:
  "reliable S \<Longrightarrow>
   file_write S w p buf = (Inr (length buf), w\<lparr>files := (files w)(p \<mapsto> buf)\<rparr>)"
  by (simp add: file_write_def Let_def reliable_def min_def)

lemma write_auth_file_reliable:
  assumes "auth_json_correct J a" and "reliable S" and "\<not> is_dir w (file_path self)"
  shows "\<exists>w'. write_auth_file J S w self a = (Ret (Inr ()), w') \<and> auth_file_holds J w' self a"
proof -
  obtain json where json: "auth_to_string_pretty J a = Inr json" "is_string json"
    "auth_from_str J (json @ [CHR 0x0A]) = Inr a"
    using assms(1) by (auto simp: auth_json_correct_def split: sum.splits)
  let ?bs = "as_bytes (json @ [CHR 0x0A])"
  have "write_auth_file J S w self a =
      (Ret (Inr ()), w\<lparr>files := (files w)(file_path self \<mapsto> ?bs)\<rparr>)"
    using json(1) assms(2,3)
    by (simp add: write_auth_file_def file_create_reliable file_write_reliable)
  moreover have "auth_file_holds J (w\<lparr>files := (files w)(file_path self \<mapsto> ?bs)\<rparr>) self a"
    using json(2,3) assms(3)
    by (auto simp del: as_bytes_append simp: is_dir_def
        intro!: auth_file_holds_string [of _ _ "json @ [CHR 0x0A]"] is_string_newline)
  ultimately show ?thesis by blast
qed

lemma authorize_reliable:
  assumes "auth_json_correct J MountAuth_default" and "auth_json_correct J (add_authorization a u h)"
    and "reliable S" and "auth_file_holds J w self a"
  shows "\<exists>w'. authorize J S w self u h = (Ret (result_into_u32 Ok), w')
    \<and> auth_file_holds J w' self (add_authorization a u h)"
proof -
  obtain w1 where w1: "read_auth_file J S w self = (Inr a, w1)" "auth_file_holds J w1 self a"
    using read_auth_file_reliable [OF assms(1,3,4)] by blast
  then have "\<not> is_dir w1 (file_path self)" by (simp add: auth_file_holds_def)
  then obtain w2 where "write_auth_file J S w1 self (add_authorization a u h) = (Ret (Inr ()), w2)"
    "auth_file_holds J w2 self (add_authorization a u h)"
    using write_auth_file_reliable [OF assms(2,3)] by blast
  with w1 show ?thesis by (simp add: authorize_def)
qed

lemma check_reliable:
  assumes "auth_json_correct J MountAuth_default" and "reliable S" and "auth_file_holds J w self a"
  shows "\<exists>w'. check J S w self u h = (authorized a u h, w') \<and> auth_file_holds J w' self a"
  using read_auth_file_reliable [OF assms] by (auto simp: check_def)

section \<open>What a caller gets\<close>

definition authorize_all ::
  "auth_json \<Rightarrow> sys \<Rightarrow> world \<Rightarrow> MountAuthOperations \<Rightarrow> (string \<times> string) list \<Rightarrow> world" where
  "authorize_all J S w self reqs = foldl (\<lambda>w (u, h). snd (authorize J S w self u h)) w reqs"

definition table_after :: "MountAuth \<Rightarrow> (string \<times> string) list \<Rightarrow> MountAuth" where
  "table_after a reqs = foldl (\<lambda>a (u, h). add_authorization a u h) a reqs"

lemma authorized_table_after:
  "authorized (table_after a reqs) u h \<longleftrightarrow> authorized a u h \<or> (u, h) \<in> set reqs"
proof (induction reqs arbitrary: a)
  case (Cons r reqs)
  obtain v k where r: "r = (v, k)" by (cases r)
  have "table_after a (r # reqs) = table_after (add_authorization a v k) reqs"
    using r by (simp only: table_after_def foldl_Cons prod.case)
  with Cons.IH [of "add_authorization a v k"] r show ?case by auto
qed (simp add: table_after_def)

lemma authorize_all_holds:
  assumes "auth_json_correct J MountAuth_default" and "reliable S"
  shows "auth_file_holds J w self a \<Longrightarrow> (\<And>n. auth_json_correct J (table_after a (take (Suc n) reqs))) \<Longrightarrow>
    auth_file_holds J (authorize_all J S w self reqs) self (table_after a reqs)"
proof (induction reqs arbitrary: w a)
  case Nil
  then show ?case by (simp add: authorize_all_def table_after_def)
next
  case (Cons r reqs)
  obtain u h where r: "r = (u, h)" by (cases r)
  have "auth_json_correct J (add_authorization a u h)"
    using Cons.prems(2) [of 0] r by (simp add: table_after_def)
  then obtain w1 where w1: "authorize J S w self u h = (Ret (result_into_u32 Ok), w1)"
    "auth_file_holds J w1 self (add_authorization a u h)"
    using authorize_reliable [OF assms(1) _ assms(2) Cons.prems(1)] by blast
  have "auth_json_correct J (table_after (add_authorization a u h) (take (Suc n) reqs))" for n
    using Cons.prems(2) [of "Suc n"] r by (simp add: table_after_def)
  then have "auth_file_holds J (authorize_all J S w1 self reqs) self
      (table_after (add_authorization a u h) reqs)"
    by (rule Cons.IH [OF w1(2)])
  moreover have "authorize_all J S w self (r # reqs) = authorize_all J S w1 self reqs"
    using w1(1) r by (simp only: authorize_all_def foldl_Cons prod.case snd_conv)
  moreover have "table_after a (r # reqs) = table_after (add_authorization a u h) reqs"
    using r by (simp only: table_after_def foldl_Cons prod.case)
  ultimately show ?case by simp
qed

text \<open>
  C17: exactly what root authorized is authorized. From a file that holds a table (or no file), after
  any sequence of authorize calls that the environment does not disturb, check answers yes for
  exactly the pairs of the table and of the sequence.
\<close>

theorem check_after_authorizes:
  assumes "auth_json_correct J MountAuth_default"
    and "\<forall>n. auth_json_correct J (table_after a (take n reqs))"
    and "reliable S" and "auth_file_holds J w self a"
  shows "fst (check J S (authorize_all J S w self reqs) self u h)
    \<longleftrightarrow> authorized a u h \<or> (u, h) \<in> set reqs"
  using check_reliable [OF assms(1,3) authorize_all_holds [OF assms(1,3,4)], of reqs u h] assms(2)
  by (auto simp: authorized_table_after)

section \<open>Failures\<close>

text \<open>
  Hypothesis on the JSON crate: the text of a table is an object, so no proper prefix of it parses.
\<close>

definition auth_json_no_prefix :: "auth_json \<Rightarrow> MountAuth \<Rightarrow> bool" where
  "auth_json_no_prefix J a \<longleftrightarrow>
     (\<forall>json. auth_to_string_pretty J a = Inr json \<longrightarrow>
        (\<forall>k < length json. \<forall>x. auth_from_str J (take k json) \<noteq> Inr x))"

definition auth_file_within ::
  "auth_json \<Rightarrow> world \<Rightarrow> MountAuthOperations \<Rightarrow> MountAuth set \<Rightarrow> bool" where
  "auth_file_within J w self A \<longleftrightarrow>
     (\<forall>bs x. files w (file_path self) = Some bs \<and> auth_from_str J (of_bytes bs) = Inr x \<longrightarrow> x \<in> A)
   \<and> (files w (file_path self) = None \<and> \<not> is_dir w (file_path self) \<longrightarrow> MountAuth_default \<in> A)"

lemma of_bytes_take: "of_bytes (take n bs) = take n (of_bytes bs)"
  by (simp add: of_bytes_def take_map)

lemma auth_prefix_parses:
  assumes "auth_json_correct J a" and "auth_json_no_prefix J a" and "auth_to_string_pretty J a = Inr json"
    and "auth_from_str J (take n (json @ [CHR 0x0A])) = Inr x"
  shows "x = a"
proof -
  consider "n < length json" | "n = length json" | "length json < n" by linarith
  then show ?thesis
  proof cases
    case 1
    then have "take n (json @ [CHR 0x0A]) = take n json" by simp
    with assms(2,3,4) 1 show ?thesis by (auto simp: auth_json_no_prefix_def)
  next
    case 2
    with assms(1,3,4) show ?thesis by (simp add: auth_json_correct_def)
  next
    case 3
    then have "take n (json @ [CHR 0x0A]) = json @ [CHR 0x0A]" by simp
    with assms(1,3,4) show ?thesis by (simp add: auth_json_correct_def)
  qed
qed

lemma auth_empty_not_parsed:
  assumes "auth_json_correct J a" and "auth_json_no_prefix J a" and "auth_from_str J [] = Inr x"
  shows "x = a"
  using auth_prefix_parses [OF assms(1,2), of _ 0 x] assms(1,3)
  by (auto simp: auth_json_correct_def split: sum.splits)

text \<open>The values a file may hold after each step, whatever fails.\<close>

lemma auth_file_holds_within: "auth_file_holds J w self a \<Longrightarrow> auth_file_within J w self {a}"
  by (auto simp: auth_file_holds_def auth_file_within_def split: option.splits)

lemma auth_file_within_prefix:
  assumes "auth_json_correct J a" and "auth_json_no_prefix J a" and "auth_to_string_pretty J a = Inr json"
    and "a \<in> A" and "files w (file_path self) = Some (take n (as_bytes (json @ [CHR 0x0A])))"
  shows "auth_file_within J w self A"
proof -
  have "x \<in> A" if "auth_from_str J (take n (json @ [CHR 0x0A])) = Inr x" for x
    using auth_prefix_parses [OF assms(1-3) that] assms(4) by simp
  with assms(5) show ?thesis
    by (simp add: auth_file_within_def of_bytes_take del: as_bytes_append)
qed

lemma auth_file_within_text:
  assumes "auth_json_correct J a" and "auth_json_no_prefix J a" and "auth_to_string_pretty J a = Inr json"
    and "a \<in> A" and "files w (file_path self) = Some (take n (as_bytes json))"
  shows "auth_file_within J w self A"
proof (rule auth_file_within_prefix [OF assms(1-4)])
  show "files w (file_path self) = Some (take (min n (length json)) (as_bytes (json @ [CHR 0x0A])))"
    using assms(5) by (simp add: take_map as_bytes_def min_def)
qed

lemma auth_file_within_empty:
  assumes "auth_json_correct J a" and "auth_json_no_prefix J a" and "a \<in> A"
    and "files w (file_path self) = Some []"
  shows "auth_file_within J w self A"
  using auth_empty_not_parsed [OF assms(1,2)] assms(3,4) by (auto simp: auth_file_within_def)

lemma read_auth_file_parses:
  assumes "auth_json_correct J MountAuth_default" and "auth_file_within J w self A"
    and "fst (read_auth_file J S w self) = Inr x"
  shows "x \<in> A"
proof (cases "path_exists w (file_path self)")
  case True
  with assms(3) obtain s where "read_to_string utf8_valid S w (file_path self) = Inr s"
    "auth_from_str J s = Inr x"
    by (auto simp: read_auth_file_def read_file_or_create_default_def MountAuth_new_def
        split: sum.splits)
  with assms(2) show ?thesis by (auto simp: auth_file_within_def dest: read_to_string_Inr)
next
  case False
  with assms(2) have "MountAuth_default \<in> A"
    by (simp add: auth_file_within_def path_exists_def is_dir_def)
  with False assms(1,3) show ?thesis
    by (auto simp: read_auth_file_def read_file_or_create_default_def MountAuth_new_def
        auth_json_correct_def split: sum.splits prod.splits)
qed

lemma read_auth_file_within:
  assumes "auth_json_correct J MountAuth_default" and "auth_json_no_prefix J MountAuth_default"
    and "auth_file_within J w self A" and "read_auth_file J S w self = (r, w')"
  shows "auth_file_within J w' self A"
proof (cases "w' = w")
  case False
  with assms(4) have new: "\<not> path_exists w (file_path self)"
    by (auto simp: read_auth_file_def read_file_or_create_default_def split: sum.splits prod.splits)
  with assms(3) have in_A: "MountAuth_default \<in> A"
    by (simp add: auth_file_within_def path_exists_def is_dir_def)
  obtain json where json: "auth_to_string_pretty J MountAuth_default = Inr json"
    using assms(1) by (auto simp: auth_json_correct_def split: sum.splits)
  have "\<exists>n. files w' (file_path self) = Some (take n (as_bytes json))"
    using False new assms(4) json
    by (auto simp: read_auth_file_def read_file_or_create_default_def file_create_def set_mode_def
        file_write_all_def split: sum.splits prod.splits if_splits
        intro: exI [of _ 0] exI [of _ "length json"])
  with auth_file_within_text [OF assms(1,2) json in_A] show ?thesis by blast
qed (simp add: assms(3))

lemma write_auth_file_within:
  assumes "auth_json_correct J a" and "auth_json_no_prefix J a" and "auth_file_within J w self A"
    and "a \<in> A" and "write_auth_file J S w self a = (r, w')"
  shows "auth_file_within J w' self A"
proof -
  obtain json where json: "auth_to_string_pretty J a = Inr json"
    using assms(1) by (auto simp: auth_json_correct_def split: sum.splits)
  have "w' = w \<or> (\<exists>n. files w' (file_path self) = Some (take n (as_bytes (json @ [CHR 0x0A]))))"
    using assms(5) json
    by (auto simp: write_auth_file_def file_create_def file_write_def Let_def
        simp del: as_bytes_append split: sum.splits prod.splits if_splits intro: exI [of _ 0])
  with auth_file_within_prefix [OF assms(1,2) json assms(4)] assms(3) show ?thesis by blast
qed

text \<open>
  C18: a failed authorize never widens the table. Whatever fails and however many bytes a write takes,
  an authorize call (successful, failing or panicking) leaves a file from which every later check, in
  any environment, answers yes only for a pair that was authorized before or is the one requested.
\<close>

theorem authorize_never_widens:
  assumes "auth_json_correct J MountAuth_default" and "auth_json_no_prefix J MountAuth_default"
    and "auth_json_correct J (add_authorization a u h)"
    and "auth_json_no_prefix J (add_authorization a u h)"
    and "auth_file_holds J w self a" and "authorize J S w self u h = (r, w')"
    and "fst (check J S' w' self u' h')"
  shows "authorized a u' h' \<or> u' = u \<and> h' = h"
proof -
  let ?A = "{a, add_authorization a u h}"
  have within: "auth_file_within J w self {a}" by (rule auth_file_holds_within [OF assms(5)])
  obtain r1 w1 where r1: "read_auth_file J S w self = (r1, w1)" by fastforce
  have within1: "auth_file_within J w1 self {a}"
    by (rule read_auth_file_within [OF assms(1,2) within r1])
  then have "auth_file_within J w1 self ?A" by (auto simp: auth_file_within_def)
  moreover have "r1 = Inr x \<Longrightarrow> x = a" for x
    using read_auth_file_parses [OF assms(1) within, of S x] r1 by simp
  ultimately have after: "auth_file_within J w' self ?A"
    using assms(6) r1
    by (auto simp: authorize_def split: sum.splits run.splits prod.splits
        dest!: write_auth_file_within [OF assms(3,4) \<open>auth_file_within J w1 self ?A\<close>, rotated])
  obtain x where x: "fst (read_auth_file J S' w' self) = Inr x" "authorized x u' h'"
    using assms(7) by (auto simp: check_def split: sum.splits prod.splits)
  have "x \<in> ?A" by (rule read_auth_file_parses [OF assms(1) after x(1)])
  with \<open>authorized x u' h'\<close> show ?thesis by auto
qed

text \<open>
  C25: a short write revokes everything. The text is handed to one write call after the file was
  truncated: when the system takes only a proper part of the text of the table (no call fails),
  authorize still returns the code of success, and from then on every check answers no, for the
  requested pair and for all pairs authorized before.
\<close>

theorem short_write_revokes_all:
  assumes "auth_json_correct J MountAuth_default" and "auth_file_holds J w self a"
    and "files w (file_path self) \<noteq> None"
    and "auth_json_correct J (add_authorization a u h)"
    and "auth_json_no_prefix J (add_authorization a u h)"
    and "\<forall>c. fails S c = None"
    and "auth_to_string_pretty J (add_authorization a u h) = Inr json"
    and "write_takes S (file_path self) (Suc (length json)) < length json"
  shows "\<exists>w'. authorize J S w self u h = (Ret (result_into_u32 Ok), w')
    \<and> (\<forall>S' u' h'. \<not> fst (check J S' w' self u' h'))"
proof -
  let ?k = "write_takes S (file_path self) (Suc (length json))"
  have ok: "allowed S c = Inr ()" for c using assms(6) by (simp add: allowed_def)
  from assms(2,3) have "read_auth_file J S w self = (Inr a, w)"
    by (auto simp: read_auth_file_def read_file_or_create_default_def path_exists_def MountAuth_new_def
        read_to_string_def ok auth_file_holds_def)
  with assms(2,7,8) have "authorize J S w self u h = (Ret (result_into_u32 Ok),
      w\<lparr>files := (files w)(file_path self \<mapsto> take ?k (as_bytes json))\<rparr>)"
    by (simp add: authorize_def write_auth_file_def file_create_def file_write_def ok Let_def
        auth_file_holds_def min_def)
  moreover have "auth_from_str J (take ?k json) \<noteq> Inr x" for x
    using assms(5,7,8) by (auto simp: auth_json_no_prefix_def)
  then have "\<not> fst (check J S' (w\<lparr>files := (files w)(file_path self \<mapsto> take ?k (as_bytes json))\<rparr>)
      self u' h')" for S' u' h'
    by (auto simp: check_def read_auth_file_def read_file_or_create_default_def path_exists_def
        MountAuth_new_def read_to_string_def of_bytes_take map_err_def and_then_def
        split: sum.splits if_splits)
  ultimately show ?thesis by blast
qed

section \<open>A concrete instance\<close>

definition toy_table :: MountAuth where
  "toy_table = add_authorization MountAuth_default ''u'' ''h''"

definition toy_auth_json :: auth_json where
  "toy_auth_json =
    \<lparr>auth_to_string_pretty = (\<lambda>a.
        if authorizations a ''u'' = None then Inr ''{}''
        else if authorizations a ''u'' = Some [''h''] then Inr ''{u}''
        else Inl ''not a toy table''),
     auth_from_str = (\<lambda>s.
        if s = ''{}'' \<or> s = ''{}'' @ [CHR 0x0A] then Inr MountAuth_default
        else if s = ''{u}'' \<or> s = ''{u}'' @ [CHR 0x0A] then Inr toy_table
        else Inl ''expected value'')\<rparr>"

definition toy_ops :: MountAuthOperations where
  "toy_ops = \<lparr>file_path = ''/auth''\<rparr>"

lemma toy_print:
  "auth_to_string_pretty toy_auth_json MountAuth_default = Inr ''{}''"
  "auth_to_string_pretty toy_auth_json toy_table = Inr ''{u}''"
  by (simp_all add: toy_auth_json_def MountAuth_default_def toy_table_def add_authorization_def)

lemma toy_correct:
  "auth_json_correct toy_auth_json MountAuth_default" "auth_json_correct toy_auth_json toy_table"
  by (simp_all add: auth_json_correct_def toy_print is_string_def utf8_valid_ascii)
    (simp_all add: toy_auth_json_def)

lemma toy_no_prefix:
  "auth_json_no_prefix toy_auth_json MountAuth_default" "auth_json_no_prefix toy_auth_json toy_table"
  by (auto simp: auth_json_no_prefix_def toy_print less_Suc_eq numeral_eq_Suc)
    (auto simp: toy_auth_json_def)

lemma toy_world_holds:
  "auth_file_holds toy_auth_json demo_world toy_ops MountAuth_default"
  by (simp add: auth_file_holds_def demo_world_def toy_ops_def is_dir_def)

lemma toy_table_after: "auth_json_correct toy_auth_json (table_after MountAuth_default (take n [(''u'', ''h'')]))"
  using toy_correct by (cases n) (simp_all add: table_after_def flip: toy_table_def)

theorem check_after_authorizes_witness:
  "fst (check toy_auth_json demo_sys
      (authorize_all toy_auth_json demo_sys demo_world toy_ops [(''u'', ''h'')]) toy_ops ''u'' ''h'')
   \<and> \<not> fst (check toy_auth_json demo_sys
      (authorize_all toy_auth_json demo_sys demo_world toy_ops [(''u'', ''h'')]) toy_ops ''u'' ''x'')"
proof -
  have "\<forall>n. auth_json_correct toy_auth_json (table_after MountAuth_default (take n [(''u'', ''h'')]))"
    using toy_table_after by blast
  from check_after_authorizes [OF toy_correct(1) this demo_sys_reliable toy_world_holds]
  show ?thesis by simp
qed

theorem authorize_never_widens_witness:
  "\<exists>w'. authorize toy_auth_json demo_sys demo_world toy_ops ''u'' ''h'' = (Ret (result_into_u32 Ok), w')
     \<and> fst (check toy_auth_json demo_sys w' toy_ops ''u'' ''h'')
     \<and> (authorized MountAuth_default ''u'' ''h'' \<or> ''u'' = ''u'' \<and> ''h'' = ''h'')
     \<and> \<not> fst (check toy_auth_json demo_sys w' toy_ops ''u'' ''x'')"
proof -
  obtain w' where w': "authorize toy_auth_json demo_sys demo_world toy_ops ''u'' ''h''
      = (Ret (result_into_u32 Ok), w')" "auth_file_holds toy_auth_json w' toy_ops toy_table"
    using authorize_reliable [OF toy_correct(1) toy_correct(2) [unfolded toy_table_def]
        demo_sys_reliable toy_world_holds] toy_table_def by auto
  have yes: "fst (check toy_auth_json demo_sys w' toy_ops ''u'' ''h'')"
    using check_reliable [OF toy_correct(1) demo_sys_reliable w'(2), of "''u''" "''h''"]
    by (auto simp: toy_table_def)
  note widens = authorize_never_widens [OF toy_correct(1) toy_no_prefix(1)
      toy_correct(2) [unfolded toy_table_def] toy_no_prefix(2) [unfolded toy_table_def]
      toy_world_holds w'(1)]
  from widens [OF yes] have "authorized MountAuth_default ''u'' ''h'' \<or> ''u'' = ''u'' \<and> ''h'' = ''h''" .
  moreover have "\<not> fst (check toy_auth_json demo_sys w' toy_ops ''u'' ''x'')"
    using widens [of demo_sys "''u''" "''x''"] by auto
  ultimately show ?thesis using w'(1) yes by blast
qed

definition toy_file_world :: world where
  "toy_file_world = demo_world\<lparr>files := [''/auth'' \<mapsto> as_bytes ''{}'']\<rparr>"

definition short_sys :: sys where
  "short_sys = \<lparr>fails = (\<lambda>_. None), write_takes = (\<lambda>p n. 1), raw_os_error = (\<lambda>_. None)\<rparr>"

theorem short_write_revokes_all_witness:
  "\<exists>w'. authorize toy_auth_json short_sys toy_file_world toy_ops ''u'' ''h''
       = (Ret (result_into_u32 Ok), w')
     \<and> (\<forall>S' u' h'. \<not> fst (check toy_auth_json S' w' toy_ops u' h'))"
proof (rule short_write_revokes_all [OF toy_correct(1) _ _ toy_correct(2) [unfolded toy_table_def]
      toy_no_prefix(2) [unfolded toy_table_def]])
  show "auth_file_holds toy_auth_json toy_file_world toy_ops MountAuth_default"
    by (rule auth_file_holds_string [of _ _ "''{}''"])
      (simp_all add: toy_file_world_def toy_ops_def toy_auth_json_def is_dir_def demo_world_def
        is_string_def utf8_valid_ascii)
  show "auth_to_string_pretty toy_auth_json (add_authorization MountAuth_default ''u'' ''h'')
      = Inr ''{u}''"
    using toy_print by (simp add: toy_table_def)
qed (simp_all add: toy_file_world_def toy_ops_def short_sys_def)

lemma write_auth_file_mounted:
  "mounted (snd (write_auth_file J S w self a)) = mounted w"
  by (simp add: write_auth_file_def file_create_def file_write_def Let_def split: sum.splits)

section \<open>Other files\<close>

lemma read_or_create_touches: "touches p w (snd (read_file_or_create_default S w p d))"
  by (auto simp: read_file_or_create_default_def split: sum.split prod.split
      dest!: touches_steps intro: touches_trans)

lemma read_auth_file_touches: "read_auth_file J S w self = (r, w') \<Longrightarrow> touches (file_path self) w w'"
  using read_or_create_touches [of "file_path self" w S
      "map_err JsonError (auth_to_string_pretty J MountAuth_default)"]
  by (auto simp: read_auth_file_def split: sum.splits prod.splits)

lemma write_auth_file_touches: "write_auth_file J S w self a = (r, w') \<Longrightarrow> touches (file_path self) w w'"
  by (auto simp: write_auth_file_def split: sum.splits prod.splits dest!: touches_steps intro: touches_trans)

lemma authorize_touches: "authorize J S w self u h = (r, w') \<Longrightarrow> touches (file_path self) w w'"
  by (auto simp: authorize_def split: sum.splits prod.splits run.splits
      dest!: read_auth_file_touches write_auth_file_touches intro: touches_trans)

end
