(* ===== verification/Mounting.thy ===== *)
theory Mounting
  imports Disk MountPoints
begin

text \<open>
  Mounting the directories of a session (src/pam/mount.rs, mount to mount_all): the tmpfs for the
  user's runtime directory, the additional mounts in the enumeration order of their map, and the home
  directory. The handles that mount_all returns unmount when they are dropped.
\<close>

section \<open>mount\<close>

text \<open>The request that the builder of the mount crate makes of the four parts.\<close>

definition built_request :: "string \<times> string \<times> string \<times> path \<Rightarrow> mount_request" where
  "built_request data =
    (case data of (fs, opts, src, mount_path) \<Rightarrow>
       if fs = []
       then \<lparr>req_fstype = None, req_data = None, req_source = src, req_target = mount_path\<rparr>
       else \<lparr>req_fstype = Some fs, req_data = Some opts, req_source = src, req_target = mount_path\<rparr>)"

definition mount_dir ::
  "sys \<Rightarrow> world \<Rightarrow> string \<times> string \<times> string \<times> path \<Rightarrow> (ext_error + mount_request) \<times> world" where
  "mount_dir S w data =
    (let mount_path = snd (snd (snd data)) in
     if \<not> path_exists w mount_path \<or> \<not> is_dir w mount_path then
       (case create_dir S w mount_path of
          (Inl e, w1) \<Rightarrow> (Inl e, w1)
        | (Inr u, w1) \<Rightarrow> do_mount S w1 (built_request data))
     else do_mount S w (built_request data))"

section \<open>The runtime directory\<close>

definition XDG_RUNTIME_DIR_PATH :: path where
  "XDG_RUNTIME_DIR_PATH = ''/tmp/xdg/''"

definition set_directory_permissions ::
  "sys \<Rightarrow> world \<Rightarrow> path \<Rightarrow> u32 \<Rightarrow> (ext_error + unit) \<times> world" where
  "set_directory_permissions S w p mode =
    (case allowed S (Sys_metadata p) of
       Inl e \<Rightarrow> (Inl e, w)
     | Inr permissions \<Rightarrow> set_mode S w p mode)"

definition change_owner :: "sys \<Rightarrow> world \<Rightarrow> path \<Rightarrow> u32 \<Rightarrow> u32 \<Rightarrow> (int + unit) \<times> world" where
  "change_owner S w p uid gid =
    (case chown S w p (Some uid) (Some gid) of
       (Inr u, w1) \<Rightarrow> (Inr (), w1)
     | (Inl err, w1) \<Rightarrow> (Inl (case raw_os_error S err of Some n \<Rightarrow> n | None \<Rightarrow> -1), w1))"

definition user_xdg_path :: "u32 \<Rightarrow> path" where
  "user_xdg_path uid = path_join XDG_RUNTIME_DIR_PATH (dec_nat (unat uid))"

definition xdg_mount_data :: "u32 \<Rightarrow> u32 \<Rightarrow> string \<times> string \<times> string \<times> path" where
  "xdg_mount_data uid gid =
    (''tmpfs'', ''uid='' @ dec_nat (unat uid) @ '',gid='' @ dec_nat (unat gid), ''tmpfs'',
     user_xdg_path uid)"

text \<open>The two directories are made when they are missing.\<close>

definition xdg_base :: "sys \<Rightarrow> world \<Rightarrow> bool \<times> world" where
  "xdg_base S w =
    (let xdg_path = XDG_RUNTIME_DIR_PATH in
     if \<not> path_exists w xdg_path then
       (case create_dir S w xdg_path of (Inl err, w1) \<Rightarrow> (False, w1) | (Inr u, w1) \<Rightarrow> (True, w1))
     else if \<not> is_dir w xdg_path then (False, w)
     else (True, w))"

definition mount_xdg ::
  "sys \<Rightarrow> world \<Rightarrow> u32 \<Rightarrow> u32 \<Rightarrow> string \<Rightarrow> mount_request option \<times> world" where
  "mount_xdg S w uid gid username =
    (let xdg_path = XDG_RUNTIME_DIR_PATH; user_path = user_xdg_path uid;
         (base_ok, w1) = xdg_base S w in
     if \<not> base_ok then (None, w1)
     else
       (let (user_ok, w2) =
          (if \<not> path_exists w1 user_path then
             (case create_dir S w1 user_path of
                (Inl err, w2) \<Rightarrow> (False, w2)
              | (Inr u, w2) \<Rightarrow> (True, w2))
           else if \<not> is_dir w1 xdg_path then (False, w1)
           else (True, w1)) in
        if \<not> user_ok then (None, w2)
        else
          (case mount_dir S w2 (xdg_mount_data uid gid) of
             (Inr mnt, w3) \<Rightarrow>
               (case set_directory_permissions S w3 user_path mode_0700 of
                  (perm_res, w4) \<Rightarrow> (Some mnt, w4))
           | (Inl err, w3) \<Rightarrow> (None, w3))))"

section \<open>mount_all\<close>

definition mount_data :: "path \<Rightarrow> MountParams \<Rightarrow> string \<times> string \<times> string \<times> path" where
  "mount_data a b = (fstype b, join '','' (flags b), device b, a)"

text \<open>
  The loop over the additional mounts; the vector of guards made so far is dropped when a mount
  fails.
\<close>

fun mount_each ::
  "sys \<Rightarrow> world \<Rightarrow> mount_request list \<Rightarrow> (string \<times> string \<times> string \<times> path) list \<Rightarrow>
   mount_request list option \<times> world" where
  "mount_each S w mounted_devices [] = (Some mounted_devices, w)"
| "mount_each S w mounted_devices (m # ms) =
    (case mount_dir S w m of
       (Inr mnt, w1) \<Rightarrow> mount_each S w1 (mounted_devices @ [mnt]) ms
     | (Inl err, w1) \<Rightarrow> (None, drop_mounts S w1 mounted_devices))"

definition mount_all ::
  "sys \<Rightarrow> world \<Rightarrow> string list \<Rightarrow> MountPoints option \<Rightarrow> u8 list \<Rightarrow> u32 \<Rightarrow> u32 \<Rightarrow> string \<Rightarrow> path \<Rightarrow>
   mount_request list \<times> world" where
  "mount_all S w ks mnts password uid gid username homedir =
    (case mount_xdg S w uid gid username of
       (None, w1) \<Rightarrow> ([], w1)
     | (Some xdg_mounted_dir, w1) \<Rightarrow>
         (case mnts of
            None \<Rightarrow> ([xdg_mounted_dir], w1)
          | Some mp \<Rightarrow>
              (case mount_each S w1 [xdg_mounted_dir] (foreach mp ks mount_data) of
                 (None, w2) \<Rightarrow> ([], w2)
               | (Some mounted_devices, w2) \<Rightarrow>
                   (case mount_dir S w2 (mount_data homedir (home mp)) of
                      (Inr mnt, w3) \<Rightarrow>
                        (case set_directory_permissions S w3 homedir mode_0700 of
                           (Inl err, w4) \<Rightarrow> (mounted_devices @ [mnt], w4)
                         | (Inr u, w4) \<Rightarrow>
                             (case change_owner S w4 homedir uid gid of
                                (owner_res, w5) \<Rightarrow> (mounted_devices @ [mnt], w5)))
                    | (Inl err, w3) \<Rightarrow> ([], drop_mounts S w3 mounted_devices)))))"

section \<open>What is mounted\<close>

lemma mount_dir_mounted:
  "mount_dir S w data = (Inr h, w') \<Longrightarrow>
     h = built_request data \<and> mounted w' = add_mset h (mounted w) \<and> files w' = files w"
  "mount_dir S w data = (Inl e, w') \<Longrightarrow> mounted w' = mounted w \<and> files w' = files w"
  by (auto simp: mount_dir_def Let_def do_mount_def dest: create_dir_frame
      split: sum.splits prod.splits if_splits)

lemma set_directory_permissions_frame [simp]:
  "mounted (snd (set_directory_permissions S w p m)) = mounted w"
  "files (snd (set_directory_permissions S w p m)) = files w"
  by (simp_all add: set_directory_permissions_def split: sum.splits)

lemma change_owner_frame [simp]:
  "mounted (snd (change_owner S w p uid gid)) = mounted w"
  "files (snd (change_owner S w p uid gid)) = files w"
  by (auto simp: change_owner_def dest: chown_frame split: sum.splits prod.splits)

lemma permissions_frame:
  "set_directory_permissions S w p m = (r, w') \<Longrightarrow> mounted w' = mounted w \<and> files w' = files w"
  by (metis set_directory_permissions_frame snd_conv)

lemma owner_frame:
  "change_owner S w p uid gid = (r, w') \<Longrightarrow> mounted w' = mounted w \<and> files w' = files w"
  by (metis change_owner_frame snd_conv)

lemma xdg_base_frame [simp]:
  "mounted (snd (xdg_base S w)) = mounted w" "files (snd (xdg_base S w)) = files w"
  by (auto simp: xdg_base_def Let_def create_dir_def split: sum.splits)

lemma mount_xdg_mounted:
  "mount_xdg S w uid gid u = (Some h, w') \<Longrightarrow>
     h = built_request (xdg_mount_data uid gid) \<and> mounted w' = add_mset h (mounted w)
     \<and> files w' = files w"
  "mount_xdg S w uid gid u = (None, w') \<Longrightarrow> mounted w' = mounted w \<and> files w' = files w"
proof -
  obtain ok w1 where base: "xdg_base S w = (ok, w1)" by fastforce
  then have w1: "mounted w1 = mounted w" "files w1 = files w"
    using xdg_base_frame [of S w] by simp_all
  note unfold = mount_xdg_def Let_def base
  show "mount_xdg S w uid gid u = (Some h, w') \<Longrightarrow>
     h = built_request (xdg_mount_data uid gid) \<and> mounted w' = add_mset h (mounted w)
     \<and> files w' = files w"
    using w1
    by (auto simp: unfold dest!: mount_dir_mounted create_dir_frame permissions_frame
        split: sum.splits prod.splits if_splits)
  show "mount_xdg S w uid gid u = (None, w') \<Longrightarrow> mounted w' = mounted w \<and> files w' = files w"
    using w1
    by (auto simp: unfold dest!: mount_dir_mounted create_dir_frame
        split: sum.splits prod.splits if_splits)
qed

lemma mount_each_mounted:
  assumes "detaches S"
  shows "mount_each S w hs ms = (Some hs', w') \<Longrightarrow>
     hs' = hs @ map built_request ms \<and> mounted w' = mounted w + mset (map built_request ms)
     \<and> files w' = files w"
  "mount_each S w hs ms = (None, w') \<Longrightarrow> mset hs \<subseteq># mounted w \<Longrightarrow>
     mounted w' = mounted w - mset hs \<and> files w' = files w"
proof -
  show "mount_each S w hs ms = (Some hs', w') \<Longrightarrow>
     hs' = hs @ map built_request ms \<and> mounted w' = mounted w + mset (map built_request ms)
     \<and> files w' = files w"
  proof (induction ms arbitrary: w hs)
    case (Cons m ms)
    then obtain h w1 where h: "mount_dir S w m = (Inr h, w1)"
      "mount_each S w1 (hs @ [h]) ms = (Some hs', w')"
      by (auto split: sum.splits prod.splits)
    from Cons.IH [OF h(2)] mount_dir_mounted(1) [OF h(1)] show ?case by simp
  qed simp
  show "mount_each S w hs ms = (None, w') \<Longrightarrow> mset hs \<subseteq># mounted w \<Longrightarrow>
     mounted w' = mounted w - mset hs \<and> files w' = files w"
  proof (induction ms arbitrary: w hs)
    case (Cons m ms)
    show ?case
    proof (cases "mount_dir S w m")
      case (Pair r w1)
      show ?thesis
      proof (cases r)
        case (Inl e)
        with Pair Cons.prems(1) mount_dir_mounted(2) [of S w m e w1] show ?thesis
          by (auto simp: drop_mounts_detaches [OF assms])
      next
        case (Inr h)
        with Pair have h: "mounted w1 = add_mset h (mounted w)" "files w1 = files w"
          using mount_dir_mounted(1) [of S w m h w1] by simp_all
        with Cons.prems(2) have "mset (hs @ [h]) \<subseteq># mounted w1" by simp
        with Cons.IH [of w1 "hs @ [h]"] Cons.prems(1) Pair Inr h show ?thesis by simp
      qed
    qed
  qed simp
qed

section \<open>All or nothing\<close>

text \<open>What a session mounts, in this order.\<close>

definition session_requests ::
  "string list \<Rightarrow> MountPoints option \<Rightarrow> u32 \<Rightarrow> u32 \<Rightarrow> path \<Rightarrow> mount_request list" where
  "session_requests ks mnts uid gid homedir =
    built_request (xdg_mount_data uid gid)
    # (case mnts of
         None \<Rightarrow> []
       | Some mp \<Rightarrow> foreach mp ks (\<lambda>a b. built_request (mount_data a b))
           @ [built_request (mount_data homedir (home mp))])"

text \<open>The end of mount_all: the home directory, once everything else is mounted.\<close>

lemma mount_all_cases:
  assumes "mount_all S w ks mnts pw uid gid u homedir = (hs, w')"
  obtains (no_xdg) "mount_xdg S w uid gid u = (None, w')" "hs = []"
  | (only_xdg) h where "mount_xdg S w uid gid u = (Some h, w')" "mnts = None" "hs = [h]"
  | (no_extra) h w1 mp where "mount_xdg S w uid gid u = (Some h, w1)" "mnts = Some mp"
      "mount_each S w1 [h] (foreach mp ks mount_data) = (None, w')" "hs = []"
  | (no_home) h w1 mp ds w2 e w3 where "mount_xdg S w uid gid u = (Some h, w1)" "mnts = Some mp"
      "mount_each S w1 [h] (foreach mp ks mount_data) = (Some ds, w2)"
      "mount_dir S w2 (mount_data homedir (home mp)) = (Inl e, w3)" "hs = []"
      "w' = drop_mounts S w3 ds"
  | (all_mounted) h w1 mp ds w2 m w3 where "mount_xdg S w uid gid u = (Some h, w1)" "mnts = Some mp"
      "mount_each S w1 [h] (foreach mp ks mount_data) = (Some ds, w2)"
      "mount_dir S w2 (mount_data homedir (home mp)) = (Inr m, w3)" "hs = ds @ [m]"
      "mounted w' = mounted w3" "files w' = files w3"
proof -
  obtain x w1 where xdg: "mount_xdg S w uid gid u = (x, w1)" by fastforce
  show thesis
  proof (cases x)
    case None
    with xdg assms no_xdg show ?thesis by (simp add: mount_all_def)
  next
    case (Some h)
    note x = Some
    show ?thesis
    proof (cases mnts)
      case None
      with x xdg assms only_xdg show ?thesis by (simp add: mount_all_def)
    next
      case (Some mp)
      obtain y w2 where each: "mount_each S w1 [h] (foreach mp ks mount_data) = (y, w2)" by fastforce
      show ?thesis
      proof (cases y)
        case None
        with Some x xdg each assms no_extra show ?thesis by (simp add: mount_all_def)
      next
        case y: (Some ds)
        obtain z w3 where z: "mount_dir S w2 (mount_data homedir (home mp)) = (z, w3)" by fastforce
        show ?thesis
        proof (cases z)
          case (Inl e)
          with Some x xdg each y z assms no_home show ?thesis by (simp add: mount_all_def)
        next
          case (Inr m)
          with Some x xdg each y z assms have "hs = ds @ [m] \<and> mounted w' = mounted w3 \<and> files w' = files w3"
            by (auto simp: mount_all_def dest!: permissions_frame owner_frame
                split: sum.splits prod.splits)
          with Some x xdg each y z Inr all_mounted show ?thesis by blast
        qed
      qed
    qed
  qed
qed

lemma mounted_all_or_none:
  assumes "detaches S" and "mount_all S w ks mnts pw uid gid u homedir = (hs, w')"
  shows "(hs = [] \<and> mounted w' = mounted w
      \<or> hs = session_requests ks mnts uid gid homedir \<and> mounted w' = mounted w + mset hs)
    \<and> files w' = files w"
  using assms(2)
proof (cases rule: mount_all_cases)
  case no_xdg
  then show ?thesis using mount_xdg_mounted(2) by auto
next
  case (only_xdg h)
  then show ?thesis using mount_xdg_mounted(1) [OF only_xdg(1)] by (simp add: session_requests_def)
next
  case (no_extra h w1 mp)
  then show ?thesis
    using mount_xdg_mounted(1) [OF no_extra(1)] mount_each_mounted(2) [OF assms(1) no_extra(3)]
    by simp
next
  case (no_home h w1 mp ds w2 e w3)
  have "mounted w3 = mounted w + mset ds \<and> files w3 = files w"
    using mount_xdg_mounted(1) [OF no_home(1)] mount_each_mounted(1) [OF assms(1) no_home(3)]
      mount_dir_mounted(2) [OF no_home(4)] by simp
  then show ?thesis
    by (simp add: no_home(5,6) drop_mounts_detaches [OF assms(1)])
next
  case (all_mounted h w1 mp ds w2 m w3)
  then show ?thesis
    using mount_xdg_mounted(1) [OF all_mounted(1)] mount_each_mounted(1) [OF assms(1) all_mounted(3)]
      mount_dir_mounted(1) [OF all_mounted(4)]
    by (simp add: session_requests_def foreach_map [symmetric] flip: mset_map)
qed

text \<open>
  C15: a session's mounts are all or nothing. Whatever call fails (but for the detaching itself),
  mount_all either returns no handle, and then everything it had mounted is unmounted again, or it
  returns exactly the handles of the runtime directory, of every configured mount in enumeration
  order and of the home directory, and the mounts of the system are those before plus these. It
  changes no file either way.
\<close>

theorem mount_all_or_nothing:
  assumes "detaches S" and "mount_all S w ks mnts pw uid gid u homedir = (hs, w')"
  shows "(hs = [] \<and> mounted w' = mounted w
      \<or> hs = session_requests ks mnts uid gid homedir \<and> mounted w' = mounted w + mset hs)
    \<and> files w' = files w"
  by (rule mounted_all_or_none [OF assms])

text \<open>The same without failures: everything is mounted.\<close>

lemma mount_dir_reliable:
  assumes "reliable S" and "files w (snd (snd (snd data))) = None"
  shows "\<exists>w'. mount_dir S w data = (Inr (built_request data), w') \<and> files w' = files w"
  using assms
  by (auto simp: mount_dir_def Let_def do_mount_def create_dir_def path_exists_def is_dir_def)

lemma mount_each_reliable:
  assumes "reliable S"
  shows "\<forall>m \<in> set ms. files w (snd (snd (snd m))) = None \<Longrightarrow>
    \<exists>w'. mount_each S w hs ms = (Some (hs @ map built_request ms), w') \<and> files w' = files w"
proof (induction ms arbitrary: w hs)
  case (Cons m ms)
  then obtain w1 where w1: "mount_dir S w m = (Inr (built_request m), w1)" "files w1 = files w"
    using mount_dir_reliable [OF assms, of w m] by auto
  with Cons.IH [of w1 "hs @ [built_request m]"] Cons.prems show ?case by simp
qed simp

lemma mount_xdg_reliable:
  assumes "reliable S" and "files w XDG_RUNTIME_DIR_PATH = None" and "files w (user_xdg_path uid) = None"
  shows "\<exists>w'. mount_xdg S w uid gid u = (Some (built_request (xdg_mount_data uid gid)), w')
    \<and> files w' = files w"
proof -
  obtain w1 where w1: "xdg_base S w = (True, w1)" "is_dir w1 XDG_RUNTIME_DIR_PATH" "files w1 = files w"
  proof (cases "is_dir w XDG_RUNTIME_DIR_PATH")
    case True
    with that show ?thesis by (simp add: xdg_base_def Let_def path_exists_def is_dir_def)
  next
    case False
    with assms(1,2) that show ?thesis
      by (simp add: xdg_base_def Let_def create_dir_def path_exists_def is_dir_def)
  qed
  define w2 where "w2 = (if path_exists w1 (user_xdg_path uid) then w1
    else w1\<lparr>dirs := insert (user_xdg_path uid) (dirs w1)\<rparr>)"
  have "files w2 = files w" using w1(3) by (simp add: w2_def)
  then obtain w3 where w3: "mount_dir S w2 (xdg_mount_data uid gid)
      = (Inr (built_request (xdg_mount_data uid gid)), w3)" "files w3 = files w"
    using mount_dir_reliable [OF assms(1), of w2 "xdg_mount_data uid gid"] assms(3)
    by (auto simp: xdg_mount_data_def)
  obtain r w4 where w4: "set_directory_permissions S w3 (user_xdg_path uid) mode_0700 = (r, w4)"
    by fastforce
  have "mount_xdg S w uid gid u = (Some (built_request (xdg_mount_data uid gid)), w4)"
    using w1 w3(1) w4 assms(1)
    by (auto simp: mount_xdg_def Let_def w2_def create_dir_def is_dir_def split: if_splits)
  with permissions_frame [OF w4] w3(2) show ?thesis by auto
qed

lemma mount_all_mounts:
  assumes "reliable S"
    and "\<forall>t \<in> {XDG_RUNTIME_DIR_PATH, user_xdg_path uid, homedir}. files w t = None"
    and "\<forall>mp k. mnts = Some mp \<and> k \<in> dom (mounts mp) \<longrightarrow> files w k = None"
  shows "\<exists>w'. mount_all S w ks mnts pw uid gid u homedir = (session_requests ks mnts uid gid homedir, w')
    \<and> (mnts \<noteq> None \<longrightarrow> modes w' homedir = Some mode_0700 \<and> uids w' homedir = Some uid \<and> gids w' homedir = Some gid)"
proof -
  obtain w1 where w1: "mount_xdg S w uid gid u = (Some (built_request (xdg_mount_data uid gid)), w1)"
    "files w1 = files w"
    using mount_xdg_reliable [OF assms(1), of w uid gid u] assms(2) by auto
  show ?thesis
  proof (cases mnts)
    case None
    with w1 show ?thesis by (simp add: mount_all_def session_requests_def)
  next
    case (Some mp)
    let ?ms = "foreach mp ks mount_data"
    have "\<forall>m \<in> set ?ms. files w1 (snd (snd (snd m))) = None"
      using assms(3) Some w1(2)
      by (induction ks) (auto simp: mount_data_def dom_def split: option.splits)
    from mount_each_reliable [OF assms(1) this, of "[built_request (xdg_mount_data uid gid)]"] w1(2)
    obtain w2 where w2: "mount_each S w1 [built_request (xdg_mount_data uid gid)] ?ms
        = (Some (built_request (xdg_mount_data uid gid) # map built_request ?ms), w2)"
      "files w2 = files w"
      by auto
    obtain w3 where "mount_dir S w2 (mount_data homedir (home mp))
        = (Inr (built_request (mount_data homedir (home mp))), w3)"
      using mount_dir_reliable [OF assms(1), of w2 "mount_data homedir (home mp)"] assms(2) w2(2)
      by (auto simp: mount_data_def)
    with Some w1(1) w2(1) assms(1) show ?thesis
      by (simp add: mount_all_def session_requests_def set_directory_permissions_def set_mode_def
          change_owner_def chown_def foreach_map)
  qed
qed

text \<open>
  Without failures everything is mounted. When no call fails and no mount point is a regular
  file, mount_all returns the handle of every configured mount, and with a configuration the home
  directory ends with mode 0700 and the user and group as its owner.
\<close>

theorem mount_all_complete:
  assumes "reliable S"
    and "\<forall>t \<in> {XDG_RUNTIME_DIR_PATH, user_xdg_path uid, homedir}. files w t = None"
    and "\<forall>mp k. mnts = Some mp \<and> k \<in> dom (mounts mp) \<longrightarrow> files w k = None"
  shows "\<exists>w'. mount_all S w ks mnts pw uid gid u homedir = (session_requests ks mnts uid gid homedir, w')
    \<and> (mnts \<noteq> None \<longrightarrow> modes w' homedir = Some mode_0700 \<and> uids w' homedir = Some uid \<and> gids w' homedir = Some gid)"
  by (rule mount_all_mounts [OF assms])

text \<open>
  Options without a file system type are dropped. When the home mount names no file system type,
  what is mounted, and the whole outcome, does not depend on the options the user configured and root
  authorized.
\<close>

theorem options_need_fstype:
  assumes "fstype (home mp) = []"
  shows "mount_all S w ks (Some mp) pw uid gid u homedir
    = mount_all S w ks (Some (with_mount mp ((home mp)\<lparr>flags := fl\<rparr>))) pw uid gid u homedir"
proof -
  have request: "built_request (mount_data homedir (home mp))
      = built_request (mount_data homedir ((home mp)\<lparr>flags := fl\<rparr>))"
    using assms by (simp add: mount_data_def built_request_def)
  have target: "snd (snd (snd (mount_data homedir b))) = homedir" for b
    by (simp add: mount_data_def)
  have "mount_dir S w2 (mount_data homedir (home mp))
      = mount_dir S w2 (mount_data homedir ((home mp)\<lparr>flags := fl\<rparr>))" for w2
    by (simp only: mount_dir_def request target)
  moreover have "foreach (with_mount mp h) ks mount_data = foreach mp ks mount_data" for h
    by (simp add: foreach_def)
  ultimately show ?thesis
    by (simp only: mount_all_def option.case with_mount_simps)
qed

section \<open>Instances\<close>

definition demo_mounts :: MountPoints where
  "demo_mounts = MountPoints_new (MountParams_new ''/dev/sda2'' ''ext4'' [''noexec''])
    [''/data'' \<mapsto> MountParams_new ''/dev/sdb1'' '''' [''ro'']]"

theorem mount_all_or_nothing_witness:
  "case mount_all demo_sys demo_world [''/data''] (Some demo_mounts) [] 1000 1000 ''u'' ''/home/u'' of
     (hs, w') \<Rightarrow>
       (hs = [] \<and> mounted w' = mounted demo_world
        \<or> hs = session_requests [''/data''] (Some demo_mounts) 1000 1000 ''/home/u''
          \<and> mounted w' = mounted demo_world + mset hs) \<and> files w' = files demo_world"
  unfolding case_prod_unfold
  by (rule mount_all_or_nothing [OF reliable_detaches [OF demo_sys_reliable] prod.collapse [symmetric]])

theorem mount_all_complete_witness:
  "\<exists>w'. mount_all demo_sys demo_world [''/data''] (Some demo_mounts) [] 1000 1000 ''u'' ''/home/u''
      = (session_requests [''/data''] (Some demo_mounts) 1000 1000 ''/home/u'', w')
    \<and> modes w' ''/home/u'' = Some mode_0700 \<and> uids w' ''/home/u'' = Some 1000 \<and> gids w' ''/home/u'' = Some 1000"
  using mount_all_complete [OF demo_sys_reliable, of 1000 "''/home/u''" demo_world
      "Some demo_mounts" "[''/data'']" "[]" 1000 "''u''"]
  by (simp add: demo_world_def)

theorem options_need_fstype_witness:
  "mount_all demo_sys demo_world []
       (Some (MountPoints_new (MountParams_new ''/dev/sda2'' '''' [''nosuid'', ''nodev'']) Map.empty))
       [] 1000 1000 ''u'' ''/home/u''
   = mount_all demo_sys demo_world []
       (Some (MountPoints_new (MountParams_new ''/dev/sda2'' '''' []) Map.empty))
       [] 1000 1000 ''u'' ''/home/u''"
  using options_need_fstype [of "MountPoints_new (MountParams_new ''/dev/sda2'' ''''
      [''nosuid'', ''nodev'']) Map.empty" demo_sys demo_world "[]" "[]" 1000 1000 "''u''"
      "''/home/u''" "[]"]
  by (simp add: MountPoints_new_def MountParams_new_def with_mount_def set_mount_def)

end
