(* ===== verification/SessionPrelude.thy ===== *)
theory SessionPrelude
  imports Crypto
begin

text \<open>
  The one-time message that carries a password to the service (src/pam/security.rs): the password is
  interleaved with the one-time token, encrypted under a fresh AES key, and the key under the
  service's RSA key. Arithmetic on lengths is on usize, with or without overflow checks.
\<close>

section \<open>Data\<close>

datatype SessionPreludeError =
    PubKeyImportError
  | RSAError ext_error
  | AESError
  | InvalidCiphertext
  | WrongNonceSize
  | KeyTooLong
  | PlaintextTooLong
  | InvalidOTP
  | InternalError

record SessionPrelude =
  pub_pkcs1_pem :: string
  one_time_token :: "u8 list"

definition string_to_vec_u8 :: "string \<Rightarrow> u8 list" where
  "string_to_vec_u8 input =
    (let vec = as_bytes input; result = replicate 255 0; len = min (length vec) 255 in
     take len vec @ drop len result)"

text \<open>Indexing modulo the length of an empty token panics.\<close>

fun combine_from :: "nat \<Rightarrow> u8 list \<Rightarrow> u8 list \<Rightarrow> u8 list run" where
  "combine_from i otp [] = Ret []"
| "combine_from i otp (d # data) =
    (if otp = [] then Panic
     else run_then (combine_from (Suc i) otp data) (\<lambda>rest. Ret (d # otp ! (i mod length otp) # rest)))"

definition combine :: "u8 list \<Rightarrow> u8 list \<Rightarrow> u8 list run" where
  "combine otp data = combine_from 0 otp data"

fun split_from :: "nat \<Rightarrow> u8 list \<Rightarrow> u8 list \<Rightarrow> u8 list \<Rightarrow> u8 list \<times> u8 list" where
  "split_from i otp data [] = (otp, data)"
| "split_from i otp data (value # rest) =
    (if i mod 2 = 0 then split_from (Suc i) otp (data @ [value]) rest
     else split_from (Suc i) (otp @ [value]) data rest)"

definition split :: "u8 list \<Rightarrow> u8 list \<times> u8 list" where
  "split combined = split_from 0 [] [] combined"

definition NONCE_LEN :: nat where "NONCE_LEN = 12"
definition ENCRYPTED_KEY_LEN :: nat where "ENCRYPTED_KEY_LEN = 8"

text \<open>The 255 random bytes of a token are given by their index.\<close>

definition SessionPrelude_new :: "(nat \<Rightarrow> u8) \<Rightarrow> string \<Rightarrow> SessionPrelude" where
  "SessionPrelude_new random pem = \<lparr>pub_pkcs1_pem = pem, one_time_token = map random [0..<255]\<rparr>"

section \<open>encrypt\<close>

record prelude_draws =
  aes_key :: "u8 list"
  aes_nonce :: "u8 list"
  rsa_padding :: "u8 list"

definition prelude_draws_ok :: "prelude_draws \<Rightarrow> bool" where
  "prelude_draws_ok d \<longleftrightarrow> length (aes_key d) = 32 \<and> length (aes_nonce d) = 12"

text \<open>The length of the encrypted key, as eight bytes with the lowest first.\<close>

definition length_header :: "u64 \<Rightarrow> u8 list" where
  "length_header len = map (\<lambda>i. ucast (drop_bit (i * ENCRYPTED_KEY_LEN) len)) [0..<ENCRYPTED_KEY_LEN]"

definition encrypt ::
  "crypto \<Rightarrow> prelude_draws \<Rightarrow> SessionPrelude \<Rightarrow> string \<Rightarrow> (SessionPreludeError + u8 list) run" where
  "encrypt C d self plaintext =
    (let serialized_key = aes_key d; nonce = aes_nonce d in
     if 255 < length plaintext then Ret (Inl PlaintextTooLong)
     else if length (one_time_token self) \<noteq> 255 then Ret (Inl InvalidOTP)
     else
       (case rsa_public_from_pem C (pub_pkcs1_pem self) of
          Inl e \<Rightarrow> Ret (Inl PubKeyImportError)
        | Inr pubkey \<Rightarrow>
            (let plain_vec = string_to_vec_u8 plaintext in
             if length plain_vec \<noteq> 255 then Ret (Inl InternalError)
             else
               run_then (combine (one_time_token self) plain_vec) (\<lambda>mixed.
                 case aes_encrypt C serialized_key nonce mixed of
                   None \<Rightarrow> Panic
                 | Some encrypted_message \<Rightarrow>
                     (case rsa_encrypt C pubkey (rsa_padding d) serialized_key of
                        Inl e \<Rightarrow> Ret (Inl (RSAError e))
                      | Inr rsa_encrypted_key \<Rightarrow>
                          (if length nonce \<noteq> NONCE_LEN then Ret (Inl WrongNonceSize)
                           else Ret (Inr (length_header (of_nat (length rsa_encrypted_key))
                             @ nonce @ rsa_encrypted_key @ encrypted_message))))))))"

section \<open>decrypt\<close>

fun header_value :: "nat \<Rightarrow> u64 \<Rightarrow> u8 list \<Rightarrow> u64" where
  "header_value i value [] = value"
| "header_value i value (byte # bytes) =
    header_value (Suc i) (value OR push_bit (i * ENCRYPTED_KEY_LEN) (ucast byte)) bytes"

text \<open>A range of a slice: it panics when the range is reversed or ends beyond the slice.\<close>

definition slice :: "u8 list \<Rightarrow> nat \<Rightarrow> nat \<Rightarrow> u8 list run" where
  "slice xs a b = (if a \<le> b \<and> b \<le> length xs then Ret (take (b - a) (drop a xs)) else Panic)"

definition non_zero :: "u8 list \<Rightarrow> u8 list" where
  "non_zero bs = filter (\<lambda>ch. ch \<noteq> 0) bs"

text \<open>What follows once the parts of the message are cut out.\<close>

definition open_parts ::
  "crypto \<Rightarrow> rsa_private_key \<Rightarrow> u8 list \<Rightarrow> u8 list \<Rightarrow> u8 list \<Rightarrow>
   SessionPreludeError + u8 list \<times> u8 list" where
  "open_parts C priv_key nonce rsa_encrypted_key encrypted_message =
    and_then (map_err RSAError (rsa_decrypt C priv_key rsa_encrypted_key)) (\<lambda>serialized_key.
    if length serialized_key \<noteq> 32 then Inl KeyTooLong
    else and_then (ok_or (aes_decrypt C serialized_key nonce encrypted_message) AESError)
      (\<lambda>plaintext_mixed.
        if length plaintext_mixed \<noteq> 510 then Inl InvalidCiphertext
        else
          (let (otp, plaintext_long) = split plaintext_mixed in
           if length otp \<noteq> 255 then Inl InvalidCiphertext
           else Inr (otp, non_zero plaintext_long))))"

definition decrypt ::
  "bool \<Rightarrow> crypto \<Rightarrow> rsa_private_key \<Rightarrow> u8 list \<Rightarrow>
   (SessionPreludeError + u8 list \<times> u8 list) run" where
  "decrypt checks C priv_key ciphertext =
    (let ciphertext_len = length ciphertext in
     if ciphertext_len < ENCRYPTED_KEY_LEN then Ret (Inl InvalidCiphertext)
     else
       run_then (slice ciphertext 0 ENCRYPTED_KEY_LEN) (\<lambda>header.
       let rsa_encrypted_key_len = header_value 0 0 header;
           start = of_nat (ENCRYPTED_KEY_LEN + NONCE_LEN) in
       run_then (usize_add checks start rsa_encrypted_key_len) (\<lambda>part.
       run_then (usize_add checks part 510) (\<lambda>minimum.
       if ciphertext_len < unat minimum then Ret (Inl InvalidCiphertext)
       else
         run_then (slice ciphertext ENCRYPTED_KEY_LEN (ENCRYPTED_KEY_LEN + NONCE_LEN)) (\<lambda>nonce.
         run_then (usize_add checks start rsa_encrypted_key_len) (\<lambda>key_end.
         run_then (slice ciphertext (unat start) (unat key_end)) (\<lambda>rsa_encrypted_key.
         run_then (usize_add checks start rsa_encrypted_key_len) (\<lambda>msg_start.
         run_then (slice ciphertext (unat msg_start) ciphertext_len) (\<lambda>encrypted_message.
         Ret (open_parts C priv_key nonce rsa_encrypted_key encrypted_message))))))))))"

section \<open>Interleaving\<close>

lemma length_string_to_vec [simp]: "length (string_to_vec_u8 s) = 255"
  by (simp add: string_to_vec_u8_def Let_def)

lemma string_to_vec_short:
  "length s \<le> 255 \<Longrightarrow> string_to_vec_u8 s = as_bytes s @ replicate (255 - length s) 0"
  by (simp add: string_to_vec_u8_def Let_def)

text \<open>The interleaving as a list: the data bytes in the even places, the token bytes in the odd.\<close>

fun interleave :: "'a list \<Rightarrow> 'a list \<Rightarrow> 'a list" where
  "interleave (d # ds) (p # ps) = d # p # interleave ds ps"
| "interleave ds ps = []"

lemma combine_from_interleave:
  "i + length data \<le> length otp \<Longrightarrow>
   combine_from i otp data = Ret (interleave data (take (length data) (drop i otp)))"
proof (induction data arbitrary: i)
  case (Cons d data)
  then have i: "i < length otp" by simp
  then have "take (length (d # data)) (drop i otp)
      = otp ! i # take (length data) (drop (Suc i) otp)"
    by (simp add: Cons_nth_drop_Suc [symmetric])
  with Cons i show ?case by auto
qed simp

lemma combine_same_length:
  "length data = length otp \<Longrightarrow> combine otp data = Ret (interleave data otp)"
  by (simp add: combine_def combine_from_interleave)

lemma split_from_interleave:
  "length ds = length ps \<Longrightarrow> even i \<Longrightarrow>
   split_from i otp data (interleave ds ps) = (otp @ ps, data @ ds)"
proof (induction ds ps arbitrary: i otp data rule: list_induct2)
  case (Cons d ds p ps)
  then have "even (Suc (Suc i))" "i mod 2 = 0" "Suc i mod 2 \<noteq> 0" by presburger+
  with Cons show ?case by simp
qed simp

lemma split_interleave: "length ds = length ps \<Longrightarrow> split (interleave ds ps) = (ps, ds)"
  by (simp add: split_def split_from_interleave)

lemma length_interleave: "length ds = length ps \<Longrightarrow> length (interleave ds ps) = 2 * length ds"
  by (induction ds ps rule: list_induct2) simp_all

lemma split_from_lengths:
  "split_from i otp data xs = (otp', data') \<Longrightarrow>
   length otp' + length data' = length otp + length data + length xs
   \<and> set data' \<subseteq> set data \<union> set xs"
  by (induction xs arbitrary: i otp data) (fastforce split: if_splits)+

section \<open>The length header\<close>

lemma header_step:
  fixes v :: u64
  shows "take_bit (i * 8) v OR push_bit (i * 8) (ucast (ucast (drop_bit (i * 8) v) :: u8))
    = take_bit (Suc i * 8) v"
  by (rule bit_word_eqI) (auto simp: bit_simps)

lemma header_value_from:
  fixes v :: u64
  shows "header_value i (take_bit (i * 8) v)
      (map (\<lambda>j. ucast (drop_bit (j * ENCRYPTED_KEY_LEN) v)) [i..<i + k]) = take_bit ((i + k) * 8) v"
proof (induction k arbitrary: i)
  case (Suc k)
  have "[i..<i + Suc k] = i # [Suc i..<Suc i + k]" by (simp add: upt_rec)
  with Suc.IH [of "Suc i"] header_step [of i v] show ?case by (simp add: ENCRYPTED_KEY_LEN_def)
qed simp

lemma header_value_length_header: "header_value 0 0 (length_header v) = v"
proof -
  have "take_bit (8 * 8) v = v" by (rule bit_word_eqI) (simp add: bit_simps)
  with header_value_from [of 0 v 8] show ?thesis
    by (simp add: length_header_def ENCRYPTED_KEY_LEN_def)
qed

lemma length_length_header [simp]: "length (length_header v) = ENCRYPTED_KEY_LEN"
  by (simp add: length_header_def)

interpretation length_codec: codec length_header "\<lambda>bs. Inr (header_value 0 0 bs)" "\<lambda>_. True"
  by unfold_locales (simp add: header_value_length_header)

section \<open>Messages\<close>

lemma usize_add_unat:
  assumes "unat a + unat b < 2 ^ 64"
  obtains c where "usize_add checks a b = Ret c" "unat c = unat a + unat b"
proof -
  have "unat (a + b) = unat a + unat b"
    using assms by (simp add: unat_word_ariths(1))
  with assms that show ?thesis by (simp add: usize_add_def)
qed

lemma unat_start: "unat (of_nat (ENCRYPTED_KEY_LEN + NONCE_LEN) :: usize) = 20"
  by (simp add: ENCRYPTED_KEY_LEN_def NONCE_LEN_def)

lemma decrypt_framed:
  assumes "length nonce = NONCE_LEN" and "length key + 530 < 2 ^ 64" and "510 \<le> length msg"
  shows "decrypt checks C k (length_header (of_nat (length key)) @ nonce @ key @ msg)
    = Ret (open_parts C k nonce key msg)"
proof -
  let ?start = "of_nat (ENCRYPTED_KEY_LEN + NONCE_LEN) :: usize"
  define v :: usize where "v = of_nat (length key)"
  define ct where "ct = length_header v @ nonce @ key @ msg"
  have v: "unat v = length key"
    using assms(2) by (simp add: v_def unat_of_nat take_bit_nat_eq_self)
  obtain part where part: "usize_add checks ?start v = Ret part" "unat part = 20 + length key"
    using usize_add_unat [of ?start v checks] assms(2) v unat_start by auto
  obtain minimum where minimum: "usize_add checks part 510 = Ret minimum"
    "unat minimum = 530 + length key"
    using usize_add_unat [of part 510 checks] assms(2) part(2) by auto
  have parts: "slice ct 0 ENCRYPTED_KEY_LEN = Ret (length_header v)"
    "slice ct ENCRYPTED_KEY_LEN (ENCRYPTED_KEY_LEN + NONCE_LEN) = Ret nonce"
    "slice ct 20 (20 + length key) = Ret key"
    "slice ct (20 + length key) (length ct) = Ret msg"
    using assms(1) by (simp_all add: ct_def slice_def ENCRYPTED_KEY_LEN_def NONCE_LEN_def)
  have len: "\<not> length ct < ENCRYPTED_KEY_LEN" "\<not> length ct < 530 + length key"
    using assms(1,3) by (simp_all add: ct_def ENCRYPTED_KEY_LEN_def NONCE_LEN_def)
  have "decrypt checks C k ct = Ret (open_parts C k nonce key msg)"
    unfolding decrypt_def Let_def
    by (simp only: len parts minimum part unat_start header_value_length_header run_then_simps
        if_False)
  then show ?thesis by (simp add: ct_def v_def)
qed

lemma encrypt_decrypts:
  assumes "aes_correct C" and "aes_tagged C" and "rsa_correct C" and "pem_correct C"
    and "crypto_total C" and "prelude_draws_ok d"
    and "rsa_public_to_pem C (rsa_public C k) = Inr pem"
    and "rsa_encrypt C (rsa_public C k) (rsa_padding d) (aes_key d) = Inr enc_key"
    and "length enc_key + 530 < 2 ^ 64" and "length pw \<le> 255"
  shows "\<exists>ct. encrypt C d (SessionPrelude_new random pem) pw = Ret (Inr ct)
    \<and> decrypt checks C k ct = Ret (Inr (map random [0..<255], non_zero (as_bytes pw)))
    \<and> (no_nul (as_bytes pw) \<longrightarrow> non_zero (as_bytes pw) = as_bytes pw)"
proof -
  let ?tok = "map random [0..<255]" and ?vec = "string_to_vec_u8 pw"
  have lens: "length ?vec = length ?tok" by simp
  have pubkey: "rsa_public_from_pem C pem = Inr (rsa_public C k)"
    by (rule pem_correctD [OF assms(4,7)])
  obtain msg where msg: "aes_encrypt C (aes_key d) (aes_nonce d) (interleave ?vec ?tok) = Some msg"
    using crypto_total_aes [OF assms(5)] assms(6) unfolding prelude_draws_ok_def by blast
  then have "length msg = 526"
    using aes_taggedD [OF assms(2) msg] length_interleave [OF lens] by simp
  moreover have enc: "encrypt C d (SessionPrelude_new random pem) pw
      = Ret (Inr (length_header (of_nat (length enc_key)) @ aes_nonce d @ enc_key @ msg))"
    using assms(6,8,10) pubkey msg
    by (simp add: encrypt_def SessionPrelude_new_def Let_def combine_same_length prelude_draws_ok_def
        NONCE_LEN_def)
  moreover have "open_parts C k (aes_nonce d) enc_key msg = Inr (?tok, non_zero ?vec)"
    using rsa_correctD [OF assms(3,8)] aes_correctD [OF assms(1) msg] assms(6)
      length_interleave [OF lens] split_interleave [OF lens]
    by (simp add: open_parts_def prelude_draws_ok_def)
  moreover have "non_zero ?vec = non_zero (as_bytes pw)"
    using assms(10) by (simp add: string_to_vec_short non_zero_def)
  moreover have "no_nul bs \<Longrightarrow> non_zero bs = bs" for bs
    by (simp add: no_nul_def non_zero_def filter_id_conv) metis
  ultimately show ?thesis
    using decrypt_framed [of "aes_nonce d" enc_key msg checks C k] assms(6,9)
    by (simp add: prelude_draws_ok_def NONCE_LEN_def)
qed

text \<open>
  C14: the service reads what the client encrypted. For a client that got the public key of the
  service's private key and a token of 255 bytes, a password of at most 255 bytes is encrypted, and
  decryption, with and without overflow checks, returns the token and the bytes of the password
  without its zero bytes; so the password itself when it has none.
\<close>

theorem encrypt_decrypt_roundtrip:
  assumes "aes_correct C" and "aes_tagged C" and "rsa_correct C" and "pem_correct C"
    and "crypto_total C" and "prelude_draws_ok d"
    and "rsa_public_to_pem C (rsa_public C k) = Inr pem"
    and "rsa_encrypt C (rsa_public C k) (rsa_padding d) (aes_key d) = Inr enc_key"
    and "length enc_key + 530 < 2 ^ 64" and "length pw \<le> 255"
  shows "\<exists>ct. encrypt C d (SessionPrelude_new random pem) pw = Ret (Inr ct)
    \<and> decrypt checks C k ct = Ret (Inr (map random [0..<255], non_zero (as_bytes pw)))
    \<and> (no_nul (as_bytes pw) \<longrightarrow> non_zero (as_bytes pw) = as_bytes pw)"
  by (rule encrypt_decrypts [OF assms])

section \<open>Errors\<close>

text \<open>
  Encrypt refuses exactly what it cannot send. With working cryptography it never panics, and it
  succeeds exactly for passwords of at most 255 bytes, tokens of 255 bytes, a public key that parses
  and a key that RSA encrypts; the first of these that fails decides the error.
\<close>

theorem encrypt_outcome:
  assumes "crypto_total C" and "prelude_draws_ok d"
  shows "encrypt C d self pw \<noteq> Panic
    \<and> ((\<exists>ct. encrypt C d self pw = Ret (Inr ct)) \<longleftrightarrow>
        length pw \<le> 255 \<and> length (one_time_token self) = 255
        \<and> (\<exists>pk ek. rsa_public_from_pem C (pub_pkcs1_pem self) = Inr pk
             \<and> rsa_encrypt C pk (rsa_padding d) (aes_key d) = Inr ek))
    \<and> (encrypt C d self pw = Ret (Inl PlaintextTooLong) \<longleftrightarrow> 255 < length pw)
    \<and> (encrypt C d self pw = Ret (Inl InvalidOTP) \<longleftrightarrow>
        length pw \<le> 255 \<and> length (one_time_token self) \<noteq> 255)"
proof (cases "length pw \<le> 255 \<and> length (one_time_token self) = 255")
  case True
  then have lens: "length (string_to_vec_u8 pw) = length (one_time_token self)" by simp
  obtain msg where "aes_encrypt C (aes_key d) (aes_nonce d)
      (interleave (string_to_vec_u8 pw) (one_time_token self)) = Some msg"
    using crypto_total_aes [OF assms(1)] assms(2) unfolding prelude_draws_ok_def by blast
  with True assms(2) show ?thesis
    by (auto simp: encrypt_def Let_def combine_same_length [OF lens] prelude_draws_ok_def NONCE_LEN_def
        split: sum.splits)
next
  case False
  then show ?thesis by (auto simp: encrypt_def Let_def)
qed

lemma open_parts_Inr:
  assumes "open_parts C k nonce key msg = Inr (otp, pw)"
  shows "length otp = 255 \<and> length pw \<le> 255 \<and> 0 \<notin> set pw"
proof -
  obtain mixed data where "length mixed = 510" and data: "split mixed = (otp, data)" "length otp = 255"
    and pw: "pw = non_zero data"
    using assms
    by (auto simp: open_parts_def and_then_eq_Inr Let_def split: if_splits prod.splits)
  then have "length data = 255"
    using split_from_lengths [of 0 "[]" "[]" mixed otp data] by (simp add: split_def)
  then have "length (non_zero data) \<le> 255"
    unfolding non_zero_def by (metis length_filter_le)
  with data(2) pw show ?thesis by (simp add: non_zero_def)
qed

lemma run_then_eq_Ret: "run_then r f = Ret y \<longleftrightarrow> (\<exists>x. r = Ret x \<and> f x = Ret y)"
  by (cases r) simp_all

lemma run_then_eq_Panic: "run_then r f = Panic \<longleftrightarrow> r = Panic \<or> (\<exists>x. r = Ret x \<and> f x = Panic)"
  by (cases r) simp_all

text \<open>
  What decryption hands on. Whatever bytes arrive and whatever the cryptography does, a
  successful decryption returns a token of exactly 255 bytes and a password of at most 255 bytes
  without zero bytes.
\<close>

theorem decrypt_shape:
  "decrypt checks C k ct = Ret (Inr (otp, pw)) \<Longrightarrow> length otp = 255 \<and> length pw \<le> 255 \<and> 0 \<notin> set pw"
  by (auto simp: decrypt_def Let_def run_then_eq_Ret split: if_splits dest: open_parts_Inr)

text \<open>
  The declared key length of a message decides whether decryption survives it.
\<close>

definition declared_len :: "u8 list \<Rightarrow> nat" where
  "declared_len ct = unat (header_value 0 0 (take ENCRYPTED_KEY_LEN ct))"

lemma decrypt_short: "length ct < ENCRYPTED_KEY_LEN \<Longrightarrow> decrypt checks C k ct = Ret (Inl InvalidCiphertext)"
  by (simp add: decrypt_def)

lemma slice_header:
  "ENCRYPTED_KEY_LEN \<le> length ct \<Longrightarrow> slice ct 0 ENCRYPTED_KEY_LEN = Ret (take ENCRYPTED_KEY_LEN ct)"
  by (simp add: slice_def)

lemma decrypt_fits:
  assumes "ENCRYPTED_KEY_LEN \<le> length ct" and "declared_len ct + 530 < 2 ^ 64"
  shows "decrypt checks C k ct \<noteq> Panic"
proof -
  let ?start = "of_nat (ENCRYPTED_KEY_LEN + NONCE_LEN) :: usize"
  define v where "v = header_value 0 0 (take ENCRYPTED_KEY_LEN ct)"
  have v: "unat v = declared_len ct" by (simp add: v_def declared_len_def)
  obtain part where part: "usize_add checks ?start v = Ret part" "unat part = 20 + unat v"
    using usize_add_unat [of ?start v checks] assms(2) v unat_start by auto
  obtain minimum where minimum: "usize_add checks part 510 = Ret minimum" "unat minimum = 530 + unat v"
    using usize_add_unat [of part 510 checks] assms(2) v part(2) by auto
  show ?thesis
    unfolding decrypt_def Let_def slice_header [OF assms(1)] run_then_simps v_def [symmetric]
      part(1) minimum(1) unat_start part(2) minimum(2)
    by (auto simp: slice_def ENCRYPTED_KEY_LEN_def NONCE_LEN_def)
qed

lemma unat_add_wraps:
  fixes a b :: usize
  assumes "2 ^ 64 \<le> unat a + unat b"
  shows "unat (a + b) + 2 ^ 64 = unat a + unat b"
proof -
  have "unat a < 2 ^ 64" "unat b < 2 ^ 64"
    using unsigned_less [of a] unsigned_less [of b] by simp_all
  moreover have "unat (a + b) = (unat a + unat b) mod 2 ^ 64"
    by (simp add: unat_word_ariths(1))
  moreover have "(unat a + unat b) mod 2 ^ 64 = unat a + unat b - 2 ^ 64"
    using assms calculation(1,2) by (simp add: mod_if)
  ultimately show ?thesis using assms by simp
qed

lemma decrypt_overflows_checked:
  assumes "ENCRYPTED_KEY_LEN \<le> length ct" and "2 ^ 64 \<le> declared_len ct + 530"
  shows "decrypt True C k ct = Panic"
proof -
  let ?start = "of_nat (ENCRYPTED_KEY_LEN + NONCE_LEN) :: usize"
  define v where "v = header_value 0 0 (take ENCRYPTED_KEY_LEN ct)"
  have v: "2 ^ 64 \<le> unat v + 530" using assms(2) by (simp add: v_def declared_len_def)
  have "run_then (usize_add True ?start v) (\<lambda>part. run_then (usize_add True part 510) f) = Panic" for f :: "usize \<Rightarrow> (SessionPreludeError + u8 list \<times> u8 list) run"
  proof (cases "unat ?start + unat v < 2 ^ 64")
    case True
    then obtain part where "usize_add True ?start v = Ret part" "unat part = 20 + unat v"
      using usize_add_unat [of ?start v True] unat_start by auto
    with v show ?thesis by (simp add: usize_add_def)
  qed (simp add: usize_add_def)
  then show ?thesis
    by (simp add: decrypt_def Let_def slice_header [OF assms(1)] v_def [symmetric] assms(1) not_less)
qed

lemma decrypt_overflows_unchecked:
  assumes "ENCRYPTED_KEY_LEN \<le> length ct" and "2 ^ 64 \<le> declared_len ct + 530" and "length ct < 2 ^ 63"
  shows "decrypt False C k ct =
    (if length ct + 2 ^ 64 < declared_len ct + 530 then Ret (Inl InvalidCiphertext) else Panic)"
proof -
  let ?start = "of_nat (ENCRYPTED_KEY_LEN + NONCE_LEN) :: usize"
  define v where "v = header_value 0 0 (take ENCRYPTED_KEY_LEN ct)"
  have v: "unat v = declared_len ct" by (simp add: v_def declared_len_def)
  have "unat (?start + v + 510) + 2 ^ 64 = unat (?start + 510 + v) + 2 ^ 64"
    by (simp add: add.assoc add.commute)
  also have "\<dots> = 530 + unat v"
  proof -
    have "unat (?start + 510) = 530" by (simp add: ENCRYPTED_KEY_LEN_def NONCE_LEN_def)
    with unat_add_wraps [of "?start + 510" v] assms(2) v show ?thesis by simp
  qed
  finally have minimum: "unat (?start + v + 510) + 2 ^ 64 = declared_len ct + 530"
    using v by simp
  have cut: "slice ct (unat ?start) (unat (?start + v)) = Panic"
  proof (cases "unat ?start + unat v < 2 ^ 64")
    case True
    then have "unat (?start + v) = 20 + unat v"
      using unat_start by (simp add: unat_word_ariths(1))
    with assms(2,3) v show ?thesis by (simp add: slice_def)
  next
    case False
    then have "unat (?start + v) + 2 ^ 64 = 20 + unat v"
      using unat_add_wraps [of ?start v] unat_start by simp
    moreover have "unat v < 2 ^ 64" using unsigned_less [of v] by simp
    ultimately show ?thesis using unat_start by (simp add: slice_def)
  qed
  show ?thesis
    using minimum cut assms(1)
    by (cases "slice ct ENCRYPTED_KEY_LEN (ENCRYPTED_KEY_LEN + NONCE_LEN)")
      (auto simp: decrypt_def Let_def slice_header v_def [symmetric] usize_add_def run_then_eq_Panic
        not_less)
qed

text \<open>
  C21: which messages crash the service. For a message in memory, decryption panics exactly when the
  eight bytes at its head declare a key length within 530 of the largest 64-bit number and the sum of
  lengths is either checked for overflow, or wraps around to something the message is long enough for.
  Every other message, well-formed or not, ends in a result.
\<close>

theorem decrypt_panics_iff:
  assumes "length ct < 2 ^ 63"
  shows "decrypt checks C k ct = Panic \<longleftrightarrow>
    ENCRYPTED_KEY_LEN \<le> length ct \<and> 2 ^ 64 \<le> declared_len ct + 530
    \<and> (checks \<or> declared_len ct + 530 \<le> length ct + 2 ^ 64)"
proof (cases "ENCRYPTED_KEY_LEN \<le> length ct \<and> 2 ^ 64 \<le> declared_len ct + 530")
  case True
  then show ?thesis
    using decrypt_overflows_checked decrypt_overflows_unchecked [OF _ _ assms]
    by (cases checks) auto
next
  case False
  then show ?thesis
    using decrypt_fits [of ct checks C k] decrypt_short [of ct checks C k] by fastforce
qed

section \<open>Instances\<close>

definition toy_prelude_draws :: prelude_draws where
  "toy_prelude_draws =
    \<lparr>aes_key = replicate 32 7, aes_nonce = replicate 12 9, rsa_padding = []\<rparr>"

lemma toy_prelude_draws_ok [simp]: "prelude_draws_ok toy_prelude_draws"
  by (simp add: prelude_draws_ok_def toy_prelude_draws_def)

theorem encrypt_decrypt_roundtrip_witness:
  "\<exists>ct. encrypt toy_crypto toy_prelude_draws (SessionPrelude_new of_nat ''pem'') ''secret'' = Ret (Inr ct)
    \<and> decrypt True toy_crypto (as_bytes ''pem'') ct
        = Ret (Inr (map of_nat [0..<255], as_bytes ''secret''))"
proof -
  have "rsa_public_to_pem toy_crypto (rsa_public toy_crypto (as_bytes ''pem'')) = Inr ''pem''"
    by (simp add: toy_crypto_def del: as_bytes_Cons)
  moreover have "rsa_encrypt toy_crypto (rsa_public toy_crypto (as_bytes ''pem''))
      (rsa_padding toy_prelude_draws) (aes_key toy_prelude_draws) = Inr (replicate 32 7)"
    by (simp add: toy_crypto_def toy_prelude_draws_def)
  moreover have "no_nul (as_bytes ''secret'')" by (simp add: no_nul_def)
  ultimately show ?thesis
    using encrypt_decrypt_roundtrip [of toy_crypto toy_prelude_draws "as_bytes ''pem''" "''pem''"
        "replicate 32 7" "''secret''" of_nat True]
    by auto
qed

theorem encrypt_outcome_witness:
  "encrypt toy_crypto toy_prelude_draws \<lparr>pub_pkcs1_pem = ''pem'', one_time_token = [1]\<rparr> ''pw''
     = Ret (Inl InvalidOTP)
   \<and> (\<exists>ct. encrypt toy_crypto toy_prelude_draws (SessionPrelude_new of_nat ''pem'') ''pw'' = Ret (Inr ct))"
proof -
  have "\<exists>pk ek. rsa_public_from_pem toy_crypto ''pem'' = Inr pk
      \<and> rsa_encrypt toy_crypto pk (rsa_padding toy_prelude_draws) (aes_key toy_prelude_draws) = Inr ek"
    by (simp add: toy_crypto_def)
  then show ?thesis
    using encrypt_outcome [OF toy_crypto_total toy_prelude_draws_ok,
        of "\<lparr>pub_pkcs1_pem = ''pem'', one_time_token = [1]\<rparr>" "''pw''"]
      encrypt_outcome [OF toy_crypto_total toy_prelude_draws_ok,
        of "SessionPrelude_new of_nat ''pem''" "''pw''"]
    by (simp add: SessionPrelude_new_def)
qed

theorem decrypt_shape_witness:
  "\<exists>ct otp pw. decrypt False toy_crypto [] ct = Ret (Inr (otp, pw))
     \<and> length otp = 255 \<and> length pw \<le> 255 \<and> 0 \<notin> set pw"
proof -
  let ?d = "toy_prelude_draws"
  obtain msg where msg: "aes_encrypt toy_crypto (aes_key ?d) (aes_nonce ?d) (replicate 510 0) = Some msg"
    by (simp add: toy_crypto_def)
  then have len: "length msg = 526" using aes_taggedD [OF toy_aes_tagged msg] by simp
  obtain otp data where split: "split (replicate 510 0) = (otp, data)" by fastforce
  have "split (interleave (replicate 255 0) (replicate 255 (0 :: u8))) = (replicate 255 0, replicate 255 0)"
    by (rule split_interleave) simp
  moreover have "interleave (replicate n 0) (replicate n (0 :: u8)) = replicate (2 * n) 0" for n
    by (induction n) simp_all
  from this [of 255] have "interleave (replicate 255 0) (replicate 255 (0 :: u8)) = replicate 510 0"
    by simp
  ultimately have "split (replicate 510 0) = (replicate 255 0, replicate 255 0)" by simp
  then have "open_parts toy_crypto [] (aes_nonce ?d) (aes_key ?d) msg = Inr (replicate 255 0, [])"
    using aes_correctD [OF toy_aes_correct msg]
    by (simp add: open_parts_def toy_crypto_def toy_prelude_draws_def non_zero_def)
  then have "decrypt False toy_crypto []
      (length_header (of_nat (length (aes_key ?d))) @ aes_nonce ?d @ aes_key ?d @ msg)
      = Ret (Inr (replicate 255 0, []))"
    using decrypt_framed [of "aes_nonce ?d" "aes_key ?d" msg False toy_crypto "[]"] len
    by (simp add: toy_prelude_draws_def NONCE_LEN_def)
  with decrypt_shape [OF this] show ?thesis by blast
qed

theorem decrypt_panics_iff_witness:
  "decrypt True toy_crypto [] (replicate 8 255) = Panic
   \<and> decrypt False toy_crypto [] (replicate 8 255) \<noteq> Panic
   \<and> decrypt False toy_crypto [] (replicate 600 255) = Panic"
proof -
  have "replicate 8 (255 :: u8) = [255, 255, 255, 255, 255, 255, 255, 255]"
    by (simp add: numeral_eq_Suc)
  then have header: "header_value 0 0 (replicate 8 255) = - 1"
    by (simp add: ENCRYPTED_KEY_LEN_def)
  have "declared_len (replicate 8 255 @ xs) = 2 ^ 64 - 1" for xs
    by (simp add: declared_len_def ENCRYPTED_KEY_LEN_def header unsigned_minus_1_eq_mask mask_eq_exp_minus_1)
  from this [of "[]"] this [of "replicate 592 255"]
  have "declared_len (replicate 8 255) = 2 ^ 64 - 1" "declared_len (replicate 600 255) = 2 ^ 64 - 1"
    by (simp_all flip: replicate_add)
  then show ?thesis
    using decrypt_panics_iff [of "replicate 8 255" True toy_crypto "[]"]
      decrypt_panics_iff [of "replicate 8 255" False toy_crypto "[]"]
      decrypt_panics_iff [of "replicate 600 255" False toy_crypto "[]"]
    by (simp add: ENCRYPTED_KEY_LEN_def)
qed

section \<open>The loops of combine and split\<close>

lemma split_from_nths:
  "split_from i otp data xs = (otp @ nths xs {j. odd (i + j)}, data @ nths xs {j. even (i + j)})"
proof (induction xs arbitrary: i otp data)
  case (Cons x xs)
  have "i mod 2 = 0 \<longleftrightarrow> even i" by presburger
  then show ?case using Cons.IH [of "Suc i"] by (simp add: nths_Cons)
qed simp

lemma combine_from_cyclic:
  "otp \<noteq> [] \<Longrightarrow> combine_from i otp data
     = Ret (interleave data (map (\<lambda>j. otp ! (j mod length otp)) [i..<i + length data]))"
proof (induction data arbitrary: i)
  case (Cons d data)
  have "[i..<i + length (d # data)] = i # [Suc i..<Suc i + length data]" by (simp add: upt_rec)
  with Cons show ?case by (simp del: upt_Suc)
qed simp

text \<open>
  The two loops over indices. split hands out the bytes at odd places as the token and those at
  even places as the data; combine interleaves the data with the token, which is repeated when the
  data is longer, and panics exactly for data with an empty token.
\<close>

theorem combine_split_reference:
  "split xs = (nths xs {j. odd j}, nths xs {j. even j})
   \<and> combine otp data =
       (if otp = [] \<and> data \<noteq> [] then Panic
        else Ret (interleave data (map (\<lambda>j. otp ! (j mod length otp)) [0..<length data])))"
  using split_from_nths [of 0 "[]" "[]" xs] combine_from_cyclic [of otp 0 data]
  by (cases data) (simp_all add: split_def combine_def del: upt_Suc)

end
