(* ===== verification/Storage.thy ===== *)
theory Storage
  imports Disk UserAuth MountPoints
begin

text \<open>
  The configuration file of a user (src/storage.rs): one JSON object with a section for the session
  command (src/command.rs), one for the authentication data and one for the mount points. Every store
  reads the file, replaces its section and writes the whole file back.
\<close>

section \<open>Data\<close>

record SessionCommand =
  cmd :: string

definition SessionCommand_new :: "string \<Rightarrow> SessionCommand" where
  "SessionCommand_new c = \<lparr>cmd = c\<rparr>"

definition SessionCommand_command :: "SessionCommand \<Rightarrow> string" where
  "SessionCommand_command self = cmd self"

datatype StorageError =
    UnhandledVersion
  | UserDiscoveryError
  | IoError ext_error
  | StorageJsonError ext_error
  | StorageSerializationError ext_error
  | DeserializationError

datatype StorageSource = Username string | File path

definition POLYAUTH_CONFIG_DIR :: path where
  "POLYAUTH_CONFIG_DIR = ''/etc/polyauth''"

record MountPointSerialized =
  ser_fstype :: string
  ser_device :: string
  ser_directory :: string
  ser_args :: "string list"

record MountPointsConfig =
  cfg_home :: MountPointSerialized
  cfg_additional :: "MountPointSerialized list"

record SecondaryAuthItem =
  item_name :: string
  item_creation_date :: u64
  item_auth_type :: u32
  item_password :: string

record AuthDataSerialized =
  ser_main :: "string option"
  ser_secondary :: "SecondaryAuthItem list"

record UserConfig =
  version :: u32
  session_command :: "SessionCommand option"
  auth_data :: "AuthDataSerialized option"
  mountpoints :: "MountPointsConfig option"

definition UserConfig_new :: UserConfig where
  "UserConfig_new =
    \<lparr>version = 0, session_command = None, auth_data = None, mountpoints = None\<rparr>"

definition MountPointSerialized_from :: "string \<times> MountParams \<Rightarrow> MountPointSerialized" where
  "MountPointSerialized_from mount_param =
    \<lparr>ser_fstype = fstype (snd mount_param), ser_device = device (snd mount_param),
     ser_directory = fst mount_param, ser_args = flags (snd mount_param)\<rparr>"

definition MountParams_from_serialized :: "MountPointSerialized \<Rightarrow> string \<times> MountParams" where
  "MountParams_from_serialized serialized =
    (ser_directory serialized,
     MountParams_new (ser_device serialized) (ser_fstype serialized) (ser_args serialized))"

text \<open>
  The crates that turn these values into text and bytes (JSON, base64 and bytevec2), and what the
  clock returns.
\<close>

record storage_crates =
  config_to_string_pretty :: "UserConfig \<Rightarrow> ext_error + string"
  config_from_str :: "string \<Rightarrow> ext_error + UserConfig"
  b64_encode :: "u8 list \<Rightarrow> string"
  b64_decode :: "string \<Rightarrow> ext_error + u8 list"
  encode_main :: "MainPassword \<Rightarrow> ext_error + u8 list"
  decode_main :: "u8 list \<Rightarrow> ext_error + MainPassword"
  encode_secondary :: "SecondaryPassword \<Rightarrow> ext_error + u8 list"
  decode_secondary :: "u8 list \<Rightarrow> ext_error + SecondaryPassword"
  now_since_epoch :: "ext_error + u64"

section \<open>The file\<close>

definition config_path_for_username :: "string \<Rightarrow> path" where
  "config_path_for_username username = path_join POLYAUTH_CONFIG_DIR (username @ ''.json'')"

definition config_path_from_source :: "StorageSource \<Rightarrow> path" where
  "config_path_from_source source =
    (case source of Username username \<Rightarrow> config_path_for_username username | File p \<Rightarrow> p)"

definition load_config_from_source ::
  "storage_crates \<Rightarrow> sys \<Rightarrow> world \<Rightarrow> StorageSource \<Rightarrow> StorageError + UserConfig option" where
  "load_config_from_source K S w source =
    (let config_path = config_path_from_source source in
     if \<not> path_exists w config_path then Inr None
     else
       and_then (map_err IoError (read_to_string utf8_valid S w config_path)) (\<lambda>contents.
       and_then (map_err StorageJsonError (config_from_str K contents)) (\<lambda>config.
       Inr (Some config))))"

definition save_config_to_source ::
  "storage_crates \<Rightarrow> sys \<Rightarrow> world \<Rightarrow> StorageSource \<Rightarrow> UserConfig \<Rightarrow> u32 option \<Rightarrow> u32 option \<Rightarrow>
   (StorageError + unit) \<times> world" where
  "save_config_to_source K S w source config uid gid =
    (let config_path = config_path_from_source source;
         (made, w1) =
           (case path_parent config_path of
              Some parent \<Rightarrow>
                if \<not> path_exists w parent then create_dir_all S w parent else (Inr (), w)
            | None \<Rightarrow> (Inr (), w)) in
     case made of
       Inl e \<Rightarrow> (Inl (IoError e), w1)
     | Inr u \<Rightarrow>
         (case config_to_string_pretty K config of
            Inl e \<Rightarrow> (Inl (StorageJsonError e), w1)
          | Inr contents \<Rightarrow>
              (case fs_write S w1 config_path (as_bytes contents) of
                 (Inl e, w2) \<Rightarrow> (Inl (IoError e), w2)
               | (Inr u, w2) \<Rightarrow>
                   (if uid \<noteq> None then
                      (case chown S w2 config_path uid gid of
                         (Inl e, w3) \<Rightarrow> (Inl (IoError e), w3)
                       | (Inr u, w3) \<Rightarrow> (Inr (), w3))
                    else (Inr (), w2)))))"

definition config_or_new :: "UserConfig option \<Rightarrow> UserConfig" where
  "config_or_new c = (case c of Some config \<Rightarrow> config | None \<Rightarrow> UserConfig_new)"

definition remove_user_data :: "sys \<Rightarrow> world \<Rightarrow> StorageSource \<Rightarrow> (StorageError + unit) \<times> world" where
  "remove_user_data S w source =
    (let config_path = config_path_from_source source in
     if path_exists w config_path then
       (case remove_file S w config_path of
          (Inl e, w1) \<Rightarrow> (Inl (IoError e), w1)
        | (Inr u, w1) \<Rightarrow> (Inr (), w1))
     else (Inr (), w))"

section \<open>Session command\<close>

definition load_user_session_command ::
  "storage_crates \<Rightarrow> sys \<Rightarrow> world \<Rightarrow> StorageSource \<Rightarrow> StorageError + SessionCommand option" where
  "load_user_session_command K S w source =
    and_then (load_config_from_source K S w source) (\<lambda>config.
    Inr (Option.bind config session_command))"

definition store_user_session_command ::
  "storage_crates \<Rightarrow> sys \<Rightarrow> world \<Rightarrow> SessionCommand \<Rightarrow> StorageSource \<Rightarrow> u32 option \<Rightarrow> u32 option \<Rightarrow>
   (StorageError + unit) \<times> world" where
  "store_user_session_command K S w settings source uid gid =
    (case load_config_from_source K S w source of
       Inl e \<Rightarrow> (Inl e, w)
     | Inr c \<Rightarrow>
         (let config = (config_or_new c)\<lparr>session_command := Some settings\<rparr> in
          save_config_to_source K S w source config uid gid))"

section \<open>Authentication data\<close>

fun load_secondary ::
  "storage_crates \<Rightarrow> UserAuthData \<Rightarrow> SecondaryAuthItem list \<Rightarrow> StorageError + UserAuthData" where
  "load_secondary K data [] = Inr data"
| "load_secondary K data (item # rest) =
    and_then (map_err (\<lambda>_. DeserializationError) (b64_decode K (item_password item)))
      (\<lambda>password_bytes.
    and_then (map_err StorageSerializationError (decode_secondary K password_bytes)) (\<lambda>password.
    if item_auth_type item = 0 then
      let secondary_auth =
        new_password (now_since_epoch K) (item_name item) (Some (item_creation_date item)) password in
      load_secondary K (push_secondary data secondary_auth) rest
    else Inl DeserializationError))"

definition load_user_auth_data ::
  "storage_crates \<Rightarrow> sys \<Rightarrow> world \<Rightarrow> StorageSource \<Rightarrow> StorageError + UserAuthData option" where
  "load_user_auth_data K S w source =
    and_then (load_config_from_source K S w source) (\<lambda>config.
    case config of
      None \<Rightarrow> Inr None
    | Some c \<Rightarrow>
        (case auth_data c of
           None \<Rightarrow> Inr None
         | Some auth_data_ser \<Rightarrow>
             (case ser_main auth_data_ser of
                None \<Rightarrow> Inr None
              | Some main_b64 \<Rightarrow>
                  and_then (map_err (\<lambda>_. DeserializationError) (b64_decode K main_b64))
                    (\<lambda>main_bytes.
                  and_then (map_err StorageSerializationError (decode_main K main_bytes)) (\<lambda>m.
                  and_then (load_secondary K (push_main UserAuthData_new m) (ser_secondary auth_data_ser))
                    (\<lambda>data. Inr (Some data)))))))"

definition secondary_item ::
  "storage_crates \<Rightarrow> SecondaryAuth \<Rightarrow> StorageError + SecondaryAuthItem" where
  "secondary_item K val =
    (case auth_method val of
       Password secondary_password \<Rightarrow>
         and_then (map_err StorageSerializationError (encode_secondary K secondary_password))
           (\<lambda>password_bytes.
         Inr \<lparr>item_name = auth_name val, item_creation_date = creation_date val, item_auth_type = 0,
              item_password = b64_encode K password_bytes\<rparr>))"

definition serialize_auth_data ::
  "storage_crates \<Rightarrow> UserAuthData \<Rightarrow> StorageError + AuthDataSerialized" where
  "serialize_auth_data K data =
    and_then
      (case main_password data of
         Some m \<Rightarrow>
           and_then (map_err StorageSerializationError (encode_main K m)) (\<lambda>main_bytes.
           Inr (Some (b64_encode K main_bytes)))
       | None \<Rightarrow> Inr None) (\<lambda>main_b64.
    and_then (try_map (secondary_item K) (auth data)) (\<lambda>secondary.
    Inr \<lparr>ser_main = main_b64, ser_secondary = secondary\<rparr>))"

definition store_user_auth_data ::
  "storage_crates \<Rightarrow> sys \<Rightarrow> world \<Rightarrow> UserAuthData \<Rightarrow> StorageSource \<Rightarrow> u32 option \<Rightarrow> u32 option \<Rightarrow>
   (StorageError + unit) \<times> world" where
  "store_user_auth_data K S w data source uid gid =
    (case load_config_from_source K S w source of
       Inl e \<Rightarrow> (Inl e, w)
     | Inr c \<Rightarrow>
         (case serialize_auth_data K data of
            Inl e \<Rightarrow> (Inl e, w)
          | Inr ser \<Rightarrow>
              save_config_to_source K S w source ((config_or_new c)\<lparr>auth_data := Some ser\<rparr>) uid gid))"

section \<open>Mount points\<close>

fun insert_mounts ::
  "(string \<rightharpoonup> MountParams) \<Rightarrow> MountPointSerialized list \<Rightarrow> string \<rightharpoonup> MountParams" where
  "insert_mounts ms [] = ms"
| "insert_mounts ms (mount_ser # rest) =
    (let mount_params =
       MountParams_new (ser_device mount_ser) (ser_fstype mount_ser) (ser_args mount_ser) in
     insert_mounts (ms(ser_directory mount_ser \<mapsto> mount_params)) rest)"

definition load_user_mountpoints ::
  "storage_crates \<Rightarrow> sys \<Rightarrow> world \<Rightarrow> StorageSource \<Rightarrow> StorageError + MountPoints option" where
  "load_user_mountpoints K S w source =
    and_then (load_config_from_source K S w source) (\<lambda>config.
    case config of
      None \<Rightarrow> Inr None
    | Some c \<Rightarrow>
        (case mountpoints c of
           None \<Rightarrow> Inr None
         | Some mountpoints_cfg \<Rightarrow>
             (let h = cfg_home mountpoints_cfg;
                  home_mount = MountParams_new (ser_device h) (ser_fstype h) (ser_args h) in
              Inr (Some (MountPoints_new home_mount
                (insert_mounts Map.empty (cfg_additional mountpoints_cfg)))))))"

text \<open>\<open>ks\<close> is the enumeration order of the map of additional mounts.\<close>

definition serialize_mountpoints :: "string list \<Rightarrow> MountPoints \<Rightarrow> MountPointsConfig" where
  "serialize_mountpoints ks mp =
    \<lparr>cfg_home = \<lparr>ser_fstype = fstype (home mp), ser_device = device (home mp), ser_directory = [],
                 ser_args = flags (home mp)\<rparr>,
     cfg_additional = foreach mp ks (\<lambda>dir params.
       \<lparr>ser_fstype = fstype params, ser_device = device params, ser_directory = dir,
        ser_args = flags params\<rparr>)\<rparr>"

definition store_user_mountpoints ::
  "storage_crates \<Rightarrow> sys \<Rightarrow> world \<Rightarrow> string list \<Rightarrow> MountPoints option \<Rightarrow> StorageSource \<Rightarrow>
   u32 option \<Rightarrow> u32 option \<Rightarrow> (StorageError + unit) \<times> world" where
  "store_user_mountpoints K S w ks mountpoints_data source uid gid =
    (case load_config_from_source K S w source of
       Inl e \<Rightarrow> (Inl e, w)
     | Inr c \<Rightarrow>
         (case mountpoints_data of
            None \<Rightarrow>
              save_config_to_source K S w source ((config_or_new c)\<lparr>mountpoints := None\<rparr>) uid gid
          | Some mp \<Rightarrow>
              save_config_to_source K S w source
                ((config_or_new c)\<lparr>mountpoints := Some (serialize_mountpoints ks mp)\<rparr>) uid gid))"

section \<open>Paths\<close>

lemma length_drop_last: "length (rev (dropWhile P (rev xs))) \<le> length xs"
  by (metis length_dropWhile_le length_rev)

lemma length_drop_last_less:
  assumes "xs \<noteq> []" and "P (last xs)"
  shows "length (rev (dropWhile P (rev xs))) < length xs"
proof -
  obtain ys y where xs: "xs = ys @ [y]" using assms(1) by (metis append_butlast_last_id)
  have "length (dropWhile P (rev ys)) \<le> length ys" by (metis length_dropWhile_le length_rev)
  with xs assms(2) show ?thesis by simp
qed

lemma last_drop_last: "rev (dropWhile P (rev xs)) \<noteq> [] \<Longrightarrow> \<not> P (last (rev (dropWhile P (rev xs))))"
  by (metis hd_dropWhile last_rev rev.simps(1) rev_rev_ident)

lemma path_parent_shorter:
  assumes "path_parent p = Some q"
  shows "length q < length p"
proof -
  define a where "a = rev (dropWhile (\<lambda>c. c = CHR ''/'') (rev p))"
  define r where "r = rev (dropWhile (\<lambda>c. c \<noteq> CHR ''/'') (rev a))"
  define t where "t = rev (dropWhile (\<lambda>c. c = CHR ''/'') (rev r))"
  have a: "a \<noteq> []" and q: "r = [] \<and> q = [] \<or> r \<noteq> [] \<and> t = [] \<and> q = ''/'' \<or> q = t"
    using assms unfolding path_parent_def Let_def a_def [symmetric] r_def [symmetric] t_def [symmetric]
    by (simp_all split: if_splits)
  have "last a \<noteq> CHR ''/''"
    using last_drop_last [of "\<lambda>c. c = CHR ''/''" p, folded a_def] a by simp
  with a have "length r < length a" unfolding r_def by (rule length_drop_last_less)
  moreover have "length a \<le> length p" unfolding a_def by (rule length_drop_last)
  moreover have "length t \<le> length r" unfolding t_def by (rule length_drop_last)
  moreover have "length q \<le> length r"
  proof -
    have "r \<noteq> [] \<Longrightarrow> 1 \<le> length r" by (cases r) simp_all
    with q \<open>length t \<le> length r\<close> show ?thesis by (elim disjE conjE) simp_all
  qed
  ultimately show ?thesis by linarith
qed

lemma ancestors_shorter: "q \<in> set (ancestors n p) \<Longrightarrow> length q < length p"
proof (induction n arbitrary: p)
  case (Suc n)
  obtain x where x: "path_parent p = Some x" "q = x \<or> q \<in> set (ancestors n x)"
    using Suc.prems by (cases "path_parent p") (auto split: if_splits)
  with Suc.IH [of x] path_parent_shorter [OF x(1)] show ?case by auto
qed simp

section \<open>What the file holds\<close>

text \<open>
  Hypothesis on the JSON crate, for one value: the text it prints for the value parses back to it.
\<close>

definition config_json_correct :: "storage_crates \<Rightarrow> UserConfig \<Rightarrow> bool" where
  "config_json_correct K c \<longleftrightarrow>
     (case config_to_string_pretty K c of
        Inl e \<Rightarrow> False
      | Inr s \<Rightarrow> is_string s \<and> config_from_str K s = Inr c)"

definition config_file_holds ::
  "storage_crates \<Rightarrow> world \<Rightarrow> StorageSource \<Rightarrow> UserConfig option \<Rightarrow> bool" where
  "config_file_holds K w source c \<longleftrightarrow>
     config_path_from_source source \<notin> dirs w
   \<and> (case files w (config_path_from_source source) of
        None \<Rightarrow> c = None
      | Some bs \<Rightarrow> utf8_valid bs \<and> (\<exists>x. config_from_str K (of_bytes bs) = Inr x \<and> c = Some x))"

text \<open>The directory of the file exists, or no file is in the way of making it.\<close>

definition dir_available :: "world \<Rightarrow> StorageSource \<Rightarrow> bool" where
  "dir_available w source \<longleftrightarrow>
     (case path_parent (config_path_from_source source) of
        None \<Rightarrow> True
      | Some parent \<Rightarrow> path_exists w parent
          \<or> list_all (\<lambda>q. files w q = None) (parent # ancestors (length parent) parent))"

lemma load_config_reliable:
  assumes "reliable S" and "config_file_holds K w source c"
  shows "load_config_from_source K S w source = Inr c"
proof (cases "files w (config_path_from_source source)")
  case None
  with assms(2) show ?thesis
    by (simp add: load_config_from_source_def config_file_holds_def path_exists_def)
next
  case (Some bs)
  with assms have "read_to_string utf8_valid S w (config_path_from_source source) = Inr (of_bytes bs)"
    by (simp add: read_to_string_reliable config_file_holds_def)
  with Some assms(2) show ?thesis
    by (auto simp: load_config_from_source_def config_file_holds_def path_exists_def)
qed

lemma create_parent_reliable:
  assumes "reliable S" and "dir_available w source"
    and "config_path_from_source source \<notin> dirs w"
  shows "\<exists>w1. (case path_parent (config_path_from_source source) of
        Some parent \<Rightarrow> if \<not> path_exists w parent then create_dir_all S w parent else (Inr (), w)
      | None \<Rightarrow> (Inr (), w)) = (Inr (), w1)
    \<and> files w1 = files w \<and> mounted w1 = mounted w \<and> config_path_from_source source \<notin> dirs w1
    \<and> dirs w \<subseteq> dirs w1 \<and> (\<forall>q \<in> dirs w1 - dirs w. files w q = None)"
proof (cases "path_parent (config_path_from_source source)")
  case (Some parent)
  let ?p = "config_path_from_source source"
  have "?p \<noteq> parent" "?p \<notin> set (ancestors (length parent) parent)"
    using path_parent_shorter [OF Some] ancestors_shorter [of ?p "length parent" parent] by auto
  with Some assms show ?thesis
    by (auto simp: create_dir_all_def dir_available_def list_all_iff)
qed (use assms in simp)

lemma fs_write_reliable:
  "reliable S \<Longrightarrow> p \<notin> dirs w \<Longrightarrow> fs_write S w p buf = (Inr (), w\<lparr>files := (files w)(p \<mapsto> buf)\<rparr>)"
  by (simp add: fs_write_def file_create_def file_write_all_def is_dir_def)

text \<open>The directory stays available when only the file itself is written.\<close>

lemma dir_available_mono:
  assumes "dir_available w source" and "dirs w \<subseteq> dirs w'"
    and "\<forall>q. q \<noteq> config_path_from_source source \<longrightarrow> files w' q = files w q"
  shows "dir_available w' source"
proof (cases "path_parent (config_path_from_source source)")
  case (Some parent)
  let ?p = "config_path_from_source source"
  have "?p \<noteq> parent" "?p \<notin> set (ancestors (length parent) parent)"
    using path_parent_shorter [OF Some] ancestors_shorter [of ?p "length parent" parent] by auto
  then have "files w' parent = files w parent"
    "\<forall>q \<in> set (ancestors (length parent) parent). files w' q = files w q"
    using assms(3) by (metis, metis)
  with Some assms(1,2) show ?thesis
    by (auto simp: dir_available_def path_exists_def list_all_iff)
qed (simp add: dir_available_def)

text \<open>What was a file is not made a directory, and no mount changes.\<close>

definition keeps_files :: "world \<Rightarrow> world \<Rightarrow> bool" where
  "keeps_files w w' \<longleftrightarrow> mounted w' = mounted w \<and> (\<forall>q. files w q \<noteq> None \<and> q \<notin> dirs w \<longrightarrow> q \<notin> dirs w')"

lemma save_config_reliable:
  assumes "reliable S" and "dir_available w source"
    and "config_path_from_source source \<notin> dirs w" and "config_json_correct K c"
  shows "\<exists>w'. save_config_to_source K S w source c uid gid = (Inr (), w')
    \<and> config_file_holds K w' source (Some c) \<and> dir_available w' source
    \<and> (\<forall>q. q \<noteq> config_path_from_source source \<longrightarrow> files w' q = files w q) \<and> keeps_files w w'"
proof -
  let ?p = "config_path_from_source source"
  obtain w1 where w1: "(case path_parent ?p of
        Some parent \<Rightarrow> if \<not> path_exists w parent then create_dir_all S w parent else (Inr (), w)
      | None \<Rightarrow> (Inr (), w)) = (Inr (), w1)" "files w1 = files w" "?p \<notin> dirs w1"
    "dirs w \<subseteq> dirs w1" "\<forall>q \<in> dirs w1 - dirs w. files w q = None" "mounted w1 = mounted w"
    using create_parent_reliable [OF assms(1-3)] by blast
  obtain s where s: "config_to_string_pretty K c = Inr s" "is_string s" "config_from_str K s = Inr c"
    using assms(4) by (auto simp: config_json_correct_def split: sum.splits)
  let ?w2 = "w1\<lparr>files := (files w1)(?p \<mapsto> as_bytes s)\<rparr>"
  obtain w' where w': "save_config_to_source K S w source c uid gid = (Inr (), w')"
    "files w' = files ?w2" "dirs w' = dirs ?w2" "mounted w' = mounted ?w2"
    using w1 s(1) assms(1)
    by (cases "uid = None")
      (simp_all add: save_config_to_source_def Let_def fs_write_reliable chown_def)
  then have "config_file_holds K w' source (Some c)"
    using w1(3) s by (simp add: config_file_holds_def is_string_def)
  moreover have "dir_available w' source"
    using dir_available_mono [OF assms(2), of w'] w' w1(2,4) by auto
  moreover have "keeps_files w w'" using w' w1(5,6) by (auto simp: keeps_files_def)
  ultimately show ?thesis using w' w1(2) by auto
qed

lemma save_config_errors:
  "save_config_to_source K S w source c uid gid = (Inl e, w') \<Longrightarrow>
   (\<exists>x. e = IoError x) \<or> (\<exists>x. e = StorageJsonError x)"
  by (auto simp: save_config_to_source_def Let_def split: sum.splits prod.splits if_splits option.splits)

section \<open>Sections of the file\<close>

text \<open>
  What the three sections have in common: a section that is put is the one that is read, and putting
  it leaves the rest of the configuration (\<open>frame\<close>) alone.
\<close>

locale config_section =
  fixes get :: "UserConfig \<Rightarrow> 'a option"
    and put :: "'a option \<Rightarrow> UserConfig \<Rightarrow> UserConfig"
    and frame :: "UserConfig \<Rightarrow> 'f"
  assumes get_put: "get (put x c) = x"
    and frame_put: "frame (put x c) = frame c"
begin

lemma put_load:
  assumes "reliable S" and "config_file_holds K w source c" and "dir_available w source"
    and "config_json_correct K (put x (config_or_new c))"
  shows "\<exists>w' c'. save_config_to_source K S w source (put x (config_or_new c)) uid gid = (Inr (), w')
    \<and> load_config_from_source K S w source = Inr c
    \<and> load_config_from_source K S w' source = Inr (Some c')
    \<and> get c' = x \<and> frame c' = frame (config_or_new c)
    \<and> (\<forall>q. q \<noteq> config_path_from_source source \<longrightarrow> files w' q = files w q)"
proof -
  have "config_path_from_source source \<notin> dirs w"
    using assms(2) by (simp add: config_file_holds_def)
  from save_config_reliable [OF assms(1,3) this assms(4)]
  obtain w' where w': "save_config_to_source K S w source (put x (config_or_new c)) uid gid = (Inr (), w')"
    "config_file_holds K w' source (Some (put x (config_or_new c)))"
    "\<forall>q. q \<noteq> config_path_from_source source \<longrightarrow> files w' q = files w q"
    by blast
  have "load_config_from_source K S w source = Inr c"
    by (rule load_config_reliable [OF assms(1,2)])
  moreover have "load_config_from_source K S w' source = Inr (Some (put x (config_or_new c)))"
    by (rule load_config_reliable [OF assms(1) w'(2)])
  ultimately show ?thesis
    by (intro exI [of _ w'] exI [of _ "put x (config_or_new c)"] conjI w'(1,3) get_put frame_put)
qed

lemma put_twice: "get (put y (put x c)) = y" and put_other: "frame (put y (put x c)) = frame c"
  by (simp_all add: get_put frame_put)

end

interpretation command_section: config_section session_command
    "\<lambda>x c. c\<lparr>session_command := x\<rparr>" "\<lambda>c. (version c, auth_data c, mountpoints c)"
  by unfold_locales simp_all

interpretation auth_section: config_section auth_data
    "\<lambda>x c. c\<lparr>auth_data := x\<rparr>" "\<lambda>c. (version c, session_command c, mountpoints c)"
  by unfold_locales simp_all

interpretation mounts_section: config_section mountpoints
    "\<lambda>x c. c\<lparr>mountpoints := x\<rparr>" "\<lambda>c. (version c, session_command c, auth_data c)"
  by unfold_locales simp_all

text \<open>Loading from a configuration that was read.\<close>

definition auth_data_of ::
  "storage_crates \<Rightarrow> AuthDataSerialized option \<Rightarrow> StorageError + UserAuthData option" where
  "auth_data_of K ad =
    (case ad of
       None \<Rightarrow> Inr None
     | Some ser \<Rightarrow>
         (case ser_main ser of
            None \<Rightarrow> Inr None
          | Some main_b64 \<Rightarrow>
              and_then (map_err (\<lambda>_. DeserializationError) (b64_decode K main_b64)) (\<lambda>main_bytes.
              and_then (map_err StorageSerializationError (decode_main K main_bytes)) (\<lambda>m.
              and_then (load_secondary K (push_main UserAuthData_new m) (ser_secondary ser))
                (\<lambda>data. Inr (Some data))))))"

definition mounts_of :: "MountPointsConfig option \<Rightarrow> MountPoints option" where
  "mounts_of = map_option (\<lambda>cfg.
     MountPoints_new (MountParams_new (ser_device (cfg_home cfg)) (ser_fstype (cfg_home cfg))
       (ser_args (cfg_home cfg))) (insert_mounts Map.empty (cfg_additional cfg)))"

lemma load_user_auth_data_eq:
  "load_config_from_source K S w source = Inr c \<Longrightarrow>
   load_user_auth_data K S w source = auth_data_of K (auth_data (config_or_new c))"
  by (simp add: load_user_auth_data_def auth_data_of_def config_or_new_def UserConfig_new_def
      split: option.splits)

lemma load_user_mountpoints_eq:
  "load_config_from_source K S w source = Inr c \<Longrightarrow>
   load_user_mountpoints K S w source = Inr (mounts_of (mountpoints (config_or_new c)))"
  by (simp add: load_user_mountpoints_def mounts_of_def config_or_new_def UserConfig_new_def Let_def
      split: option.splits)

lemma load_user_session_command_eq:
  "load_config_from_source K S w source = Inr c \<Longrightarrow>
   load_user_session_command K S w source = Inr (session_command (config_or_new c))"
  by (simp add: load_user_session_command_def config_or_new_def UserConfig_new_def split: option.splits)

lemma config_or_new_Some [simp]: "config_or_new (Some c) = c"
  by (simp add: config_or_new_def)

lemmas load_eqs = load_user_auth_data_eq load_user_mountpoints_eq load_user_session_command_eq

section \<open>Round trips\<close>

text \<open>
  Hypotheses on the crates: base64 decodes what it encodes, and bytevec2 decodes what it encoded.
\<close>

definition codecs_correct :: "storage_crates \<Rightarrow> bool" where
  "codecs_correct K \<longleftrightarrow>
     (\<forall>bs. b64_decode K (b64_encode K bs) = Inr bs)
   \<and> (\<forall>m bs. encode_main K m = Inr bs \<longrightarrow> decode_main K bs = Inr m)
   \<and> (\<forall>p bs. encode_secondary K p = Inr bs \<longrightarrow> decode_secondary K bs = Inr p)"

lemma secondary_item_loads:
  assumes "codecs_correct K" and "secondary_item K val = Inr item"
  shows "load_secondary K data (item # rest) = load_secondary K (push_secondary data val) rest"
proof -
  obtain p bs where p: "auth_method val = Password p" "encode_secondary K p = Inr bs"
    "item = \<lparr>item_name = auth_name val, item_creation_date = creation_date val, item_auth_type = 0,
       item_password = b64_encode K bs\<rparr>"
    using assms(2) by (cases "auth_method val") (auto simp: secondary_item_def and_then_eq_Inr)
  have "new_password since (auth_name val) (Some (creation_date val)) p = val" for since
    using p(1) by (simp add: new_password_def)
  with p assms(1) show ?thesis by (simp add: codecs_correct_def)
qed

lemma secondary_items_load:
  assumes "codecs_correct K"
  shows "try_map (secondary_item K) vals = Inr items \<Longrightarrow>
    load_secondary K data items = Inr (data\<lparr>auth := auth data @ vals\<rparr>)"
proof (induction vals arbitrary: items data)
  case (Cons val vals)
  then obtain item rest where "items = item # rest" "secondary_item K val = Inr item"
    "try_map (secondary_item K) vals = Inr rest"
    by (auto simp: and_then_eq_Inr)
  with Cons.IH [of rest "push_secondary data val"] show ?case
    by (simp add: secondary_item_loads [OF assms] push_secondary_def del: load_secondary.simps)
qed simp

lemma auth_data_of_serialized:
  assumes "codecs_correct K" and "serialize_auth_data K data = Inr ser"
  shows "auth_data_of K (Some ser) = Inr (if has_main data then Some data else None)"
proof (cases "main_password data")
  case None
  with assms(2) show ?thesis
    by (auto simp: serialize_auth_data_def auth_data_of_def has_main_def and_then_eq_Inr)
next
  case (Some m)
  then obtain bs items where parts: "encode_main K m = Inr bs"
    "try_map (secondary_item K) (auth data) = Inr items"
    "ser = \<lparr>ser_main = Some (b64_encode K bs), ser_secondary = items\<rparr>"
    using assms(2) by (auto simp: serialize_auth_data_def and_then_eq_Inr)
  have "(push_main UserAuthData_new m)\<lparr>auth := [] @ auth data\<rparr> = data"
    using Some by (simp add: push_main_def UserAuthData_new_def)
  with parts assms(1) Some secondary_items_load [OF assms(1) parts(2), of "push_main UserAuthData_new m"]
  show ?thesis
    by (simp add: auth_data_of_def has_main_def codecs_correct_def push_main_def UserAuthData_new_def)
qed

lemma insert_mounts_foreach:
  "insert_mounts ms (foreach mp ks (\<lambda>dir params.
       \<lparr>ser_fstype = fstype params, ser_device = device params, ser_directory = dir,
        ser_args = flags params\<rparr>))
   = (\<lambda>k. if k \<in> set ks \<and> mounts mp k \<noteq> None then mounts mp k else ms k)"
  by (induction ks arbitrary: ms)
    (auto simp: fun_eq_iff MountParams_new_def split: option.splits)

lemma mounts_of_serialized:
  assumes "enumerates ks (mounts mp)"
  shows "mounts_of (Some (serialize_mountpoints ks mp)) = Some mp"
proof -
  have "insert_mounts Map.empty (cfg_additional (serialize_mountpoints ks mp)) = mounts mp"
    using assms by (auto simp: serialize_mountpoints_def insert_mounts_foreach enumerates_def fun_eq_iff)
  then show ?thesis
    by (simp add: mounts_of_def serialize_mountpoints_def MountPoints_new_def MountParams_new_def)
qed

text \<open>
  C19: stored authentication data is what is loaded, and nothing else changes. From a file that holds
  a configuration (or no file), storing succeeds, a later load returns the data (or nothing, when it
  has no main password), the session command and the mount points load as before, and no other file
  is touched.
\<close>

theorem auth_data_store_load:
  assumes "codecs_correct K" and "reliable S" and "config_file_holds K w source c"
    and "dir_available w source" and "serialize_auth_data K data = Inr ser"
    and "config_json_correct K ((config_or_new c)\<lparr>auth_data := Some ser\<rparr>)"
  shows "\<exists>w'. store_user_auth_data K S w data source uid gid = (Inr (), w')
    \<and> load_user_auth_data K S w' source = Inr (if has_main data then Some data else None)
    \<and> load_user_session_command K S w' source = load_user_session_command K S w source
    \<and> load_user_mountpoints K S w' source = load_user_mountpoints K S w source
    \<and> (\<forall>q. q \<noteq> config_path_from_source source \<longrightarrow> files w' q = files w q)"
proof -
  obtain w' c' where w': "save_config_to_source K S w source ((config_or_new c)\<lparr>auth_data := Some ser\<rparr>)
      uid gid = (Inr (), w')" "load_config_from_source K S w source = Inr c"
    "load_config_from_source K S w' source = Inr (Some c')" "auth_data c' = Some ser"
    "session_command c' = session_command (config_or_new c)" "mountpoints c' = mountpoints (config_or_new c)"
    "\<forall>q. q \<noteq> config_path_from_source source \<longrightarrow> files w' q = files w q"
    using auth_section.put_load [OF assms(2,3,4,6), of uid gid] by auto
  then have "store_user_auth_data K S w data source uid gid = (Inr (), w')"
    using assms(5) by (simp add: store_user_auth_data_def)
  with w' show ?thesis
    using auth_data_of_serialized [OF assms(1,5)]
    by (simp add: load_eqs [OF w'(2)] load_eqs [OF w'(3)])
qed

text \<open>
  Stored mount points are what is loaded, in whatever order the map was enumerated when they
  were written, and storing no mount points removes the section; the rest of the configuration and
  every other file stay.
\<close>

theorem mountpoints_store_load:
  assumes "reliable S" and "config_file_holds K w source c" and "dir_available w source"
    and "\<forall>mp. mps = Some mp \<longrightarrow> enumerates ks (mounts mp)"
    and "config_json_correct K
      ((config_or_new c)\<lparr>mountpoints := map_option (serialize_mountpoints ks) mps\<rparr>)"
  shows "\<exists>w'. store_user_mountpoints K S w ks mps source uid gid = (Inr (), w')
    \<and> load_user_mountpoints K S w' source = Inr mps
    \<and> load_user_auth_data K S w' source = load_user_auth_data K S w source
    \<and> load_user_session_command K S w' source = load_user_session_command K S w source
    \<and> (\<forall>q. q \<noteq> config_path_from_source source \<longrightarrow> files w' q = files w q)"
proof -
  let ?new = "map_option (serialize_mountpoints ks) mps"
  obtain w' c' where w': "save_config_to_source K S w source ((config_or_new c)\<lparr>mountpoints := ?new\<rparr>)
      uid gid = (Inr (), w')" "load_config_from_source K S w source = Inr c"
    "load_config_from_source K S w' source = Inr (Some c')" "mountpoints c' = ?new"
    "session_command c' = session_command (config_or_new c)" "auth_data c' = auth_data (config_or_new c)"
    "\<forall>q. q \<noteq> config_path_from_source source \<longrightarrow> files w' q = files w q"
    using mounts_section.put_load [OF assms(1,2,3,5), of uid gid] by auto
  then have "store_user_mountpoints K S w ks mps source uid gid = (Inr (), w')"
    by (cases mps) (simp_all add: store_user_mountpoints_def)
  moreover have "mounts_of ?new = mps"
    using assms(4) mounts_of_serialized by (cases mps) (auto simp: mounts_of_def)
  ultimately show ?thesis
    using w' by (simp add: load_eqs [OF w'(2)] load_eqs [OF w'(3)])
qed

text \<open>
  The session command that was stored is the one that is loaded; the rest of the configuration
  and every other file stay.
\<close>

theorem session_command_store_load:
  assumes "reliable S" and "config_file_holds K w source c" and "dir_available w source"
    and "config_json_correct K ((config_or_new c)\<lparr>session_command := Some settings\<rparr>)"
  shows "\<exists>w'. store_user_session_command K S w settings source uid gid = (Inr (), w')
    \<and> load_user_session_command K S w' source = Inr (Some settings)
    \<and> load_user_auth_data K S w' source = load_user_auth_data K S w source
    \<and> load_user_mountpoints K S w' source = load_user_mountpoints K S w source
    \<and> (\<forall>q. q \<noteq> config_path_from_source source \<longrightarrow> files w' q = files w q)"
proof -
  obtain w' c' where w': "save_config_to_source K S w source
      ((config_or_new c)\<lparr>session_command := Some settings\<rparr>) uid gid = (Inr (), w')"
    "load_config_from_source K S w source = Inr c"
    "load_config_from_source K S w' source = Inr (Some c')" "session_command c' = Some settings"
    "auth_data c' = auth_data (config_or_new c)" "mountpoints c' = mountpoints (config_or_new c)"
    "\<forall>q. q \<noteq> config_path_from_source source \<longrightarrow> files w' q = files w q"
    using command_section.put_load [OF assms, of uid gid] by auto
  then have "store_user_session_command K S w settings source uid gid = (Inr (), w')"
    by (simp add: store_user_session_command_def Let_def)
  with w' show ?thesis
    by (simp add: load_eqs [OF w'(2)] load_eqs [OF w'(3)])
qed

section \<open>Stores one after the other\<close>

text \<open>
  After a store the file holds the configuration with the new section, so that a further store can
  follow. \<open>stored\<close> says that, and that no other file has changed.
\<close>

definition stored :: "storage_crates \<Rightarrow> world \<Rightarrow> StorageSource \<Rightarrow> UserConfig \<Rightarrow> world \<Rightarrow> bool" where
  "stored K w source c w' \<longleftrightarrow> config_file_holds K w' source (Some c) \<and> dir_available w' source
     \<and> (\<forall>q. q \<noteq> config_path_from_source source \<longrightarrow> files w' q = files w q) \<and> keeps_files w w'"

lemma stored_keeps_files:
  assumes "stored K w source c1 w1" and "stored K w1 source c2 w2"
  shows "keeps_files w w2"
proof -
  have "q \<notin> dirs w2" if "files w q \<noteq> None" "q \<notin> dirs w" for q
  proof (cases "q = config_path_from_source source")
    case True
    with assms(2) show ?thesis by (simp add: stored_def config_file_holds_def)
  next
    case False
    with that assms show ?thesis by (metis (no_types, lifting) stored_def keeps_files_def)
  qed
  with assms show ?thesis by (simp add: stored_def keeps_files_def)
qed

lemma store_auth_stored:
  assumes "reliable S" and "config_file_holds K w source c" and "dir_available w source"
    and "serialize_auth_data K data = Inr ser"
    and "config_json_correct K ((config_or_new c)\<lparr>auth_data := Some ser\<rparr>)"
  obtains w' where "store_user_auth_data K S w data source uid gid = (Inr (), w')"
    "stored K w source ((config_or_new c)\<lparr>auth_data := Some ser\<rparr>) w'"
proof -
  have "config_path_from_source source \<notin> dirs w"
    using assms(2) by (simp add: config_file_holds_def)
  from save_config_reliable [OF assms(1,3) this assms(5), of uid gid] that assms(4)
    load_config_reliable [OF assms(1,2)]
  show ?thesis by (auto simp: store_user_auth_data_def stored_def)
qed

lemma store_mounts_stored:
  assumes "reliable S" and "config_file_holds K w source c" and "dir_available w source"
    and "config_json_correct K
      ((config_or_new c)\<lparr>mountpoints := map_option (serialize_mountpoints ks) mps\<rparr>)"
  obtains w' where "store_user_mountpoints K S w ks mps source uid gid = (Inr (), w')"
    "stored K w source ((config_or_new c)\<lparr>mountpoints := map_option (serialize_mountpoints ks) mps\<rparr>) w'"
proof -
  have "config_path_from_source source \<notin> dirs w"
    using assms(2) by (simp add: config_file_holds_def)
  from save_config_reliable [OF assms(1,3) this assms(4), of uid gid] that
    load_config_reliable [OF assms(1,2)]
  show ?thesis by (cases mps) (auto simp: store_user_mountpoints_def stored_def)
qed

lemma stored_loads:
  assumes "reliable S" and "stored K w source c w'"
  shows "load_user_auth_data K S w' source = auth_data_of K (auth_data c)"
    "load_user_mountpoints K S w' source = Inr (mounts_of (mountpoints c))"
    "load_user_session_command K S w' source = Inr (session_command c)"
  using load_eqs [OF load_config_reliable [OF assms(1), of K w' source "Some c"]] assms(2)
  by (simp_all add: stored_def)

lemma mounts_of_enumerated:
  "(\<And>mp. mps = Some mp \<Longrightarrow> enumerates ks (mounts mp)) \<Longrightarrow>
   mounts_of (map_option (serialize_mountpoints ks) mps) = mps"
  by (cases mps) (auto simp: mounts_of_serialized, simp add: mounts_of_def)

text \<open>What is loaded has a main password.\<close>

lemma load_secondary_main:
  "load_secondary K data items = Inr data' \<Longrightarrow> main_password data' = main_password data"
  by (induction K data items rule: load_secondary.induct)
    (auto simp: and_then_eq_Inr Let_def push_secondary_def split: if_splits)

lemma auth_data_of_has_main: "auth_data_of K ad = Inr (Some data) \<Longrightarrow> has_main data"
  by (auto simp: auth_data_of_def has_main_def and_then_eq_Inr push_main_def
      dest!: load_secondary_main split: option.splits)

lemma loaded_has_main:
  assumes "load_user_auth_data K S w source = Inr (Some data)"
  shows "has_main data"
proof (cases "load_config_from_source K S w source")
  case (Inl e)
  with assms show ?thesis by (simp add: load_user_auth_data_def)
next
  case (Inr c)
  with assms show ?thesis using auth_data_of_has_main by (auto simp: load_user_auth_data_eq)
qed

text \<open>A change of another file is not seen.\<close>

lemma load_config_untouched:
  assumes "touches p w w'" and "p \<noteq> config_path_from_source source"
  shows "load_config_from_source K S w' source = load_config_from_source K S w source"
proof -
  have "files w' (config_path_from_source source) = files w (config_path_from_source source)"
    "dirs w' = dirs w"
    using assms by (auto simp: touches_def)
  then show ?thesis
    by (simp add: load_config_from_source_def path_exists_def read_to_string_def Let_def)
qed

lemma loads_untouched:
  assumes "touches p w w'" and "p \<noteq> config_path_from_source source"
  shows "load_user_auth_data K S w' source = load_user_auth_data K S w source"
    "load_user_mountpoints K S w' source = load_user_mountpoints K S w source"
    "load_user_session_command K S w' source = load_user_session_command K S w source"
  by (simp_all add: load_user_auth_data_def load_user_mountpoints_def load_user_session_command_def
      load_config_untouched [OF assms])

section \<open>Errors and removal\<close>

text \<open>
  A configuration that cannot be read is never overwritten. When the file is there but reading
  or parsing it fails, all three stores return that error and leave the world as it was; and the only
  errors reading ends with are those of the file system and of the JSON text.
\<close>

theorem stores_keep_unreadable:
  assumes "load_config_from_source K S w source = Inl e"
  shows "store_user_auth_data K S w data source uid gid = (Inl e, w)
    \<and> store_user_mountpoints K S w ks mps source uid gid = (Inl e, w)
    \<and> store_user_session_command K S w settings source uid gid = (Inl e, w)
    \<and> ((\<exists>x. e = IoError x) \<or> (\<exists>x. e = StorageJsonError x))"
  using assms
  by (auto simp: store_user_auth_data_def store_user_mountpoints_def store_user_session_command_def
      load_config_from_source_def and_then_eq_Inl map_err_eq_Inl Let_def split: if_splits)

text \<open>
  Removal. When it succeeds for a path that is not a directory, the file is gone, the three loads
  find nothing, every other file is as before, and removing again succeeds without effect.
\<close>

theorem remove_user_data_removes:
  assumes "remove_user_data S w source = (Inr (), w')" and "config_path_from_source source \<notin> dirs w"
  shows "load_user_auth_data K S' w' source = Inr None
    \<and> load_user_mountpoints K S' w' source = Inr None
    \<and> load_user_session_command K S' w' source = Inr None
    \<and> (\<forall>q. q \<noteq> config_path_from_source source \<longrightarrow> files w' q = files w q)
    \<and> remove_user_data S' w' source = (Inr (), w')"
proof -
  let ?p = "config_path_from_source source"
  have gone: "files w' ?p = None \<and> ?p \<notin> dirs w' \<and> (\<forall>q. q \<noteq> ?p \<longrightarrow> files w' q = files w q)"
    using assms
    by (auto simp: remove_user_data_def remove_file_def Let_def path_exists_def
        split: if_splits sum.splits prod.splits)
  then have "load_config_from_source K S' w' source = Inr None"
    by (simp add: load_config_from_source_def path_exists_def)
  with gone show ?thesis
    by (simp add: load_user_auth_data_def load_user_mountpoints_def load_user_session_command_def
        remove_user_data_def path_exists_def Let_def)
qed

text \<open>
  Where the files are. User names that do not start with a separator have distinct files in the
  configuration directory; a name that starts with one names a file anywhere.
\<close>

theorem config_path_cases:
  "config_path_from_source (Username u) =
     (if u \<noteq> [] \<and> hd u = CHR ''/'' then u @ ''.json'' else ''/etc/polyauth/'' @ u @ ''.json'')
   \<and> (config_path_from_source (Username u) = config_path_from_source (Username v)
      \<longleftrightarrow> u = v \<or> u = ''/etc/polyauth/'' @ v \<and> hd (v @ ''.'') \<noteq> CHR ''/''
        \<or> v = ''/etc/polyauth/'' @ u \<and> hd (u @ ''.'') \<noteq> CHR ''/'')"
  by (cases u; cases v)
    (auto simp: config_path_from_source_def config_path_for_username_def path_join_def
      POLYAUTH_CONFIG_DIR_def)

section \<open>Instances\<close>

text \<open>Crates that know one main password, one secondary password and one configuration.\<close>

definition toy_main :: MainPassword where
  "toy_main = \<lparr>main_hash = ''h'', enc_main = [1, 2], enc_main_nonce = AuthDataNonce_from (replicate 12 0),
     intermediate_key_salt = AuthDataSalt_from (replicate 32 0), intermediate_key_hash = ''k''\<rparr>"

definition toy_secondary :: SecondaryPassword where
  "toy_secondary = \<lparr>enc_intermediate_nonce = AuthDataNonce_from (replicate 12 0), enc_intermediate = [3],
     password_salt = AuthDataSalt_from (replicate 32 0), password_hash = ''s''\<rparr>"

definition toy_crates :: "UserConfig \<Rightarrow> storage_crates" where
  "toy_crates cfg =
    \<lparr>config_to_string_pretty = (\<lambda>c. if c = cfg then Inr ''{}'' else Inl ''unknown''),
     config_from_str = (\<lambda>s. if s = ''{}'' then Inr cfg else Inl ''expected value''),
     b64_encode = of_bytes, b64_decode = (\<lambda>s. Inr (as_bytes s)),
     encode_main = (\<lambda>m. if m = toy_main then Inr [1] else Inl ''unknown''),
     decode_main = (\<lambda>bs. if bs = [1] then Inr toy_main else Inl ''bad size''),
     encode_secondary = (\<lambda>p. if p = toy_secondary then Inr [2] else Inl ''unknown''),
     decode_secondary = (\<lambda>bs. if bs = [2] then Inr toy_secondary else Inl ''bad size''),
     now_since_epoch = Inr 0\<rparr>"

lemma toy_codecs_correct: "codecs_correct (toy_crates cfg)"
  by (simp add: codecs_correct_def toy_crates_def)

lemma toy_config_json_correct: "config_json_correct (toy_crates cfg) cfg"
  by (simp add: config_json_correct_def toy_crates_def is_string_def utf8_valid_ascii)

definition toy_data :: UserAuthData where
  "toy_data = \<lparr>main_password = Some toy_main,
     auth = [\<lparr>auth_name = ''pin'', creation_date = 5, auth_method = Password toy_secondary\<rparr>]\<rparr>"

definition toy_serialized :: AuthDataSerialized where
  "toy_serialized = \<lparr>ser_main = Some (of_bytes [1]), ser_secondary =
     [\<lparr>item_name = ''pin'', item_creation_date = 5, item_auth_type = 0, item_password = of_bytes [2]\<rparr>]\<rparr>"

lemma toy_serialize: "serialize_auth_data (toy_crates cfg) toy_data = Inr toy_serialized"
  by (simp add: serialize_auth_data_def toy_data_def toy_serialized_def secondary_item_def toy_crates_def
      del: of_bytes_Cons)

lemma demo_world_user:
  "config_file_holds K demo_world (Username ''u'') None" "dir_available demo_world (Username ''u'')"
  by (simp_all add: config_file_holds_def dir_available_def demo_world_def config_path_from_source_def
      config_path_for_username_def path_join_def POLYAUTH_CONFIG_DIR_def list_all_iff split: option.split)

theorem auth_data_store_load_witness:
  "\<exists>w'. store_user_auth_data (toy_crates (UserConfig_new\<lparr>auth_data := Some toy_serialized\<rparr>)) demo_sys
       demo_world toy_data (Username ''u'') None None = (Inr (), w')
     \<and> load_user_auth_data (toy_crates (UserConfig_new\<lparr>auth_data := Some toy_serialized\<rparr>)) demo_sys w'
       (Username ''u'') = Inr (Some toy_data)"
proof -
  let ?K = "toy_crates (UserConfig_new\<lparr>auth_data := Some toy_serialized\<rparr>)"
  have json: "config_json_correct ?K ((config_or_new None)\<lparr>auth_data := Some toy_serialized\<rparr>)"
    using toy_config_json_correct by (simp add: config_or_new_def)
  have "has_main toy_data" by (simp add: has_main_def toy_data_def)
  with auth_data_store_load [OF toy_codecs_correct demo_sys_reliable demo_world_user toy_serialize json,
      of None None]
  show ?thesis by auto
qed

theorem mountpoints_store_load_witness:
  "\<exists>K w'. store_user_mountpoints K demo_sys demo_world [''/data'']
       (Some (MountPoints_new MountParams_default [''/data'' \<mapsto> MountParams_default]))
       (Username ''u'') (Some 1000) (Some 1000) = (Inr (), w')
     \<and> load_user_mountpoints K demo_sys w' (Username ''u'')
         = Inr (Some (MountPoints_new MountParams_default [''/data'' \<mapsto> MountParams_default]))"
proof -
  let ?mp = "MountPoints_new MountParams_default [''/data'' \<mapsto> MountParams_default]"
  let ?cfg = "UserConfig_new\<lparr>mountpoints := Some (serialize_mountpoints [''/data''] ?mp)\<rparr>"
  have "config_json_correct (toy_crates ?cfg)
      ((config_or_new None)\<lparr>mountpoints := map_option (serialize_mountpoints [''/data'']) (Some ?mp)\<rparr>)"
    using toy_config_json_correct [of ?cfg] by (simp add: config_or_new_def)
  moreover have "\<forall>mp. Some ?mp = Some mp \<longrightarrow> enumerates [''/data''] (mounts mp)"
    by (simp add: enumerates_def MountPoints_new_def)
  ultimately show ?thesis
    using mountpoints_store_load [OF demo_sys_reliable demo_world_user, of "Some ?mp" "[''/data'']"
        "toy_crates ?cfg" "Some 1000" "Some 1000"]
    by blast
qed

theorem session_command_store_load_witness:
  "\<exists>K w'. store_user_session_command K demo_sys demo_world (SessionCommand_new ''sway'') (Username ''u'')
       None None = (Inr (), w')
     \<and> load_user_session_command K demo_sys w' (Username ''u'') = Inr (Some (SessionCommand_new ''sway''))"
proof -
  let ?cfg = "UserConfig_new\<lparr>session_command := Some (SessionCommand_new ''sway'')\<rparr>"
  have "config_json_correct (toy_crates ?cfg)
      ((config_or_new None)\<lparr>session_command := Some (SessionCommand_new ''sway'')\<rparr>)"
    using toy_config_json_correct [of ?cfg] by (simp add: config_or_new_def)
  then show ?thesis
    using session_command_store_load [OF demo_sys_reliable demo_world_user, of "toy_crates ?cfg"
        "SessionCommand_new ''sway''" None None]
    by blast
qed

definition garbled_world :: world where
  "garbled_world = demo_world\<lparr>files := [''/etc/polyauth/u.json'' \<mapsto> as_bytes ''what'']\<rparr>"

lemma garbled_config:
  "load_config_from_source (toy_crates UserConfig_new) demo_sys garbled_world (Username ''u'')
   = Inl (StorageJsonError ''expected value'')"
proof -
  have path: "config_path_from_source (Username ''u'') = ''/etc/polyauth/u.json''"
    by (simp add: config_path_from_source_def config_path_for_username_def path_join_def
        POLYAUTH_CONFIG_DIR_def)
  have "read_to_string utf8_valid demo_sys garbled_world ''/etc/polyauth/u.json'' = Inr ''what''"
    by (rule read_to_string_reliable) (simp_all add: garbled_world_def utf8_valid_ascii)
  then show ?thesis
    by (simp add: load_config_from_source_def path path_exists_def garbled_world_def toy_crates_def)
qed

theorem stores_keep_unreadable_witness:
  "store_user_auth_data (toy_crates UserConfig_new) demo_sys garbled_world toy_data (Username ''u'') None None
   = (Inl (StorageJsonError ''expected value''), garbled_world)"
  using stores_keep_unreadable [OF garbled_config] by blast

theorem remove_user_data_removes_witness:
  "\<exists>w'. remove_user_data demo_sys garbled_world (Username ''u'') = (Inr (), w')
     \<and> load_user_auth_data (toy_crates UserConfig_new) demo_sys w' (Username ''u'') = Inr None"
proof -
  have path: "config_path_from_source (Username ''u'') = ''/etc/polyauth/u.json''"
    by (simp add: config_path_from_source_def config_path_for_username_def path_join_def
        POLYAUTH_CONFIG_DIR_def)
  have "remove_user_data demo_sys garbled_world (Username ''u'')
      = (Inr (), garbled_world\<lparr>files := (files garbled_world)(''/etc/polyauth/u.json'' := None)\<rparr>)"
    by (simp add: remove_user_data_def path remove_file_def path_exists_def garbled_world_def)
  moreover have "config_path_from_source (Username ''u'') \<notin> dirs garbled_world"
    by (simp add: path garbled_world_def demo_world_def)
  ultimately show ?thesis
    using remove_user_data_removes [where K = "toy_crates UserConfig_new" and S' = demo_sys] by blast
qed

text \<open>
  Crates that know a list of configurations: a configuration is printed as as many letters as its
  index in the list, and one main and one secondary password are encoded.
\<close>

definition index_crates :: "UserConfig list \<Rightarrow> MainPassword \<Rightarrow> SecondaryPassword \<Rightarrow> storage_crates" where
  "index_crates cs mp sp = (toy_crates UserConfig_new)
     \<lparr>config_to_string_pretty :=
        (\<lambda>c. if c \<in> set cs then Inr (replicate (length (takeWhile (\<lambda>x. x \<noteq> c) cs)) CHR ''a'')
             else Inl ''unknown''),
      config_from_str := (\<lambda>s. if length s < length cs then Inr (cs ! length s) else Inl ''too long''),
      encode_main := (\<lambda>m. if m = mp then Inr [1] else Inl ''unknown''),
      decode_main := (\<lambda>bs. if bs = [1] then Inr mp else Inl ''bad size''),
      encode_secondary := (\<lambda>p. if p = sp then Inr [2] else Inl ''unknown''),
      decode_secondary := (\<lambda>bs. if bs = [2] then Inr sp else Inl ''bad size'')\<rparr>"

lemma index_codecs_correct [simp]: "codecs_correct (index_crates cs mp sp)"
  by (simp add: codecs_correct_def index_crates_def toy_crates_def)

lemma index_json_correct:
  assumes "c \<in> set cs"
  shows "config_json_correct (index_crates cs mp sp) c"
proof -
  let ?i = "length (takeWhile (\<lambda>x. x \<noteq> c) cs)"
  have "?i < length cs \<and> cs ! ?i = c" using assms by (induction cs) auto
  with assms show ?thesis
    by (simp add: config_json_correct_def index_crates_def is_string_def as_bytes_def
        utf8_valid_ascii list_all_iff)
qed

text \<open>A world in which the file of the user holds the first configuration.\<close>

definition user_file_world :: world where
  "user_file_world = demo_world\<lparr>files := [''/etc/polyauth/u.json'' \<mapsto> []]\<rparr>"

lemma user_path: "config_path_from_source (Username ''u'') = ''/etc/polyauth/u.json''"
  by (simp add: config_path_from_source_def config_path_for_username_def path_join_def
      POLYAUTH_CONFIG_DIR_def)

lemma user_file_holds:
  "cs \<noteq> [] \<Longrightarrow> config_file_holds (index_crates cs mp sp) user_file_world (Username ''u'') (Some (hd cs))"
  by (simp add: config_file_holds_def user_file_world_def demo_world_def user_path index_crates_def
      utf8_valid_ascii hd_conv_nth)

lemma user_dir_available: "dir_available user_file_world (Username ''u'')"
  using demo_world_user(2)
  by (rule dir_available_mono) (simp_all add: user_file_world_def demo_world_def user_path)

lemma user_file_loads:
  assumes "cs \<noteq> []"
  shows "load_user_auth_data (index_crates cs mp sp) demo_sys user_file_world (Username ''u'')
      = auth_data_of (index_crates cs mp sp) (auth_data (hd cs))"
    "load_user_mountpoints (index_crates cs mp sp) demo_sys user_file_world (Username ''u'')
      = Inr (mounts_of (mountpoints (hd cs)))"
  using load_eqs [OF load_config_reliable [OF demo_sys_reliable user_file_holds [OF assms]]] by simp_all

lemma index_auth_data_of:
  "auth_data_of (index_crates cs mp sp) (Some \<lparr>ser_main = Some (of_bytes bs), ser_secondary = items\<rparr>)
   = (if bs = [1] then and_then (load_secondary (index_crates cs mp sp) (push_main UserAuthData_new mp) items)
        (\<lambda>data. Inr (Some data))
      else Inl (StorageSerializationError ''bad size''))"
  by (simp add: auth_data_of_def index_crates_def toy_crates_def)

text \<open>The encoding does not depend on the configurations, so that they can be chosen after it.\<close>

lemma index_serialize:
  assumes "main_password data = Some mp" and "\<forall>a \<in> set (auth data). auth_method a = Password sp"
  obtains ser where "\<And>cs. serialize_auth_data (index_crates cs mp sp) data = Inr ser"
proof -
  have "\<exists>items. \<forall>cs. try_map (secondary_item (index_crates cs mp sp)) as = Inr items"
    if "\<forall>a \<in> set as. auth_method a = Password sp" for as
    using that
    by (induction as) (auto simp: secondary_item_def index_crates_def toy_crates_def)
  from this [OF assms(2)] obtain items where
    "\<And>cs. try_map (secondary_item (index_crates cs mp sp)) (auth data) = Inr items"
    by blast
  with assms(1) that show ?thesis
    by (simp add: serialize_auth_data_def) (simp add: index_crates_def toy_crates_def)
qed

end
