(* ===== verification/UserDatabase.thy ===== *)
theory UserDatabase
  imports Storage "HOL-Library.Countable"
begin

text \<open>
  What src/storage.rs promises as a whole: the configuration files are a database with one entry for
  each path, which holds the authentication data, the mounts and the session command of a user. Any
  sequence of stores and removals by any users acts on the files as it acts on the database.
\<close>

section \<open>The database\<close>

record entry =
  db_auth :: "UserAuthData option"
  db_mounts :: "MountPoints option"
  db_command :: "SessionCommand option"

definition no_entry :: entry where
  "no_entry = \<lparr>db_auth = None, db_mounts = None, db_command = None\<rparr>"

datatype db_action =
    StoreAuth StorageSource UserAuthData "u32 option" "u32 option"
  | StoreMounts StorageSource "string list" "MountPoints option" "u32 option" "u32 option"
  | StoreCommand StorageSource SessionCommand "u32 option" "u32 option"
  | Remove StorageSource

fun action_path :: "db_action \<Rightarrow> path" where
  "action_path (StoreAuth source data uid gid) = config_path_from_source source"
| "action_path (StoreMounts source ks mps uid gid) = config_path_from_source source"
| "action_path (StoreCommand source c uid gid) = config_path_from_source source"
| "action_path (Remove source) = config_path_from_source source"

text \<open>Data without a main password count as no data.\<close>

fun entry_step :: "db_action \<Rightarrow> entry \<Rightarrow> entry" where
  "entry_step (StoreAuth source data uid gid) e
     = e\<lparr>db_auth := if has_main data then Some data else None\<rparr>"
| "entry_step (StoreMounts source ks mps uid gid) e = e\<lparr>db_mounts := mps\<rparr>"
| "entry_step (StoreCommand source c uid gid) e = e\<lparr>db_command := Some c\<rparr>"
| "entry_step (Remove source) e = no_entry"

definition db_step :: "(path \<Rightarrow> entry) \<Rightarrow> db_action \<Rightarrow> path \<Rightarrow> entry" where
  "db_step m a = m(action_path a := entry_step a (m (action_path a)))"

text \<open>The same action on the files, by the functions of the program.\<close>

definition storage_step :: "storage_crates \<Rightarrow> sys \<Rightarrow> world \<Rightarrow> db_action \<Rightarrow> world" where
  "storage_step K S w a =
    (case a of
       StoreAuth source data uid gid \<Rightarrow> snd (store_user_auth_data K S w data source uid gid)
     | StoreMounts source ks mps uid gid \<Rightarrow> snd (store_user_mountpoints K S w ks mps source uid gid)
     | StoreCommand source c uid gid \<Rightarrow> snd (store_user_session_command K S w c source uid gid)
     | Remove source \<Rightarrow> snd (remove_user_data S w source))"

section \<open>The relation\<close>

text \<open>
  Hypotheses: no call fails, the crates decode what they encoded, for every configuration, and the
  values to be stored can be encoded.
\<close>

definition storage_works :: "storage_crates \<Rightarrow> sys \<Rightarrow> bool" where
  "storage_works K S \<longleftrightarrow> reliable S \<and> codecs_correct K \<and> (\<forall>c. config_json_correct K c)"

fun storable :: "storage_crates \<Rightarrow> db_action \<Rightarrow> bool" where
  "storable K (StoreAuth source data uid gid) = (\<exists>ser. serialize_auth_data K data = Inr ser)"
| "storable K (StoreMounts source ks mps uid gid) = (\<forall>mp. mps = Some mp \<longrightarrow> enumerates ks (mounts mp))"
| "storable K (StoreCommand source c uid gid) = True"
| "storable K (Remove source) = True"

text \<open>A path that can hold a file: it is not a directory and its directory exists.\<close>

definition file_place :: "world \<Rightarrow> path \<Rightarrow> bool" where
  "file_place w p \<longleftrightarrow> p \<notin> dirs w \<and> (\<forall>parent. path_parent p = Some parent \<longrightarrow> parent \<in> dirs w)"

definition entry_at :: "storage_crates \<Rightarrow> world \<Rightarrow> path \<Rightarrow> entry \<Rightarrow> bool" where
  "entry_at K w p e \<longleftrightarrow>
     (\<exists>c. config_file_holds K w (File p) c
        \<and> auth_data_of K (auth_data (config_or_new c)) = Inr (db_auth e)
        \<and> mounts_of (mountpoints (config_or_new c)) = db_mounts e
        \<and> session_command (config_or_new c) = db_command e)"

definition database :: "storage_crates \<Rightarrow> path set \<Rightarrow> world \<Rightarrow> (path \<Rightarrow> entry) \<Rightarrow> bool" where
  "database K ps w m \<longleftrightarrow> (\<forall>p \<in> ps. file_place w p \<and> entry_at K w p (m p))"

lemma config_path_File [simp]: "config_path_from_source (File p) = p"
  by (simp add: config_path_from_source_def)

lemma file_holds_path:
  "config_file_holds K w source c = config_file_holds K w (File (config_path_from_source source)) c"
  by (simp add: config_file_holds_def)

lemma file_place_available: "file_place w (config_path_from_source source) \<Longrightarrow> dir_available w source"
  by (auto simp: file_place_def dir_available_def path_exists_def is_dir_def split: option.split)

lemma entry_loads:
  assumes "reliable S" and "entry_at K w (config_path_from_source source) e"
  shows "load_user_auth_data K S w source = Inr (db_auth e)"
    "load_user_mountpoints K S w source = Inr (db_mounts e)"
    "load_user_session_command K S w source = Inr (db_command e)"
proof -
  obtain c where c: "config_file_holds K w source c"
    "auth_data_of K (auth_data (config_or_new c)) = Inr (db_auth e)"
    "mounts_of (mountpoints (config_or_new c)) = db_mounts e"
    "session_command (config_or_new c) = db_command e"
    using assms(2) by (auto simp: entry_at_def file_holds_path [of _ _ source])
  note load_eqs [OF load_config_reliable [OF assms(1) c(1)]]
  with c(2-4) show "load_user_auth_data K S w source = Inr (db_auth e)"
    "load_user_mountpoints K S w source = Inr (db_mounts e)"
    "load_user_session_command K S w source = Inr (db_command e)"
    by simp_all
qed

lemma entry_at_same: "files w' p = files w p \<Longrightarrow> dirs w' = dirs w \<Longrightarrow> entry_at K w' p e = entry_at K w p e"
  by (simp add: entry_at_def config_file_holds_def)
section \<open>One action\<close>

lemma chown_dirs: "chown S w p uid gid = (r, w') \<Longrightarrow> dirs w' = dirs w"
  by (auto simp: chown_def split: sum.splits)

text \<open>At a place that can hold a file no directory is made before the writing.\<close>

lemma save_config_in_place:
  assumes "file_place w (config_path_from_source source)" and "config_to_string_pretty K c = Inr s"
  shows "save_config_to_source K S w source c uid gid =
    (case fs_write S w (config_path_from_source source) (as_bytes s) of
       (Inl e, w2) \<Rightarrow> (Inl (IoError e), w2)
     | (Inr u, w2) \<Rightarrow>
         (if uid \<noteq> None then
            (case chown S w2 (config_path_from_source source) uid gid of
               (Inl e, w3) \<Rightarrow> (Inl (IoError e), w3)
             | (Inr u, w3) \<Rightarrow> (Inr (), w3))
          else (Inr (), w2)))"
proof -
  have "(case path_parent (config_path_from_source source) of
      Some parent \<Rightarrow> if \<not> path_exists w parent then create_dir_all S w parent else (Inr (), w)
    | None \<Rightarrow> (Inr (), w)) = (Inr (), w)"
    using assms(1) by (auto simp: file_place_def path_exists_def is_dir_def split: option.split)
  with assms(2) show ?thesis by (simp add: save_config_to_source_def Let_def)
qed

lemma save_config_dirs:
  assumes "file_place w (config_path_from_source source)"
    and "save_config_to_source K S w source c uid gid = (Inr (), w')"
  shows "dirs w' = dirs w"
proof -
  obtain s where "config_to_string_pretty K c = Inr s"
    using assms(2) by (auto simp: save_config_to_source_def Let_def split: sum.splits prod.splits)
  from save_config_in_place [OF assms(1) this, of S uid gid] assms(2) show ?thesis
    by (auto dest!: fs_write_frame chown_dirs split: sum.splits prod.splits if_splits)
qed

text \<open>What an action does at its own path; everything else stays.\<close>

definition acts_at :: "world \<Rightarrow> path \<Rightarrow> world \<Rightarrow> bool" where
  "acts_at w p w' \<longleftrightarrow> dirs w' = dirs w \<and> (\<forall>q. q \<noteq> p \<longrightarrow> files w' q = files w q)"

lemma save_at:
  assumes "storage_works K S" and "file_place w (config_path_from_source source)"
  obtains w' where "save_config_to_source K S w source c uid gid = (Inr (), w')"
    "config_file_holds K w' source (Some c)" "acts_at w (config_path_from_source source) w'"
proof -
  have "config_path_from_source source \<notin> dirs w" using assms(2) by (simp add: file_place_def)
  moreover have "reliable S" "config_json_correct K c" using assms(1) by (simp_all add: storage_works_def)
  ultimately obtain w' where w': "save_config_to_source K S w source c uid gid = (Inr (), w')"
    "config_file_holds K w' source (Some c)"
    "\<forall>q. q \<noteq> config_path_from_source source \<longrightarrow> files w' q = files w q"
    using save_config_reliable [OF _ file_place_available [OF assms(2)]] by blast
  with save_config_dirs [OF assms(2) w'(1)] that show ?thesis by (simp add: acts_at_def)
qed

text \<open>A saved configuration is an entry, and a removed file the empty one.\<close>

lemma saved_entry:
  assumes "storage_works K S" and "file_place w (config_path_from_source source)"
    and "auth_data_of K (auth_data c) = Inr (db_auth e)" and "mounts_of (mountpoints c) = db_mounts e"
    and "session_command c = db_command e"
  obtains w' where "save_config_to_source K S w source c uid gid = (Inr (), w')"
    "acts_at w (config_path_from_source source) w'" "entry_at K w' (config_path_from_source source) e"
proof -
  obtain w' where w': "save_config_to_source K S w source c uid gid = (Inr (), w')"
    "config_file_holds K w' source (Some c)" "acts_at w (config_path_from_source source) w'"
    by (rule save_at [OF assms(1,2)])
  moreover have "entry_at K w' (config_path_from_source source) e"
    unfolding entry_at_def using w'(2) assms(3-5) by (intro exI [of _ "Some c"]) (simp add: file_holds_path [of _ _ source])
  ultimately show ?thesis using that by blast
qed

lemma removed_entry:
  assumes "reliable S" and "file_place w (config_path_from_source source)"
    and "w' = storage_step K S w (Remove source)"
  shows "acts_at w (config_path_from_source source) w' \<and> entry_at K w' (config_path_from_source source) no_entry"
proof -
  have gone: "files w' (config_path_from_source source) = None" "acts_at w (config_path_from_source source) w'"
    using assms by (auto simp: storage_step_def remove_user_data_def remove_file_def Let_def acts_at_def
        file_place_def path_exists_def is_dir_def)
  then have "config_file_holds K w' (File (config_path_from_source source)) None"
    using assms(2) by (simp add: config_file_holds_def file_place_def acts_at_def)
  with gone(2) show ?thesis
    by (auto simp: entry_at_def no_entry_def config_or_new_def UserConfig_new_def auth_data_of_def
        mounts_of_def intro!: exI [of _ None])
qed

lemma action_effect:
  assumes "storage_works K S" and "storable K a" and "file_place w (action_path a)"
    and "entry_at K w (action_path a) e"
  shows "acts_at w (action_path a) (storage_step K S w a)
    \<and> entry_at K (storage_step K S w a) (action_path a) (entry_step a e)"
proof -
  have works: "reliable S" "codecs_correct K" using assms(1) by (simp_all add: storage_works_def)
  obtain c where c: "config_file_holds K w (File (action_path a)) c"
    "auth_data_of K (auth_data (config_or_new c)) = Inr (db_auth e)"
    "mounts_of (mountpoints (config_or_new c)) = db_mounts e"
    "session_command (config_or_new c) = db_command e"
    using assms(4) by (auto simp: entry_at_def)
  have load: "load_config_from_source K S w source = Inr c"
    if "config_path_from_source source = action_path a" for source
    using load_config_reliable [OF works(1), of K w source c] c(1) that
    by (simp add: file_holds_path [of _ _ source])
  show ?thesis
  proof (cases a)
    case (StoreAuth source data uid gid)
    then obtain ser where ser: "serialize_auth_data K data = Inr ser" using assms(2) by auto
    show ?thesis
      by (rule saved_entry [OF assms(1), of w source "(config_or_new c)\<lparr>auth_data := Some ser\<rparr>"
            "entry_step a e" uid gid])
        (use StoreAuth assms(3) load [of source] ser c(3,4) auth_data_of_serialized [OF works(2) ser] in
          \<open>simp_all add: storage_step_def store_user_auth_data_def\<close>)
  next
    case (StoreMounts source ks mps uid gid)
    then have same: "mounts_of (map_option (serialize_mountpoints ks) mps) = mps"
      using assms(2) by (intro mounts_of_enumerated) simp
    show ?thesis
      by (rule saved_entry [OF assms(1), of w source
            "(config_or_new c)\<lparr>mountpoints := map_option (serialize_mountpoints ks) mps\<rparr>"
            "entry_step a e" uid gid])
        (use StoreMounts same assms(3) load [of source] c(2,4) in
          \<open>(cases mps; simp add: storage_step_def store_user_mountpoints_def)+\<close>)
  next
    case (StoreCommand source x uid gid)
    show ?thesis
      by (rule saved_entry [OF assms(1), of w source "(config_or_new c)\<lparr>session_command := Some x\<rparr>"
            "entry_step a e" uid gid])
        (use StoreCommand assms(3) load [of source] c(2,3) in
          \<open>simp_all add: storage_step_def store_user_session_command_def Let_def\<close>)
  next
    case (Remove source)
    with removed_entry [OF works(1), of w source] assms(3) show ?thesis by simp
  qed
qed

lemma database_step:
  assumes "storage_works K S" and "storable K a" and "action_path a \<in> ps" and "database K ps w m"
  shows "database K ps (storage_step K S w a) (db_step m a)"
proof -
  let ?w = "storage_step K S w a"
  have here: "acts_at w (action_path a) ?w" "entry_at K ?w (action_path a) (entry_step a (m (action_path a)))"
    using action_effect [OF assms(1,2)] assms(3,4) by (auto simp: database_def)
  have "file_place ?w p \<and> entry_at K ?w p (db_step m a p)" if "p \<in> ps" for p
  proof -
    have "file_place w p" "entry_at K w p (m p)" using assms(4) that by (auto simp: database_def)
    with here show ?thesis
      using entry_at_same [of ?w p w K "m p"]
      by (auto simp: acts_at_def file_place_def db_step_def)
  qed
  then show ?thesis by (simp add: database_def)
qed

section \<open>Runs\<close>

definition refines_database ::
  "storage_crates \<Rightarrow> path set \<Rightarrow> (path \<rightharpoonup> u8 list) \<Rightarrow> world \<Rightarrow> (path \<Rightarrow> entry) \<Rightarrow> bool" where
  "refines_database K ps others w m \<longleftrightarrow> database K ps w m \<and> (\<forall>q. q \<notin> ps \<longrightarrow> files w q = others q)"

lemma refines_step:
  assumes "refines_database K ps others w m"
    and "storage_works K S \<and> storable K a \<and> action_path a \<in> ps"
  shows "refines_database K ps others (storage_step K S w a) (db_step m a)"
proof -
  have "file_place w (action_path a) \<and> entry_at K w (action_path a) (m (action_path a))"
    using assms by (simp add: refines_database_def database_def)
  then have "acts_at w (action_path a) (storage_step K S w a)"
    using action_effect assms(2) by blast
  moreover have "q \<noteq> action_path a" if "q \<notin> ps" for q using that assms(2) by blast
  ultimately show ?thesis
    using assms database_step [of K S a ps w m] by (simp add: refines_database_def acts_at_def)
qed

interpretation user_files: simulation "storage_step K S" db_step "refines_database K ps others"
    "\<lambda>a. storage_works K S \<and> storable K a \<and> action_path a \<in> ps" for K S ps others
  by unfold_locales (rule refines_step)

text \<open>
  C20: the configuration files are a database of users. When no call fails and the crates decode what
  they encoded, then after any sequence of stores and removals, by any users and of any sections, with
  values that can be encoded and at places that can hold a file, the three loads of every user return
  exactly what the database holds after the same sequence, in whatever order the mounts were
  enumerated when they were written, and no file outside these places has changed.
\<close>

theorem storage_refines_database:
  assumes "storage_works K S" and "\<forall>a \<in> set as. storable K a \<and> action_path a \<in> ps"
    and "database K ps w m" and "foldl (storage_step K S) w as = w'"
  shows "(\<forall>source. config_path_from_source source \<in> ps \<longrightarrow>
      (let e = foldl db_step m as (config_path_from_source source) in
         load_user_auth_data K S w' source = Inr (db_auth e)
       \<and> load_user_mountpoints K S w' source = Inr (db_mounts e)
       \<and> load_user_session_command K S w' source = Inr (db_command e)))
    \<and> (\<forall>q. q \<notin> ps \<longrightarrow> files w' q = files w q)"
proof -
  have "refines_database K ps (files w) w m" using assms(3) by (simp add: refines_database_def)
  moreover have "list_all (\<lambda>a. storage_works K S \<and> storable K a \<and> action_path a \<in> ps) as"
    using assms(1,2) by (simp add: list_all_iff)
  ultimately have run: "refines_database K ps (files w) w' (foldl db_step m as)"
    using user_files.run_rel assms(4) by blast
  have "reliable S" using assms(1) by (simp add: storage_works_def)
  from entry_loads [OF this] run show ?thesis
    by (auto simp: refines_database_def database_def Let_def)
qed

section \<open>An interrupted store\<close>

text \<open>Every load and every store of a user's file fails with an error, and no store changes anything.\<close>

definition locked_out :: "storage_crates \<Rightarrow> sys \<Rightarrow> world \<Rightarrow> StorageSource \<Rightarrow> StorageError \<Rightarrow> bool" where
  "locked_out K S w source err \<longleftrightarrow>
     load_user_auth_data K S w source = Inl err
   \<and> load_user_mountpoints K S w source = Inl err
   \<and> load_user_session_command K S w source = Inl err
   \<and> (\<forall>data uid gid. store_user_auth_data K S w data source uid gid = (Inl err, w))
   \<and> (\<forall>ks mps uid gid. store_user_mountpoints K S w ks mps source uid gid = (Inl err, w))
   \<and> (\<forall>c uid gid. store_user_session_command K S w c source uid gid = (Inl err, w))"

lemma unreadable_locks_out:
  "load_config_from_source K S w source = Inl err \<Longrightarrow> locked_out K S w source err"
  by (simp add: locked_out_def load_user_auth_data_def load_user_mountpoints_def
      load_user_session_command_def store_user_auth_data_def store_user_mountpoints_def
      store_user_session_command_def)

lemma empty_file_unreadable:
  assumes "reliable S" and "config_from_str K [] = Inl e"
    and "files w (config_path_from_source source) = Some []"
  shows "load_config_from_source K S w source = Inl (StorageJsonError e)"
proof -
  have "read_to_string utf8_valid S w (config_path_from_source source) = Inr []"
    using assms(1,3) read_to_string_reliable [of S w "config_path_from_source source" "[]"]
    by (simp add: utf8_valid_ascii)
  with assms(2,3) show ?thesis by (simp add: load_config_from_source_def path_exists_def Let_def)
qed

lemma removed_loads_nothing:
  assumes "reliable S" and "files w (config_path_from_source source) = Some []"
    and "config_path_from_source source \<notin> dirs w" and "remove_user_data S w source = (r, w')"
  shows "r = Inr () \<and> load_user_auth_data K S w' source = Inr None"
  using assms by (auto simp: remove_user_data_def remove_file_def Let_def path_exists_def is_dir_def
      load_user_auth_data_def load_config_from_source_def)

text \<open>
  C36: a store that fails half way locks the user out. The file is truncated before it is written, so
  when the writing of authentication data fails at its first byte, the store returns the error and the
  file is left empty. From then on, in every world where the file is still as it was left and even when
  no call fails any more, every load of the user's authentication data, mounts and session command
  fails, and so does every store, of any authentication data, mounts or command and for any owner,
  changing nothing. What was stored before is lost. Only removing the user's data helps, after which
  nothing is stored.
\<close>

theorem interrupted_store_locks_out:
  assumes "file_place w (config_path_from_source source)"
    and "load_config_from_source K S w source = Inr c" and "serialize_auth_data K data = Inr ser"
    and "config_to_string_pretty K ((config_or_new c)\<lparr>auth_data := Some ser\<rparr>) = Inr s"
    and "fails S (Sys_create (config_path_from_source source)) = None"
    and "fails S (Sys_write (config_path_from_source source)) = Some e"
    and "write_takes S (config_path_from_source source) (length (as_bytes s)) = 0"
    and "reliable S'" and "config_from_str K [] = Inl e'"
  shows "\<exists>w'. store_user_auth_data K S w data source uid gid = (Inl (IoError e), w')
    \<and> (\<forall>w''. files w'' (config_path_from_source source) = files w' (config_path_from_source source) \<longrightarrow>
         locked_out K S' w'' source (StorageJsonError e'))
    \<and> (\<exists>w''. remove_user_data S' w' source = (Inr (), w'') \<and> load_user_auth_data K S' w'' source = Inr None)"
proof -
  let ?p = "config_path_from_source source"
  let ?w = "w\<lparr>files := (files w)(?p \<mapsto> [])\<rparr>"
  have "fs_write S w ?p (as_bytes s) = (Inl e, ?w)"
    using assms(1,5-7)
    by (simp add: fs_write_def file_create_def file_write_all_def allowed_def file_place_def is_dir_def)
  then have "store_user_auth_data K S w data source uid gid = (Inl (IoError e), ?w)"
    using assms(2-4) save_config_in_place [OF assms(1,4), of S uid gid]
    by (simp add: store_user_auth_data_def)
  moreover have "locked_out K S' w'' source (StorageJsonError e')" if "files w'' ?p = files ?w ?p" for w''
    using that by (intro unreadable_locks_out empty_file_unreadable [OF assms(8,9)]) simp
  moreover obtain r w'' where removed: "remove_user_data S' ?w source = (r, w'')" by fastforce
  moreover have "r = Inr () \<and> load_user_auth_data K S' w'' source = Inr None"
    using assms(1) by (intro removed_loads_nothing [OF assms(8) _ _ removed]) (simp_all add: file_place_def)
  ultimately show ?thesis by (intro exI [of _ ?w]) auto
qed

section \<open>Instances\<close>

text \<open>
  Crates that print every configuration, as so many letters as its number in an enumeration of all
  configurations.
\<close>

definition serialized_tuple :: "MountPointSerialized \<Rightarrow> string \<times> string \<times> string \<times> string list" where
  "serialized_tuple s = (ser_fstype s, ser_device s, ser_directory s, ser_args s)"

definition item_tuple :: "SecondaryAuthItem \<Rightarrow> string \<times> u64 \<times> u32 \<times> string" where
  "item_tuple i = (item_name i, item_creation_date i, item_auth_type i, item_password i)"

definition auth_tuple :: "AuthDataSerialized \<Rightarrow> string option \<times> (string \<times> u64 \<times> u32 \<times> string) list" where
  "auth_tuple a = (ser_main a, map item_tuple (ser_secondary a))"

definition mounts_tuple :: "MountPointsConfig \<Rightarrow>
    (string \<times> string \<times> string \<times> string list) \<times> (string \<times> string \<times> string \<times> string list) list" where
  "mounts_tuple m = (serialized_tuple (cfg_home m), map serialized_tuple (cfg_additional m))"

definition config_code :: "UserConfig \<Rightarrow> nat" where
  "config_code c = to_nat (version c, map_option cmd (session_command c),
     map_option auth_tuple (auth_data c), map_option mounts_tuple (mountpoints c))"

lemma tuples_inject:
  "inj serialized_tuple" "inj item_tuple" "inj auth_tuple" "inj mounts_tuple"
  "inj (cmd :: SessionCommand \<Rightarrow> string)"
proof -
  show ser: "inj serialized_tuple" and item: "inj item_tuple"
    by (simp_all add: inj_def serialized_tuple_def item_tuple_def)
  show "inj (cmd :: SessionCommand \<Rightarrow> string)"
    by (rule injI) (rule SessionCommand.equality, simp_all)
  show "inj auth_tuple" and "inj mounts_tuple"
    using ser item
    by (auto simp: inj_def auth_tuple_def mounts_tuple_def inj_map_eq_map)
qed

lemma config_code_inject: "inj config_code"
proof (rule injI)
  fix c d assume "config_code c = config_code d"
  then have "version c = version d" "map_option cmd (session_command c) = map_option cmd (session_command d)"
    "map_option auth_tuple (auth_data c) = map_option auth_tuple (auth_data d)"
    "map_option mounts_tuple (mountpoints c) = map_option mounts_tuple (mountpoints d)"
    by (simp_all add: config_code_def)
  moreover from this(2-4) have "session_command c = session_command d" "auth_data c = auth_data d"
    "mountpoints c = mountpoints d"
    using tuples_inject(3-5) by (metis option.inj_map_strong injD)+
  ultimately show "c = d" by simp
qed

definition full_crates :: storage_crates where
  "full_crates = (toy_crates UserConfig_new)
     \<lparr>config_to_string_pretty := (\<lambda>c. Inr (replicate (config_code c) CHR ''a'')),
      config_from_str := (\<lambda>s. Inr (inv config_code (length s)))\<rparr>"

lemma full_crates_work: "storage_works full_crates demo_sys"
proof -
  have "codecs_correct full_crates"
    using toy_codecs_correct [of UserConfig_new] by (simp add: codecs_correct_def full_crates_def)
  moreover have "config_json_correct full_crates c" for c
    by (simp add: config_json_correct_def full_crates_def is_string_def as_bytes_def utf8_valid_ascii
        list_all_iff inv_f_f [OF config_code_inject])
  ultimately show ?thesis by (simp add: storage_works_def)
qed

definition polyauth_world :: world where
  "polyauth_world = demo_world\<lparr>dirs := {''/etc/polyauth''}\<rparr>"

lemma polyauth_paths:
  "config_path_from_source (Username ''u'') = ''/etc/polyauth/u.json''"
  "config_path_from_source (Username ''v'') = ''/etc/polyauth/v.json''"
  by (simp_all add: config_path_from_source_def config_path_for_username_def path_join_def
      POLYAUTH_CONFIG_DIR_def)

lemma polyauth_database:
  "database K {''/etc/polyauth/u.json'', ''/etc/polyauth/v.json''} polyauth_world (\<lambda>p. no_entry)"
proof -
  have "path_parent ''/etc/polyauth/u.json'' = Some ''/etc/polyauth''"
    "path_parent ''/etc/polyauth/v.json'' = Some ''/etc/polyauth''"
    by code_simp+
  then show ?thesis
    by (auto simp: database_def file_place_def entry_at_def config_file_holds_def polyauth_world_def
        demo_world_def config_or_new_def UserConfig_new_def auth_data_of_def mounts_of_def no_entry_def)
qed

text \<open>Two users, one of whom is removed again.\<close>

theorem storage_refines_database_witness:
  "\<exists>w'. foldl (storage_step full_crates demo_sys) polyauth_world
       [StoreAuth (Username ''u'') toy_data (Some 1000) None, StoreMounts (Username ''v'') [] (Some MountPoints_default) None None,
        StoreCommand (Username ''u'') (SessionCommand_new ''sh'') None None, Remove (Username ''v'')] = w'
     \<and> load_user_auth_data full_crates demo_sys w' (Username ''u'') = Inr (Some toy_data)
     \<and> load_user_session_command full_crates demo_sys w' (Username ''u'') = Inr (Some (SessionCommand_new ''sh''))
     \<and> load_user_mountpoints full_crates demo_sys w' (Username ''v'') = Inr None"
proof -
  let ?ps = "{''/etc/polyauth/u.json'', ''/etc/polyauth/v.json''}"
  let ?as = "[StoreAuth (Username ''u'') toy_data (Some 1000) None,
    StoreMounts (Username ''v'') [] (Some MountPoints_default) None None,
    StoreCommand (Username ''u'') (SessionCommand_new ''sh'') None None, Remove (Username ''v'')]"
  have "serialize_auth_data full_crates toy_data = serialize_auth_data (toy_crates UserConfig_new) toy_data"
    by (simp add: serialize_auth_data_def toy_data_def secondary_item_def full_crates_def toy_crates_def)
  then have "serialize_auth_data full_crates toy_data = Inr toy_serialized"
    by (simp add: toy_serialize)
  then have "\<forall>a \<in> set ?as. storable full_crates a \<and> action_path a \<in> ?ps"
    by (simp add: polyauth_paths enumerates_def MountPoints_default_def)
  from storage_refines_database [OF full_crates_work this polyauth_database refl]
  show ?thesis
    by (auto simp: polyauth_paths db_step_def no_entry_def has_main_def toy_data_def
        dest!: spec [of _ "Username ''u''"])
qed

text \<open>A full disk under a user whose file already holds passwords.\<close>

definition full_disk :: sys where
  "full_disk = \<lparr>fails = (\<lambda>c. if c = Sys_write ''/etc/polyauth/u.json'' then Some ''No space left on device'' else None),
     write_takes = (\<lambda>p n. 0), raw_os_error = (\<lambda>_. None)\<rparr>"

definition used_world :: world where
  "used_world = polyauth_world\<lparr>files := [''/etc/polyauth/u.json'' \<mapsto> as_bytes ''{}'']\<rparr>"

definition stored_config :: UserConfig where
  "stored_config = UserConfig_new\<lparr>auth_data := Some toy_serialized\<rparr>"

lemma stored_config_loads:
  assumes "fails S (Sys_open ''/etc/polyauth/u.json'') = None" "fails S (Sys_read ''/etc/polyauth/u.json'') = None"
  shows "load_config_from_source (toy_crates stored_config) S used_world (Username ''u'') = Inr (Some stored_config)"
proof -
  have "utf8_valid (as_bytes ''{}'')" by (simp add: utf8_valid_ascii)
  with assms have "read_to_string utf8_valid S used_world ''/etc/polyauth/u.json'' = Inr ''{}''"
    by (simp add: read_to_string_def used_world_def allowed_def del: as_bytes_Cons)
  then show ?thesis
    by (simp add: load_config_from_source_def polyauth_paths path_exists_def used_world_def toy_crates_def)
qed

lemma stored_passwords_load:
  "load_user_auth_data (toy_crates stored_config) demo_sys used_world (Username ''u'') = Inr (Some toy_data)"
proof -
  have "auth_data_of (toy_crates stored_config) (Some toy_serialized) = Inr (Some toy_data)"
    using auth_data_of_serialized [OF toy_codecs_correct toy_serialize]
    by (simp add: has_main_def toy_data_def)
  then show ?thesis
    using stored_config_loads [of demo_sys]
    by (simp add: load_user_auth_data_eq config_or_new_def stored_config_def demo_sys_def)
qed

theorem interrupted_store_locks_out_witness:
  "\<exists>w'. load_user_auth_data (toy_crates stored_config) demo_sys used_world (Username ''u'') = Inr (Some toy_data)
     \<and> store_user_auth_data (toy_crates stored_config) full_disk used_world toy_data (Username ''u'') None None
         = (Inl (IoError ''No space left on device''), w')
     \<and> locked_out (toy_crates stored_config) demo_sys w' (Username ''u'') (StorageJsonError ''expected value'')"
proof -
  let ?K = "toy_crates stored_config"
  have parent: "path_parent ''/etc/polyauth/u.json'' = Some ''/etc/polyauth''" by code_simp
  have place: "file_place used_world (config_path_from_source (Username ''u''))"
    using parent by (simp add: file_place_def polyauth_paths used_world_def polyauth_world_def demo_world_def)
  have load: "load_config_from_source ?K full_disk used_world (Username ''u'') = Inr (Some stored_config)"
    by (rule stored_config_loads) (simp_all add: full_disk_def)
  have "(config_or_new (Some stored_config))\<lparr>auth_data := Some toy_serialized\<rparr> = stored_config"
    by (simp add: config_or_new_def stored_config_def)
  then have "config_to_string_pretty ?K ((config_or_new (Some stored_config))\<lparr>auth_data := Some toy_serialized\<rparr>)
      = Inr ''{}''"
    by (simp add: toy_crates_def)
  from interrupted_store_locks_out [OF place load toy_serialize this, of "''No space left on device''"
      demo_sys "''expected value''" None None]
  show ?thesis using stored_passwords_load by (auto simp: full_disk_def polyauth_paths toy_crates_def)
qed

end
