(* ===== verification/Sessions.thy ===== *)
theory Sessions
  imports MountAuth Mounting SessionPrelude Storage
begin

text \<open>
  The sessions of the service (src/pam/session.rs): the private key that a task fetches, the one-time
  tokens that were issued and not used, and for every user with a session the guards of its mounts
  and how often it was opened. A method runs under the write lock of the object, so it is one step;
  it returns its answer (or panics) with the new state and world.
\<close>

section \<open>State\<close>

record UserSession =
  session_mounts :: "mount_request list"
  session_count :: usize

text \<open>
  The handle of the task: it holds the task's outcome until it is awaited; to await it again panics.
  The outer error is that of joining a task that panicked.
\<close>

datatype key_task = Finished "ext_error + (ServiceError + rsa_private_key)" | Awaited

datatype RsaPrivateKeyFetchOpStatus = Ready rsa_private_key | InProgress key_task

record Sessions =
  mounts_auth :: MountAuthOperations
  priv_key :: RsaPrivateKeyFetchOpStatus
  one_time_tokens :: "u64 \<rightharpoonup> u8 list"
  sessions :: "string \<rightharpoonup> UserSession"

record user =
  user_name :: string
  user_uid :: u32
  user_gid :: u32
  user_home :: path

text \<open>
  The surroundings of a handler: the operating system, the crates, the user database, the hasher of
  the standard library (the same function for all values within a process) and the hash of mount
  points.
\<close>

record env =
  env_sys :: sys
  env_checks :: bool
  env_crypto :: crypto
  env_storage :: storage_crates
  env_auth_json :: auth_json
  env_prelude_json :: "SessionPrelude \<Rightarrow> ext_error + string"
  env_user :: "string \<Rightarrow> user option"
  env_otp_hash :: "u8 list \<Rightarrow> u64"
  env_digest :: digest

section \<open>The private key\<close>

text \<open>
  The task reads the key file or makes it from a new key; \<open>generated\<close> is the text of that key, or
  nothing when making it panics.
\<close>

definition key_fetch_task ::
  "crypto \<Rightarrow> sys \<Rightarrow> world \<Rightarrow> path \<Rightarrow> string option \<Rightarrow>
   (ext_error + (ServiceError + rsa_private_key)) \<times> world" where
  "key_fetch_task C S w filepath generated =
    (case generated of
       None \<Rightarrow>
         if \<not> path_exists w filepath then (Inl ''task panicked'', w)
         else (Inr (and_then (map_err ServiceError.IOError (read_to_string utf8_valid S w filepath))
                 (\<lambda>key_as_str. map_err PKCS1Error (rsa_private_from_pem C key_as_str))), w)
     | Some pem \<Rightarrow>
         (case read_file_or_create_default S w filepath (Inr pem) of
            (r, w1) \<Rightarrow>
              (Inr (and_then r (\<lambda>key_as_str.
                 map_err PKCS1Error (rsa_private_from_pem C key_as_str))), w1)))"

definition Sessions_new ::
  "crypto \<Rightarrow> sys \<Rightarrow> world \<Rightarrow> path \<Rightarrow> MountAuthOperations \<Rightarrow> string option \<Rightarrow> Sessions \<times> world" where
  "Sessions_new C S w private_key_file_path ops generated =
    (case key_fetch_task C S w private_key_file_path generated of
       (outcome, w1) \<Rightarrow>
         (\<lparr>mounts_auth = ops, priv_key = InProgress (Finished outcome),
           one_time_tokens = Map.empty, sessions = Map.empty\<rparr>, w1))"

definition fetch_priv_key :: "Sessions \<Rightarrow> (ServiceError + rsa_private_key) run \<times> Sessions" where
  "fetch_priv_key self =
    (case priv_key self of
       Ready rsa_private_key \<Rightarrow> (Ret (Inr rsa_private_key), self)
     | InProgress (Finished (Inr (Inr new_key))) \<Rightarrow>
         (Ret (Inr new_key), self\<lparr>priv_key := Ready new_key\<rparr>)
     | InProgress (Finished (Inr (Inl err))) \<Rightarrow>
         (Ret (Inl err), self\<lparr>priv_key := InProgress Awaited\<rparr>)
     | InProgress (Finished (Inl err)) \<Rightarrow>
         (Ret (Inl (JoinError err)), self\<lparr>priv_key := InProgress Awaited\<rparr>)
     | InProgress Awaited \<Rightarrow> (Panic, self))"

section \<open>initiate_session\<close>

text \<open>\<open>random\<close> are the bytes of the new token, by index.\<close>

definition initiate_session ::
  "env \<Rightarrow> (nat \<Rightarrow> u8) \<Rightarrow> Sessions \<Rightarrow> string run \<times> Sessions" where
  "initiate_session E random self =
    (case fetch_priv_key self of
       (Panic, s1) \<Rightarrow> (Panic, s1)
     | (Ret (Inl err), s1) \<Rightarrow> (Ret [], s1)
     | (Ret (Inr key), s1) \<Rightarrow>
         (case rsa_public_to_pem (env_crypto E) (rsa_public (env_crypto E) key) of
            Inl err \<Rightarrow> (Ret [], s1)
          | Inr pem \<Rightarrow>
              (let session = SessionPrelude_new random pem;
                   otp = one_time_token session;
                   token_key = env_otp_hash E otp in
               case env_prelude_json E session of
                 Inl err \<Rightarrow> (Ret [], s1)
               | Inr serialized \<Rightarrow>
                   (Ret serialized,
                    s1\<lparr>one_time_tokens := (one_time_tokens s1)(token_key \<mapsto> otp)\<rparr>))))"

section \<open>open_user_session\<close>

type_synonym open_answer = "u32 \<times> u32 \<times> u32"

definition failed :: "ServiceOperationResult \<Rightarrow> open_answer" where
  "failed r = (result_into_u32 r, 0, 0)"

text \<open>The token is taken out of the map before it is compared.\<close>

definition take_token :: "env \<Rightarrow> Sessions \<Rightarrow> u8 list \<Rightarrow> bool \<times> Sessions" where
  "take_token E self otp =
    (let token_key = env_otp_hash E otp in
     (one_time_tokens self token_key = Some otp,
      self\<lparr>one_time_tokens := (one_time_tokens self)(token_key := None)\<rparr>))"

text \<open>
  The mounts of the user must be authorized, if there are any. \<open>ks\<close> is the enumeration order of the
  copy that is hashed.
\<close>

definition mounts_authorized ::
  "env \<Rightarrow> world \<Rightarrow> MountAuthOperations \<Rightarrow> string \<Rightarrow> string list \<Rightarrow> MountPoints option \<Rightarrow>
   bool \<times> world" where
  "mounts_authorized E w ops username ks user_mounts =
    (case user_mounts of
       None \<Rightarrow> (True, w)
     | Some mp \<Rightarrow>
         (let hash_to_check = mount_hash (env_digest E) mp ks in
          case read_auth_file (env_auth_json E) (env_sys E) w ops of
            (Inr a, w1) \<Rightarrow> (authorized a username hash_to_check, w1)
          | (Inl err, w1) \<Rightarrow> (False, w1)))"

text \<open>From a verified token to the mounted session; \<open>km\<close> is the enumeration order when mounting.\<close>

definition open_mounts ::
  "env \<Rightarrow> Sessions \<Rightarrow> world \<Rightarrow> string \<Rightarrow> user \<Rightarrow> u8 list \<Rightarrow> string list \<Rightarrow> string list \<Rightarrow>
   open_answer \<times> Sessions \<times> world" where
  "open_mounts E self w username usr pw ks km =
    (case load_user_mountpoints (env_storage E) (env_sys E) w (Username username) of
       Inl err \<Rightarrow> (failed CannotLoadUserMountError, self, w)
     | Inr user_mounts \<Rightarrow>
         (case mounts_authorized E w (mounts_auth self) username ks user_mounts of
            (False, w1) \<Rightarrow> (failed UnauthorizedMount, self, w1)
          | (True, w1) \<Rightarrow>
              (case mount_all (env_sys E) w1 km user_mounts pw (user_uid usr) (user_gid usr)
                   (of_bytes (from_utf8_lossy (as_bytes (user_name usr))))
                   (of_bytes (from_utf8_lossy (as_bytes (user_home usr)))) of
                 (mounted_devices, w2) \<Rightarrow>
                   (if mounted_devices = [] then (failed MountError, self, w2)
                    else
                      ((result_into_u32 Ok, user_uid usr, user_gid usr),
                       self\<lparr>sessions := (sessions self)(user_name usr \<mapsto>
                         \<lparr>session_mounts = mounted_devices, session_count = 1\<rparr>)\<rparr>, w2)))))"

definition open_user_session ::
  "env \<Rightarrow> Sessions \<Rightarrow> world \<Rightarrow> string \<Rightarrow> u8 list \<Rightarrow> string list \<Rightarrow> string list \<Rightarrow>
   open_answer run \<times> Sessions \<times> world" where
  "open_user_session E self w username password ks km =
    (case env_user E username of
       None \<Rightarrow> (Ret (failed CannotIdentifyUser), self, w)
     | Some usr \<Rightarrow>
         (case sessions self (user_name usr) of
            Some session \<Rightarrow>
              (case usize_add (env_checks E) (session_count session) 1 of
                 Panic \<Rightarrow> (Panic, self, w)
               | Ret n \<Rightarrow>
                   (Ret (result_into_u32 Ok, user_uid usr, user_gid usr),
                    self\<lparr>sessions := (sessions self)(user_name usr \<mapsto> session\<lparr>session_count := n\<rparr>)\<rparr>, w))
          | None \<Rightarrow>
              (case fetch_priv_key self of
                 (Panic, s1) \<Rightarrow> (Panic, s1, w)
               | (Ret (Inl err), s1) \<Rightarrow> (Ret (failed PubKeyError), s1, w)
               | (Ret (Inr key), s1) \<Rightarrow>
                   (case decrypt (env_checks E) (env_crypto E) key password of
                      Panic \<Rightarrow> (Panic, s1, w)
                    | Ret (Inl err) \<Rightarrow> (Ret (failed DataDecryptionFailed), s1, w)
                    | Ret (Inr (otp, pw)) \<Rightarrow>
                        (case take_token E s1 otp of
                           (False, s2) \<Rightarrow>
                             (Ret (failed ServiceOperationResult.EncryptionError), s2, w)
                         | (True, s2) \<Rightarrow>
                             (case open_mounts E s2 w username usr pw ks km of
                                (answer, s3, w3) \<Rightarrow> (Ret answer, s3, w3)))))))"

section \<open>close_user_session and is_user_polyauth_enabled\<close>

definition close_user_session ::
  "env \<Rightarrow> Sessions \<Rightarrow> world \<Rightarrow> string \<Rightarrow> u32 run \<times> Sessions \<times> world" where
  "close_user_session E self w name =
    (case env_user E name of
       None \<Rightarrow> (Ret (result_into_u32 CannotIdentifyUser), self, w)
     | Some usr \<Rightarrow>
         (case sessions self (user_name usr) of
            Some session \<Rightarrow>
              (case usize_sub (env_checks E) (session_count session) 1 of
                 Panic \<Rightarrow> (Panic, self, w)
               | Ret n \<Rightarrow>
                   (if n = 0 then
                      (Ret (result_into_u32 Ok),
                       self\<lparr>sessions := (sessions self)(user_name usr := None)\<rparr>,
                       drop_mounts (env_sys E) w (session_mounts session))
                    else
                      (Ret (result_into_u32 Ok),
                       self\<lparr>sessions := (sessions self)(user_name usr \<mapsto> session\<lparr>session_count := n\<rparr>)\<rparr>, w)))
          | None \<Rightarrow> (Ret (result_into_u32 SessionAlreadyClosed), self, w)))"

definition is_user_polyauth_enabled :: "env \<Rightarrow> world \<Rightarrow> string \<Rightarrow> u32" where
  "is_user_polyauth_enabled E w username =
    (if username = [] then result_into_u32 CannotIdentifyUser
     else if username = ''root'' then result_into_u32 CannotIdentifyUser
     else
       (case load_user_auth_data (env_storage E) (env_sys E) w (Username username) of
          Inr (Some data) \<Rightarrow>
            (if has_main data then result_into_u32 Ok else result_into_u32 CannotIdentifyUser)
        | Inr None \<Rightarrow> result_into_u32 CannotIdentifyUser
        | Inl err \<Rightarrow> result_into_u32 CannotIdentifyUser))"

section \<open>The machine of the service\<close>

text \<open>
  One step is one call on the bus, in the surroundings at that time, or a change of files by another
  process.
\<close>

datatype action =
    Initiate env "nat \<Rightarrow> u8"
  | Open env string "u8 list" "string list" "string list"
  | Close env string
  | Authorize env string string
  | Check env string string
  | Others "path \<rightharpoonup> u8 list"

definition service_step :: "Sessions \<times> world \<Rightarrow> action \<Rightarrow> Sessions \<times> world" where
  "service_step sw a =
    (case sw of (s, w) \<Rightarrow>
       (case a of
          Initiate E random \<Rightarrow> (snd (initiate_session E random s), w)
        | Open E username password ks km \<Rightarrow> snd (open_user_session E s w username password ks km)
        | Close E name \<Rightarrow> snd (close_user_session E s w name)
        | Authorize E u h \<Rightarrow> (s, snd (authorize (env_auth_json E) (env_sys E) w (mounts_auth s) u h))
        | Check E u h \<Rightarrow> (s, snd (check (env_auth_json E) (env_sys E) w (mounts_auth s) u h))
        | Others fs \<Rightarrow> (s, w\<lparr>files := fs\<rparr>)))"

fun action_detaches :: "action \<Rightarrow> bool" where
  "action_detaches (Open E username password ks km) = detaches (env_sys E)"
| "action_detaches (Close E name) = detaches (env_sys E)"
| "action_detaches a = True"

section \<open>The mounts of all sessions\<close>

definition session_sum :: "(string \<rightharpoonup> UserSession) \<Rightarrow> mount_request multiset" where
  "session_sum m = (\<Sum>u \<in> dom m. mset (session_mounts (the (m u))))"

lemma session_sum_empty [simp]: "session_sum Map.empty = {#}"
  by (simp add: session_sum_def)

lemma session_sum_remove:
  assumes "finite (dom m)" and "m u = Some x"
  shows "session_sum m = mset (session_mounts x) + session_sum (m(u := None))"
proof -
  have "session_sum m = mset (session_mounts (the (m u)))
      + (\<Sum>v \<in> dom m - {u}. mset (session_mounts (the (m v))))"
    unfolding session_sum_def using assms by (intro sum.remove) auto
  also have "(\<Sum>v \<in> dom m - {u}. mset (session_mounts (the (m v)))) = session_sum (m(u := None))"
    unfolding session_sum_def by (rule sum.cong) auto
  finally show ?thesis using assms(2) by simp
qed

lemma session_sum_insert:
  assumes "finite (dom m)" and "m u = None"
  shows "session_sum (m(u \<mapsto> x)) = mset (session_mounts x) + session_sum m"
  using session_sum_remove [of "m(u \<mapsto> x)" u x] assms by (simp add: fun_upd_idem)

lemma session_sum_same:
  assumes "m u = Some y" and "session_mounts x = session_mounts y"
  shows "session_sum (m(u \<mapsto> x)) = session_sum m"
  unfolding session_sum_def using assms by (intro sum.cong) auto

lemma session_sum_count:
  "m u = Some x \<Longrightarrow> session_sum (m(u \<mapsto> x\<lparr>session_count := n\<rparr>)) = session_sum m"
  by (rule session_sum_same) simp_all

definition leak_free :: "mount_request multiset \<Rightarrow> Sessions \<times> world \<Rightarrow> bool" where
  "leak_free base sw \<longleftrightarrow>
     finite (dom (sessions (fst sw))) \<and> mounted (snd sw) = base + session_sum (sessions (fst sw))"

lemma read_auth_file_mounted: "mounted (snd (read_auth_file J S w ops)) = mounted w"
  using read_or_create_mounted [of S w "file_path ops"
      "map_err JsonError (auth_to_string_pretty J MountAuth_default)"]
  by (auto simp: read_auth_file_def simp del: read_or_create_mounted split: sum.splits prod.splits)

lemma authorize_mounted: "mounted (snd (authorize J S w ops u h)) = mounted w"
proof -
  obtain r w1 where r: "read_auth_file J S w ops = (r, w1)" by fastforce
  then have w1: "mounted w1 = mounted w" using read_auth_file_mounted [of J S w ops] by simp
  show ?thesis
  proof (cases r)
    case (Inr a)
    have "mounted (snd (write_auth_file J S w1 ops (add_authorization a u h))) = mounted w"
      using w1 by (simp add: write_auth_file_mounted)
    with r Inr w1 show ?thesis
      by (auto simp: authorize_def split: run.splits sum.splits prod.splits)
  qed (use r w1 in \<open>simp add: authorize_def\<close>)
qed

lemma check_mounted: "mounted (snd (check J S w ops u h)) = mounted w"
  using read_auth_file_mounted [of J S w ops]
  by (auto simp: check_def split: sum.splits prod.splits)

lemma fetch_priv_key_frame:
  "fetch_priv_key s = (r, s') \<Longrightarrow>
   sessions s' = sessions s \<and> one_time_tokens s' = one_time_tokens s \<and> mounts_auth s' = mounts_auth s"
  by (auto simp: fetch_priv_key_def split: RsaPrivateKeyFetchOpStatus.splits key_task.splits sum.splits)

lemma initiate_session_sessions: "sessions (snd (initiate_session E random s)) = sessions s"
  by (auto simp: initiate_session_def Let_def dest!: fetch_priv_key_frame
      split: run.splits sum.splits prod.splits)

lemma take_token_frame:
  "take_token E s otp = (b, s') \<Longrightarrow> sessions s' = sessions s \<and> mounts_auth s' = mounts_auth s
   \<and> priv_key s' = priv_key s \<and> one_time_tokens s' = (one_time_tokens s)(env_otp_hash E otp := None)
   \<and> b = (one_time_tokens s (env_otp_hash E otp) = Some otp)"
  by (auto simp: take_token_def Let_def)

lemma mounts_authorized_mounted:
  "mounts_authorized E w ops u ks mps = (b, w') \<Longrightarrow> mounted w' = mounted w"
  by (cases mps) (use read_auth_file_mounted [of "env_auth_json E" "env_sys E" w ops] in
    \<open>auto simp: mounts_authorized_def Let_def split: sum.splits prod.splits\<close>)

section \<open>What opening and closing do\<close>

definition lossy :: "string \<Rightarrow> string" where
  "lossy s = of_bytes (from_utf8_lossy (as_bytes s))"

definition user_requests :: "user \<Rightarrow> string list \<Rightarrow> MountPoints option \<Rightarrow> mount_request list" where
  "user_requests usr km mps =
    session_requests km mps (user_uid usr) (user_gid usr) (lossy (user_home usr))"

lemma user_requests_nonempty [simp]: "user_requests usr km mps \<noteq> []"
  by (simp add: user_requests_def session_requests_def)

text \<open>What root must have authorized when the session of a user is opened in a world.\<close>

definition approved :: "env \<Rightarrow> world \<Rightarrow> MountAuthOperations \<Rightarrow> string \<Rightarrow> string list \<Rightarrow> MountPoints option \<Rightarrow> bool"
where
  "approved E w ops username ks mps \<longleftrightarrow>
     load_user_mountpoints (env_storage E) (env_sys E) w (Username username) = Inr mps
   \<and> (case mps of
        None \<Rightarrow> True
      | Some mp \<Rightarrow>
          (case fst (read_auth_file (env_auth_json E) (env_sys E) w ops) of
             Inr a \<Rightarrow> authorized a username (mount_hash (env_digest E) mp ks)
           | Inl err \<Rightarrow> False))"

lemma failed_not_Ok: "r \<noteq> Ok \<Longrightarrow> fst (failed r) \<noteq> 0"
  by (cases r) (simp_all add: failed_def)

lemma open_mounts_cases:
  assumes "open_mounts E s w username usr pw ks km = (ans, s', w')" and "detaches (env_sys E)"
  obtains (refused) "fst ans \<noteq> result_into_u32 Ok" "s' = s" "mounted w' = mounted w"
  | (opened) mps where "ans = (result_into_u32 Ok, user_uid usr, user_gid usr)"
      "approved E w (mounts_auth s) username ks mps"
      "s' = s\<lparr>sessions := (sessions s)(user_name usr \<mapsto>
         \<lparr>session_mounts = user_requests usr km mps, session_count = 1\<rparr>)\<rparr>"
      "mounted w' = mounted w + mset (user_requests usr km mps)"
proof (cases "load_user_mountpoints (env_storage E) (env_sys E) w (Username username)")
  case (Inl e)
  with assms(1) refused show ?thesis by (auto simp: open_mounts_def failed_not_Ok)
next
  case (Inr mps)
  obtain b w1 where b: "mounts_authorized E w (mounts_auth s) username ks mps = (b, w1)" by fastforce
  then have w1: "mounted w1 = mounted w" by (rule mounts_authorized_mounted)
  obtain hs w2 where hs: "mount_all (env_sys E) w1 km mps pw (user_uid usr) (user_gid usr)
      (lossy (user_name usr)) (lossy (user_home usr)) = (hs, w2)" by fastforce
  note all = mounted_all_or_none [OF assms(2) hs]
  show ?thesis
  proof (cases b)
    case False
    with Inr b w1 assms(1) refused show ?thesis by (auto simp: open_mounts_def failed_not_Ok)
  next
    case True
    then have "approved E w (mounts_auth s) username ks mps"
      using Inr b
      by (auto simp: approved_def mounts_authorized_def Let_def split: option.splits sum.splits prod.splits)
    moreover have "open_mounts E s w username usr pw ks km =
        (if hs = [] then (failed MountError, s, w2)
         else ((result_into_u32 Ok, user_uid usr, user_gid usr),
           s\<lparr>sessions := (sessions s)(user_name usr \<mapsto> \<lparr>session_mounts = hs, session_count = 1\<rparr>)\<rparr>, w2))"
      using Inr b True hs by (simp add: open_mounts_def lossy_def)
    ultimately show ?thesis
      using assms(1) all w1 refused opened [of mps] failed_not_Ok [of MountError]
      by (auto simp: user_requests_def split: if_splits)
  qed
qed

lemma open_new_cases:
  assumes "open_user_session E s w username password ks km = (r, s', w')"
    and "env_user E username = Some usr" and "sessions s (user_name usr) = None"
    and "detaches (env_sys E)"
  obtains (refused) "\<And>c u g. r = Ret (c, u, g) \<Longrightarrow> c \<noteq> result_into_u32 Ok"
      "sessions s' = sessions s" "mounted w' = mounted w"
  | (opened) key s1 otp pw mps where "r = Ret (result_into_u32 Ok, user_uid usr, user_gid usr)"
      "fetch_priv_key s = (Ret (Inr key), s1)"
      "decrypt (env_checks E) (env_crypto E) key password = Ret (Inr (otp, pw))"
      "one_time_tokens s (env_otp_hash E otp) = Some otp"
      "one_time_tokens s' = (one_time_tokens s)(env_otp_hash E otp := None)"
      "approved E w (mounts_auth s) username ks mps"
      "sessions s' = (sessions s)(user_name usr \<mapsto>
         \<lparr>session_mounts = user_requests usr km mps, session_count = 1\<rparr>)"
      "mounted w' = mounted w + mset (user_requests usr km mps)"
proof -
  obtain kr s1 where kr: "fetch_priv_key s = (kr, s1)" by fastforce
  note s1 = fetch_priv_key_frame [OF kr]
  show ?thesis
  proof (cases "\<exists>key otp pw. kr = Ret (Inr key)
      \<and> decrypt (env_checks E) (env_crypto E) key password = Ret (Inr (otp, pw))
      \<and> fst (take_token E s1 otp)")
    case False
    with assms(1-3) kr have "sessions s' = sessions s \<and> w' = w
        \<and> (\<forall>c u g. r = Ret (c, u, g) \<longrightarrow> c \<noteq> result_into_u32 Ok)"
      using s1
      by (auto simp: open_user_session_def failed_def dest!: take_token_frame
          split: run.splits sum.splits prod.splits bool.splits)
    with refused show ?thesis by blast
  next
    case True
    then obtain key otp pw s2 where ok: "kr = Ret (Inr key)"
      "decrypt (env_checks E) (env_crypto E) key password = Ret (Inr (otp, pw))"
      "take_token E s1 otp = (True, s2)"
      by (metis prod.collapse)
    note s2 = take_token_frame [OF ok(3)]
    obtain ans where ans: "open_mounts E s2 w username usr pw ks km = (ans, s', w')" "r = Ret ans"
      using assms(1-3) kr ok by (auto simp: open_user_session_def split: prod.splits)
    from ans(1) assms(4) show ?thesis
    proof (cases rule: open_mounts_cases)
      case refused
      have "c \<noteq> result_into_u32 Ok" if "r = Ret (c, u, g)" for c u g
        using refused(1) ans(2) that by (cases ans) simp
      with refused(2,3) s1 s2 that(1) show ?thesis by metis
    next
      case (opened mps)
      with ans(2) s1 s2 kr ok that(2) show ?thesis by simp
    qed
  qed
qed

lemma open_known_cases:
  assumes "open_user_session E s w username password ks km = (r, s', w')"
    and "env_user E username = Some usr" and "sessions s (user_name usr) = Some x"
  shows "w' = w \<and> (s' = s \<and> r = Panic
    \<or> (\<exists>n. usize_add (env_checks E) (session_count x) 1 = Ret n
       \<and> r = Ret (result_into_u32 Ok, user_uid usr, user_gid usr)
       \<and> s' = s\<lparr>sessions := (sessions s)(user_name usr \<mapsto> x\<lparr>session_count := n\<rparr>)\<rparr>))"
  using assms by (auto simp: open_user_session_def split: run.splits)

lemma close_cases:
  assumes "close_user_session E s w name = (r, s', w')"
    and "env_user E name = Some usr" and "sessions s (user_name usr) = Some x"
  obtains (stuck) "r = Panic" "s' = s" "w' = w"
  | (last) "usize_sub (env_checks E) (session_count x) 1 = Ret 0" "r = Ret (result_into_u32 Ok)"
      "s' = s\<lparr>sessions := (sessions s)(user_name usr := None)\<rparr>"
      "w' = drop_mounts (env_sys E) w (session_mounts x)"
  | (more) n where "usize_sub (env_checks E) (session_count x) 1 = Ret n" "n \<noteq> 0"
      "r = Ret (result_into_u32 Ok)"
      "s' = s\<lparr>sessions := (sessions s)(user_name usr \<mapsto> x\<lparr>session_count := n\<rparr>)\<rparr>" "w' = w"
  using assms by (auto simp: close_user_session_def split: run.splits if_splits)

lemma close_other:
  "env_user E name = None \<Longrightarrow>
     close_user_session E s w name = (Ret (result_into_u32 CannotIdentifyUser), s, w)"
  "env_user E name = Some usr \<Longrightarrow> sessions s (user_name usr) = None \<Longrightarrow>
     close_user_session E s w name = (Ret (result_into_u32 SessionAlreadyClosed), s, w)"
  by (simp_all add: close_user_session_def)

lemma leak_free_open:
  assumes "leak_free base (s, w)" and "detaches (env_sys E)"
    and "open_user_session E s w username password ks km = (r, s', w')"
  shows "leak_free base (s', w')"
proof (cases "env_user E username")
  case None
  with assms(1,3) show ?thesis by (auto simp: open_user_session_def)
next
  case (Some usr)
  show ?thesis
  proof (cases "sessions s (user_name usr)")
    case None
    from assms(3) Some None assms(2) show ?thesis
    proof (cases rule: open_new_cases)
      case refused
      with assms(1) show ?thesis by (simp add: leak_free_def)
    next
      case (opened key s1 otp pw mps)
      with assms(1) None show ?thesis
        by (simp add: leak_free_def session_sum_insert ac_simps)
    qed
  next
    case x: (Some x)
    from open_known_cases [OF assms(3) Some x] assms(1) show ?thesis
      by (auto simp: leak_free_def session_sum_count [of "sessions s", OF x])
  qed
qed

lemma leak_free_close:
  assumes "leak_free base (s, w)" and "detaches (env_sys E)"
    and "close_user_session E s w name = (r, s', w')"
  shows "leak_free base (s', w')"
proof (cases "env_user E name")
  case None
  with assms(1,3) show ?thesis by (simp add: close_other)
next
  case (Some usr)
  show ?thesis
  proof (cases "sessions s (user_name usr)")
    case None
    with Some assms(1,3) show ?thesis by (simp add: close_other)
  next
    case x: (Some x)
    from assms(3) Some x show ?thesis
    proof (cases rule: close_cases)
      case stuck
      with assms(1) show ?thesis by simp
    next
      case last
      with assms(1) session_sum_remove [of "sessions s" "user_name usr" x] x show ?thesis
        by (simp add: leak_free_def drop_mounts_detaches [OF assms(2)])
    next
      case (more n)
      with assms(1) show ?thesis by (auto simp: leak_free_def session_sum_count [of "sessions s", OF x])
    qed
  qed
qed

lemma leak_free_step:
  assumes "leak_free base sw" and "action_detaches a"
  shows "leak_free base (service_step sw a)"
proof -
  obtain s w where sw: "sw = (s, w)" by fastforce
  show ?thesis
  proof (cases a)
    case (Initiate E random)
    with assms(1) sw show ?thesis
      by (simp add: service_step_def leak_free_def initiate_session_sessions)
  next
    case (Open E username password ks km)
    obtain r s' w' where "open_user_session E s w username password ks km = (r, s', w')"
      by (metis prod.exhaust)
    with leak_free_open [of base s w E username password ks km r s' w'] assms sw Open show ?thesis
      by (simp add: service_step_def)
  next
    case (Close E name)
    obtain r s' w' where "close_user_session E s w name = (r, s', w')" by (metis prod.exhaust)
    with leak_free_close [of base s w E name r s' w'] assms sw Close show ?thesis
      by (simp add: service_step_def)
  next
    case (Authorize E u h)
    with assms(1) sw show ?thesis by (simp add: service_step_def leak_free_def authorize_mounted)
  next
    case (Check E u h)
    with assms(1) sw show ?thesis by (simp add: service_step_def leak_free_def check_mounted)
  next
    case (Others fs)
    with assms(1) sw show ?thesis by (simp add: service_step_def leak_free_def)
  qed
qed

interpretation service: machine service_step "leak_free base" action_detaches for base
  by unfold_locales (rule leak_free_step)

text \<open>
  C10: no mount leaks. Along every run of calls and file changes from the start of the service (with
  any failures but that of detaching), the mounts of the system are those at the start plus, for each
  user with a session, exactly the mounts its session holds.
\<close>

theorem mounts_are_sessions:
  assumes "Sessions_new C S w0 key_path ops generated = (s0, w)"
    and "list_all action_detaches as" and "foldl service_step (s0, w) as = (s', w')"
  shows "finite (dom (sessions s')) \<and> mounted w' = mounted w + session_sum (sessions s')"
proof -
  have "sessions s0 = Map.empty"
    using assms(1) by (auto simp: Sessions_new_def split: prod.splits)
  then have "leak_free (mounted w) (s0, w)" by (simp add: leak_free_def)
  from service.run_inv [OF this assms(2)] assms(3) show ?thesis by (simp add: leak_free_def)
qed

section \<open>Opening a session\<close>


section \<open>Replayed messages\<close>

text \<open>Without a new token being issued the tokens only become fewer, and a key that is ready stays.\<close>

fun issues_no_token :: "action \<Rightarrow> bool" where
  "issues_no_token (Initiate E random) = False"
| "issues_no_token a = True"

definition spent :: "rsa_private_key \<Rightarrow> u64 \<Rightarrow> Sessions \<times> world \<Rightarrow> bool" where
  "spent key t sw \<longleftrightarrow> priv_key (fst sw) = Ready key \<and> one_time_tokens (fst sw) t = None"

lemma fetch_ready: "priv_key s = Ready key \<Longrightarrow> fetch_priv_key s = (Ret (Inr key), s)"
  by (simp add: fetch_priv_key_def)

lemma fetch_makes_ready:
  "fetch_priv_key s = (Ret (Inr key), s') \<Longrightarrow> priv_key s' = Ready key"
  by (auto simp: fetch_priv_key_def split: RsaPrivateKeyFetchOpStatus.splits key_task.splits sum.splits)

lemma open_mounts_tokens:
  "open_mounts E s w username usr pw ks km = (ans, s', w') \<Longrightarrow>
   one_time_tokens s' = one_time_tokens s \<and> priv_key s' = priv_key s \<and> mounts_auth s' = mounts_auth s"
  by (auto simp: open_mounts_def split: sum.splits prod.splits bool.splits if_splits)

lemma spent_open:
  assumes "spent key t (s, w)"
    and "open_user_session E s w username password ks km = (r, s', w')"
  shows "spent key t (s', w')"
proof -
  have ready: "priv_key s = Ready key" and none: "one_time_tokens s t = None"
    using assms(1) by (simp_all add: spent_def)
  show ?thesis
    using assms(2) ready none
    by (auto simp: open_user_session_def fetch_ready [OF ready] spent_def
        dest!: take_token_frame open_mounts_tokens
        split: option.splits run.splits sum.splits prod.splits bool.splits)
qed

lemma spent_close:
  "spent key t (s, w) \<Longrightarrow> close_user_session E s w name = (r, s', w') \<Longrightarrow> spent key t (s', w')"
  by (auto simp: close_user_session_def spent_def split: option.splits run.splits if_splits)

lemma spent_step:
  assumes "spent key t sw" and "issues_no_token a"
  shows "spent key t (service_step sw a)"
proof -
  obtain s w where sw: "sw = (s, w)" by fastforce
  show ?thesis
  proof (cases a)
    case (Open E username password ks km)
    obtain r s' w' where "open_user_session E s w username password ks km = (r, s', w')"
      by (metis prod.exhaust)
    with spent_open [of key t s w E username password ks km r s' w'] assms sw Open show ?thesis
      by (simp add: service_step_def)
  next
    case (Close E name)
    obtain r s' w' where "close_user_session E s w name = (r, s', w')" by (metis prod.exhaust)
    with spent_close [of key t s w E name r s' w'] assms sw Close show ?thesis
      by (simp add: service_step_def)
  qed (use assms sw in \<open>simp_all add: service_step_def spent_def\<close>)
qed

interpretation token: machine service_step "spent key t" issues_no_token for key t
  by unfold_locales (rule spent_step)

text \<open>
  C11: a password message works once. After a message opened a session, and any further calls that
  issue no new token, the same message is refused for every user who has no session, by a service
  with the same key and hasher, and changes neither sessions nor the world.
\<close>

theorem replayed_password_rejected:
  assumes "open_user_session E s w username password ks km = (Ret (result_into_u32 Ok, u, g), s1, w1)"
    and "env_user E username = Some usr" and "sessions s (user_name usr) = None"
    and "detaches (env_sys E)"
    and "list_all issues_no_token as" and "foldl service_step (s1, w1) as = (s2, w2)"
    and "env_user E' victim = Some usr'" and "sessions s2 (user_name usr') = None"
    and "env_crypto E' = env_crypto E" and "env_checks E' = env_checks E"
    and "env_otp_hash E' = env_otp_hash E"
  shows "\<exists>s3. open_user_session E' s2 w2 victim password ks' km'
      = (Ret (failed ServiceOperationResult.EncryptionError), s3, w2) \<and> sessions s3 = sessions s2"
proof -
  from assms(1-4) obtain key sx otp pw where opened: "fetch_priv_key s = (Ret (Inr key), sx)"
    "decrypt (env_checks E) (env_crypto E) key password = Ret (Inr (otp, pw))"
    "one_time_tokens s1 = (one_time_tokens s)(env_otp_hash E otp := None)"
    by (cases rule: open_new_cases) auto
  have "priv_key s1 = Ready key"
    using assms(1-3) opened(1,2) fetch_makes_ready [OF opened(1)]
    by (auto simp: open_user_session_def failed_def dest!: take_token_frame open_mounts_tokens
        split: prod.splits bool.splits)
  with opened(3) have "spent key (env_otp_hash E otp) (s1, w1)" by (simp add: spent_def)
  from token.run_inv [OF this assms(5)] assms(6)
  have "priv_key s2 = Ready key" "one_time_tokens s2 (env_otp_hash E otp) = None"
    by (simp_all add: spent_def)
  then show ?thesis
    using assms(7-11) opened(2)
    by (simp add: open_user_session_def fetch_ready take_token_def Let_def)
qed

section \<open>A whole login\<close>

lemma read_auth_existing:
  "path_exists w (file_path ops) \<Longrightarrow> snd (read_auth_file J S w ops) = w"
  by (simp add: read_auth_file_def read_file_or_create_default_def split: sum.split)

lemma mounts_authorized_approved:
  assumes "approved E w ops username ks mps" and "path_exists w (file_path ops)"
  shows "mounts_authorized E w ops username ks mps = (True, w)"
  using assms read_auth_existing [OF assms(2), of "env_auth_json E" "env_sys E"]
  by (cases "read_auth_file (env_auth_json E) (env_sys E) w ops")
    (auto simp: approved_def mounts_authorized_def Let_def split: option.splits sum.splits)

lemma open_mounts_succeeds:
  assumes "approved E w (mounts_auth s) username ks mps" and "path_exists w (file_path (mounts_auth s))"
    and "reliable (env_sys E)"
    and "\<forall>t \<in> {XDG_RUNTIME_DIR_PATH, user_xdg_path (user_uid usr), lossy (user_home usr)}. files w t = None"
    and "\<forall>mp k. mps = Some mp \<and> k \<in> dom (mounts mp) \<longrightarrow> files w k = None"
  shows "\<exists>s' w'. open_mounts E s w username usr pw ks km
    = ((result_into_u32 Ok, user_uid usr, user_gid usr), s', w')"
proof -
  obtain w' where w': "mount_all (env_sys E) w km mps pw (user_uid usr) (user_gid usr)
      (lossy (user_name usr)) (lossy (user_home usr))
      = (user_requests usr km mps, w')"
    using mount_all_mounts [OF assms(3-5), of km pw "user_gid usr" "lossy (user_name usr)"]
    by (auto simp: user_requests_def)
  with assms(1) mounts_authorized_approved [OF assms(1,2)] show ?thesis
    by (simp add: open_mounts_def approved_def lossy_def)
qed

lemma login_opens:
  assumes "aes_correct (env_crypto E)" and "aes_tagged (env_crypto E)" and "rsa_correct (env_crypto E)"
    and "pem_correct (env_crypto E)" and "crypto_total (env_crypto E)" and "prelude_draws_ok d"
    and "fetch_priv_key s = (Ret (Inr key), s0)"
    and "rsa_public_to_pem (env_crypto E) (rsa_public (env_crypto E) key) = Inr pem"
    and "rsa_encrypt (env_crypto E) (rsa_public (env_crypto E) key) (rsa_padding d) (aes_key d) = Inr ek"
    and "length ek + 530 < 2 ^ 64" and "length pw \<le> 255"
    and "env_prelude_json E (SessionPrelude_new random pem) = Inr serialized"
    and "env_user E username = Some usr" and "sessions s (user_name usr) = None"
    and "approved E w (mounts_auth s) username ks mps" and "path_exists w (file_path (mounts_auth s))"
    and "reliable (env_sys E)"
    and "\<forall>t \<in> {XDG_RUNTIME_DIR_PATH, user_xdg_path (user_uid usr), lossy (user_home usr)}. files w t = None"
    and "\<forall>mp k. mps = Some mp \<and> k \<in> dom (mounts mp) \<longrightarrow> files w k = None"
  shows "\<exists>s1 ct s2 w2. initiate_session E random s = (Ret serialized, s1)
    \<and> encrypt (env_crypto E) d (SessionPrelude_new random pem) pw = Ret (Inr ct)
    \<and> open_user_session E s1 w username ct ks km
        = (Ret (result_into_u32 Ok, user_uid usr, user_gid usr), s2, w2)
    \<and> sessions s1 = sessions s
    \<and> mounted w2 = mounted w + mset (user_requests usr km mps)
    \<and> sessions s2 = (sessions s)(user_name usr \<mapsto>
         \<lparr>session_mounts = user_requests usr km mps, session_count = 1\<rparr>)"
proof -
  let ?tok = "map random [0..<255]"
  define s1 where "s1 = s0\<lparr>one_time_tokens := (one_time_tokens s0)(env_otp_hash E ?tok \<mapsto> ?tok)\<rparr>"
  have init: "initiate_session E random s = (Ret serialized, s1)"
    using assms(7,8,12) by (simp add: initiate_session_def Let_def s1_def SessionPrelude_new_def)
  obtain ct where ct: "encrypt (env_crypto E) d (SessionPrelude_new random pem) pw = Ret (Inr ct)"
    "decrypt (env_checks E) (env_crypto E) key ct = Ret (Inr (?tok, non_zero (as_bytes pw)))"
    using encrypt_decrypts [OF assms(1-6,8-11)] by blast
  have key: "fetch_priv_key s1 = (Ret (Inr key), s1)"
    using fetch_makes_ready [OF assms(7)] by (simp add: s1_def fetch_ready)
  have none: "sessions s1 (user_name usr) = None"
    using fetch_priv_key_frame [OF assms(7)] assms(14) by (simp add: s1_def)
  obtain s2 where s2: "take_token E s1 ?tok = (True, s2)"
    by (simp add: take_token_def Let_def s1_def)
  have "mounts_auth s2 = mounts_auth s"
    using take_token_frame [OF s2] fetch_priv_key_frame [OF assms(7)] by (simp add: s1_def)
  then obtain s3 w3 where "open_mounts E s2 w username usr (non_zero (as_bytes pw)) ks km
      = ((result_into_u32 Ok, user_uid usr, user_gid usr), s3, w3)"
    using open_mounts_succeeds [of E w s2 username ks mps usr "non_zero (as_bytes pw)" km] assms(15-19)
    by auto
  then have opened: "open_user_session E s1 w username ct ks km
      = (Ret (result_into_u32 Ok, user_uid usr, user_gid usr), s3, w3)"
    using assms(13) none key ct(2) s2 by (simp add: open_user_session_def)
  have same: "sessions s1 = sessions s"
    using fetch_priv_key_frame [OF assms(7)] by (simp add: s1_def)
  have "mounted w3 = mounted w + mset (user_requests usr km mps)
    \<and> sessions s3 = (sessions s)(user_name usr \<mapsto>
         \<lparr>session_mounts = user_requests usr km mps, session_count = 1\<rparr>)"
    using opened assms(13) none reliable_detaches [OF assms(17)]
  proof (cases rule: open_new_cases)
    case (opened key' s1' otp pw' mps')
    have "mounts_auth s1 = mounts_auth s"
      using fetch_priv_key_frame [OF assms(7)] by (simp add: s1_def)
    with opened(6,7,8) assms(15) same show ?thesis by (simp add: approved_def)
  qed simp
  with init ct(1) opened same show ?thesis by blast
qed

text \<open>
  C12: a login from end to end. With working cryptography, from a service whose key is available: the
  session is initiated, the client encrypts a password with the token it was given, and opening the
  session of a user without one succeeds with the user's numbers and mounts exactly what was
  requested, when root had authorized it, no call fails and no mount point is a regular file.
\<close>

theorem login_end_to_end:
  assumes "aes_correct (env_crypto E)" and "aes_tagged (env_crypto E)" and "rsa_correct (env_crypto E)"
    and "pem_correct (env_crypto E)" and "crypto_total (env_crypto E)" and "prelude_draws_ok d"
    and "fetch_priv_key s = (Ret (Inr key), s0)"
    and "rsa_public_to_pem (env_crypto E) (rsa_public (env_crypto E) key) = Inr pem"
    and "rsa_encrypt (env_crypto E) (rsa_public (env_crypto E) key) (rsa_padding d) (aes_key d) = Inr ek"
    and "length ek + 530 < 2 ^ 64" and "length pw \<le> 255"
    and "env_prelude_json E (SessionPrelude_new random pem) = Inr serialized"
    and "env_user E username = Some usr" and "sessions s (user_name usr) = None"
    and "approved E w (mounts_auth s) username ks mps" and "path_exists w (file_path (mounts_auth s))"
    and "reliable (env_sys E)"
    and "\<forall>t \<in> {XDG_RUNTIME_DIR_PATH, user_xdg_path (user_uid usr), lossy (user_home usr)}. files w t = None"
    and "\<forall>mp k. mps = Some mp \<and> k \<in> dom (mounts mp) \<longrightarrow> files w k = None"
  shows "\<exists>s1 ct s2 w2. initiate_session E random s = (Ret serialized, s1)
    \<and> encrypt (env_crypto E) d (SessionPrelude_new random pem) pw = Ret (Inr ct)
    \<and> open_user_session E s1 w username ct ks km
        = (Ret (result_into_u32 Ok, user_uid usr, user_gid usr), s2, w2)
    \<and> mounted w2 = mounted w + mset (user_requests usr km mps)"
  using login_opens [OF assms] by blast

section \<open>Counting\<close>

text \<open>A call for one user: opening with some password bytes, or closing.\<close>

definition user_call :: "env \<Rightarrow> string \<Rightarrow> u8 list option \<Rightarrow> action" where
  "user_call E username c =
    (case c of Some password \<Rightarrow> Open E username password [] [] | None \<Rightarrow> Close E username)"

text \<open>The count after a sequence of calls that never closes the last open.\<close>

fun held :: "nat \<Rightarrow> 'a option list \<Rightarrow> nat option" where
  "held n [] = Some n"
| "held n (Some p # cs) = held (Suc n) cs"
| "held n (None # cs) = (if n \<le> 1 then None else held (n - 1) cs)"

lemma count_up:
  "unat n + 1 < 2 ^ 64 \<Longrightarrow> usize_add checks n 1 = Ret (n + 1) \<and> unat (n + 1) = unat n + 1"
  by (auto simp: usize_add_def unat_word_ariths(1))

lemma count_down:
  "1 < unat n \<Longrightarrow> usize_sub checks n 1 = Ret (n - 1) \<and> unat (n - 1) = unat n - 1 \<and> n - 1 \<noteq> 0"
proof -
  assume n: "1 < unat n"
  then have "(1 :: usize) \<le> n" by (simp add: word_le_nat_alt)
  then have "unat (n - 1) = unat n - 1" by (simp add: unat_sub)
  with n show ?thesis by (auto simp: usize_sub_def unsigned_eq_0_iff)
qed

lemma known_open_step:
  assumes "env_user E username = Some usr" and "sessions s (user_name usr) = Some x"
    and "unat (session_count x) + 1 < 2 ^ 64"
  shows "service_step (s, w) (user_call E username (Some p)) =
    (s\<lparr>sessions := (sessions s)(user_name usr \<mapsto> x\<lparr>session_count := session_count x + 1\<rparr>)\<rparr>, w)"
  using assms count_up [OF assms(3), of "env_checks E"]
  by (simp add: service_step_def user_call_def open_user_session_def)

lemma known_close_step:
  assumes "env_user E username = Some usr" and "sessions s (user_name usr) = Some x"
    and "1 < unat (session_count x)"
  shows "service_step (s, w) (user_call E username None) =
    (s\<lparr>sessions := (sessions s)(user_name usr \<mapsto> x\<lparr>session_count := session_count x - 1\<rparr>)\<rparr>, w)"
  using assms count_down [OF assms(3), of "env_checks E"]
  by (simp add: service_step_def user_call_def close_user_session_def)

text \<open>One more call in front of a run that only counts.\<close>

lemma counted_step:
  assumes "service_step (s, w) a = (s\<lparr>sessions := (sessions s)(u \<mapsto> x\<lparr>session_count := k\<rparr>)\<rparr>, w)"
    and "\<And>s'. sessions s' u = Some (x\<lparr>session_count := k\<rparr>) \<Longrightarrow>
      \<exists>n. unat n = m \<and> foldl service_step (s', w) as
        = (s'\<lparr>sessions := (sessions s')(u \<mapsto> x\<lparr>session_count := k\<rparr>\<lparr>session_count := n\<rparr>)\<rparr>, w)"
  shows "\<exists>n. unat n = m \<and> foldl service_step (s, w) (a # as)
      = (s\<lparr>sessions := (sessions s)(u \<mapsto> x\<lparr>session_count := n\<rparr>)\<rparr>, w)"
proof -
  let ?s = "s\<lparr>sessions := (sessions s)(u \<mapsto> x\<lparr>session_count := k\<rparr>)\<rparr>"
  obtain n where n: "unat n = m" "foldl service_step (?s, w) as
      = (?s\<lparr>sessions := (sessions ?s)(u \<mapsto> x\<lparr>session_count := k\<rparr>\<lparr>session_count := n\<rparr>)\<rparr>, w)"
    using assms(2) [of ?s] by auto
  moreover have "?s\<lparr>sessions := (sessions ?s)(u \<mapsto> x\<lparr>session_count := k\<rparr>\<lparr>session_count := n\<rparr>)\<rparr>
      = s\<lparr>sessions := (sessions s)(u \<mapsto> x\<lparr>session_count := n\<rparr>)\<rparr>"
    by (cases s) (simp add: fun_eq_iff)
  ultimately show ?thesis
    using assms(1) by (intro exI [of _ n] conjI) (simp_all only: foldl_Cons)
qed

lemma session_held:
  assumes "env_user E username = Some usr"
  shows "sessions s (user_name usr) = Some x \<Longrightarrow> held (unat (session_count x)) cs = Some m \<Longrightarrow>
    unat (session_count x) + length cs < 2 ^ 64 \<Longrightarrow>
    \<exists>n. unat n = m \<and> foldl service_step (s, w) (map (user_call E username) cs)
      = (s\<lparr>sessions := (sessions s)(user_name usr \<mapsto> x\<lparr>session_count := n\<rparr>)\<rparr>, w)"
proof (induction cs arbitrary: s x)
  case Nil
  then show ?case by (intro exI [of _ "session_count x"]) (simp add: fun_upd_idem)
next
  case (Cons c cs)
  show ?case
  proof (cases c)
    case (Some p)
    have "unat (session_count x + 1) = unat (session_count x) + 1"
      using Cons.prems(3) count_up [of "session_count x" True] by simp
    then show ?thesis
      unfolding list.map using Cons.prems Some known_open_step [OF assms Cons.prems(1), of w p]
      by (intro counted_step [where k = "session_count x + 1"] Cons.IH) simp_all
  next
    case None
    have many: "1 < unat (session_count x)" using Cons.prems(2) None by (simp split: if_splits)
    then have "unat (session_count x - 1) = unat (session_count x) - 1"
      using count_down by blast
    then show ?thesis
      unfolding list.map using Cons.prems None many known_close_step [OF assms Cons.prems(1) many, of w]
      by (intro counted_step [where k = "session_count x - 1"] Cons.IH) simp_all
  qed
qed

text \<open>
  Sessions are counted. From a session with some count, any sequence of opens and closes of its
  user that never closes the last open keeps the mounts and the whole world as they were and leaves
  the count of the opens less the closes; and a close at count one removes the session and unmounts
  what it held.
\<close>

theorem session_counting:
  assumes "env_user E username = Some usr" and "sessions s (user_name usr) = Some x"
    and "held (unat (session_count x)) cs = Some m" and "unat (session_count x) + length cs < 2 ^ 64"
  shows "\<exists>n s'. unat n = m
    \<and> foldl service_step (s, w) (map (user_call E username) cs) = (s', w)
    \<and> s' = s\<lparr>sessions := (sessions s)(user_name usr \<mapsto> x\<lparr>session_count := n\<rparr>)\<rparr>
    \<and> (m = 1 \<longrightarrow> close_user_session E s' w username
        = (Ret (result_into_u32 Ok), s'\<lparr>sessions := (sessions s)(user_name usr := None)\<rparr>,
           drop_mounts (env_sys E) w (session_mounts x)))"
proof -
  obtain n where n: "unat n = m" "foldl service_step (s, w) (map (user_call E username) cs)
      = (s\<lparr>sessions := (sessions s)(user_name usr \<mapsto> x\<lparr>session_count := n\<rparr>)\<rparr>, w)"
    using session_held [OF assms] by blast
  moreover have "m = 1 \<Longrightarrow> n = 1" using n(1) by (metis unat_1 word_unat_eq_iff)
  ultimately show ?thesis
    using assms(1) by (auto simp: close_user_session_def usize_sub_def)
qed

text \<open>
  A second open asks for nothing. While a user's session is open, opening it again succeeds for
  whatever bytes are passed as the password, without decrypting them, without a token and without a
  look at the authorizations, and hands out the user's numbers.
\<close>

theorem open_again_ignores_password:
  assumes "env_user E username = Some usr" and "sessions s (user_name usr) = Some x"
    and "unat (session_count x) + 1 < 2 ^ 64"
  shows "open_user_session E s w username password ks km =
    (Ret (result_into_u32 Ok, user_uid usr, user_gid usr),
     s\<lparr>sessions := (sessions s)(user_name usr \<mapsto> x\<lparr>session_count := session_count x + 1\<rparr>)\<rparr>, w)"
  using assms count_up [OF assms(3), of "env_checks E"] by (simp add: open_user_session_def)

text \<open>
  C26: a key that could not be fetched poisons the service. When the task that fetches the private key
  ends in an error, the first request is answered (with an empty string, or the public key error),
  and every later request that needs the key panics, because the finished task is awaited again.
\<close>

theorem failed_key_panics_later:
  assumes "priv_key s = InProgress (Finished r)" and "\<nexists>key. r = Inr (Inr key)"
    and "env_user E username = Some usr" and "sessions s (user_name usr) = None"
  shows "\<exists>s1. initiate_session E random s = (Ret [], s1)
    \<and> open_user_session E s w username password ks km = (Ret (failed PubKeyError), s1, w)
    \<and> initiate_session E random' s1 = (Panic, s1)
    \<and> open_user_session E s1 w username password' ks' km' = (Panic, s1, w)"
proof -
  obtain e where "fetch_priv_key s = (Ret (Inl e), s\<lparr>priv_key := InProgress Awaited\<rparr>)"
  proof (cases r)
    case (Inl err)
    with assms(1) that show ?thesis by (simp add: fetch_priv_key_def)
  next
    case (Inr q)
    with assms(2) obtain err where "q = Inl err" by (cases q) auto
    with Inr assms(1) that show ?thesis by (simp add: fetch_priv_key_def)
  qed
  moreover have "fetch_priv_key (s\<lparr>priv_key := InProgress Awaited\<rparr>)
      = (Panic, s\<lparr>priv_key := InProgress Awaited\<rparr>)"
    by (simp add: fetch_priv_key_def)
  ultimately show ?thesis
    using assms(3,4)
    by (intro exI [of _ "s\<lparr>priv_key := InProgress Awaited\<rparr>"])
      (simp add: initiate_session_def open_user_session_def)
qed

text \<open>
  Who is enabled. The answer is success exactly for the users other than root, with a non-empty
  name, whose stored data loads and has a main password.
\<close>

theorem polyauth_enabled_iff:
  "is_user_polyauth_enabled E w username = result_into_u32 Ok \<longleftrightarrow>
     username \<notin> {[], ''root''}
   \<and> (\<exists>data. load_user_auth_data (env_storage E) (env_sys E) w (Username username) = Inr (Some data)
        \<and> has_main data)"
  by (auto simp: is_user_polyauth_enabled_def split: sum.splits option.splits)

section \<open>Instances\<close>

definition demo_user :: user where
  "demo_user = \<lparr>user_name = ''u'', user_uid = 1000, user_gid = 100, user_home = ''/home/u''\<rparr>"

definition demo_env :: env where
  "demo_env =
    \<lparr>env_sys = demo_sys, env_checks = True, env_crypto = toy_crypto,
     env_storage = toy_crates UserConfig_new, env_auth_json = toy_auth_json,
     env_prelude_json = (\<lambda>p. Inr (pub_pkcs1_pem p)),
     env_user = (\<lambda>n. if n = ''u'' then Some demo_user else None),
     env_otp_hash = (\<lambda>bs. of_nat (length bs)), env_digest = (\<lambda>_. 0)\<rparr>"

definition demo_sessions :: Sessions where
  "demo_sessions = \<lparr>mounts_auth = toy_ops, priv_key = InProgress (Finished (Inr (Inr (as_bytes ''k'')))),
     one_time_tokens = Map.empty, sessions = Map.empty\<rparr>"

lemma demo_env_simps [simp]:
  "env_sys demo_env = demo_sys" "env_crypto demo_env = toy_crypto" "env_checks demo_env = True"
  "env_user demo_env ''u'' = Some demo_user" "user_name demo_user = ''u''" "user_home demo_user = ''/home/u''"
  by (simp_all add: demo_env_def demo_user_def)

lemma demo_fetch: "fetch_priv_key demo_sessions
    = (Ret (Inr (as_bytes ''k'')), demo_sessions\<lparr>priv_key := Ready (as_bytes ''k'')\<rparr>)"
  by (simp add: fetch_priv_key_def demo_sessions_def del: as_bytes_Cons)

lemma demo_approved: "approved demo_env toy_file_world toy_ops ''u'' [] None"
  by (simp add: approved_def load_user_mountpoints_def load_config_from_source_def demo_env_def
      config_path_from_source_def config_path_for_username_def path_join_def POLYAUTH_CONFIG_DIR_def
      path_exists_def toy_file_world_def demo_world_def)

lemma lossy_ascii: "list_all (\<lambda>b. b < 128) (as_bytes s) \<Longrightarrow> lossy s = s"
  by (simp add: lossy_def from_utf8_lossy_valid utf8_valid_ascii)

lemma demo_free:
  "\<forall>t \<in> {XDG_RUNTIME_DIR_PATH, user_xdg_path (user_uid demo_user), lossy (user_home demo_user)}.
     files toy_file_world t = None"
proof -
  have "lossy ''/home/u'' = ''/home/u''" by (rule lossy_ascii) simp
  moreover have "dec_nat (unat (user_uid demo_user)) = ''1000''"
    by (simp add: demo_user_def dec_nat.simps char_of_def bit_0)
  ultimately show ?thesis
    by (simp add: XDG_RUNTIME_DIR_PATH_def user_xdg_path_def path_join_def toy_file_world_def
        demo_world_def)
qed

lemmas demo_login_hyps =
  toy_aes_correct toy_aes_tagged toy_rsa_correct toy_pem_correct toy_crypto_total

lemma demo_key_facts:
  "rsa_public_to_pem toy_crypto (rsa_public toy_crypto (as_bytes ''k'')) = Inr ''k''"
  "rsa_encrypt toy_crypto (rsa_public toy_crypto (as_bytes ''k'')) (rsa_padding toy_prelude_draws)
     (aes_key toy_prelude_draws) = Inr (replicate 32 7)"
  "env_prelude_json demo_env (SessionPrelude_new of_nat ''k'') = Inr ''k''"
  "sessions demo_sessions (user_name demo_user) = None"
  "path_exists toy_file_world (file_path (mounts_auth demo_sessions))"
  "approved demo_env toy_file_world (mounts_auth demo_sessions) ''u'' [] None"
  using demo_approved
  by (simp_all add: toy_crypto_def toy_prelude_draws_def demo_env_def SessionPrelude_new_def
      demo_sessions_def path_exists_def toy_file_world_def toy_ops_def del: as_bytes_Cons)

theorem login_end_to_end_witness:
  "\<exists>s1 ct s2 w2. initiate_session demo_env of_nat demo_sessions = (Ret ''k'', s1)
     \<and> encrypt toy_crypto toy_prelude_draws (SessionPrelude_new of_nat ''k'') ''secret'' = Ret (Inr ct)
     \<and> open_user_session demo_env s1 toy_file_world ''u'' ct [] []
         = (Ret (result_into_u32 Ok, user_uid demo_user, user_gid demo_user), s2, w2)
     \<and> mounted w2 = mounted toy_file_world + mset (user_requests demo_user [] None)"
  using login_end_to_end [where E = demo_env and d = toy_prelude_draws and s = demo_sessions
      and key = "as_bytes ''k''" and pem = "''k''" and ek = "replicate 32 7" and pw = "''secret''"
      and random = of_nat and serialized = "''k''" and username = "''u''" and usr = demo_user
      and w = toy_file_world and ks = "[]" and km = "[]" and mps = None]
    demo_fetch demo_key_facts demo_free
  by (simp del: as_bytes_Cons result_into_u32.simps)

text \<open>The opened session of the demonstration, and the world in which it is closed again.\<close>

lemma demo_opened:
  obtains s1 ct s2 w2 where
    "initiate_session demo_env of_nat demo_sessions = (Ret ''k'', s1)"
    "open_user_session demo_env s1 toy_file_world ''u'' ct [] []
       = (Ret (result_into_u32 Ok, 1000, 100), s2, w2)"
    "sessions s1 = Map.empty"
    "sessions s2 = [''u'' \<mapsto> \<lparr>session_mounts = user_requests demo_user [] None, session_count = 1\<rparr>]"
proof -
  obtain s1 ct s2 w2 where "initiate_session demo_env of_nat demo_sessions = (Ret ''k'', s1)"
    "open_user_session demo_env s1 toy_file_world ''u'' ct [] []
       = (Ret (result_into_u32 Ok, user_uid demo_user, user_gid demo_user), s2, w2)"
    "sessions s1 = sessions demo_sessions"
    "sessions s2 = (sessions demo_sessions)(''u'' \<mapsto>
       \<lparr>session_mounts = user_requests demo_user [] None, session_count = 1\<rparr>)"
    using login_opens [where E = demo_env and d = toy_prelude_draws and s = demo_sessions
        and key = "as_bytes ''k''" and pem = "''k''" and ek = "replicate 32 7" and pw = "''secret''"
        and random = of_nat and serialized = "''k''" and username = "''u''" and usr = demo_user
        and w = toy_file_world and ks = "[]" and km = "[]" and mps = None]
      demo_fetch demo_key_facts demo_free
    by (auto simp del: as_bytes_Cons result_into_u32.simps)
  moreover have "user_uid demo_user = 1000" "user_gid demo_user = 100" "sessions demo_sessions = Map.empty"
    by (simp_all add: demo_user_def demo_sessions_def)
  ultimately show ?thesis using that by metis
qed


theorem replayed_password_rejected_witness:
  "\<exists>s1 ct s2 w2 s3. fst (open_user_session demo_env s1 toy_file_world ''u'' ct [] [])
       = Ret (result_into_u32 Ok, 1000, 100)
     \<and> service_step (snd (open_user_session demo_env s1 toy_file_world ''u'' ct [] []))
         (Close demo_env ''u'') = (s2, w2)
     \<and> open_user_session demo_env s2 w2 ''u'' ct [] []
         = (Ret (failed ServiceOperationResult.EncryptionError), s3, w2)"
proof -
  obtain s1 ct s2 w2 where opened: "open_user_session demo_env s1 toy_file_world ''u'' ct [] []
      = (Ret (result_into_u32 Ok, 1000, 100), s2, w2)" and s1: "sessions s1 = Map.empty"
    and s2: "sessions s2
      = [''u'' \<mapsto> \<lparr>session_mounts = user_requests demo_user [] None, session_count = 1\<rparr>]"
    by (rule demo_opened)
  obtain s4 w4 where closed: "service_step (s2, w2) (Close demo_env ''u'') = (s4, w4)" by fastforce
  have "sessions s4 ''u'' = None"
    using closed s2 by (auto simp: service_step_def close_user_session_def usize_sub_def)
  then have none: "sessions s1 (user_name demo_user) = None" "sessions s4 (user_name demo_user) = None"
    using s1 by simp_all
  have "\<exists>s3. open_user_session demo_env s4 w4 ''u'' ct [] []
      = (Ret (failed ServiceOperationResult.EncryptionError), s3, w4) \<and> sessions s3 = sessions s4"
    by (rule replayed_password_rejected [OF opened demo_env_simps(4) none(1),
          where as = "[Close demo_env ''u'']" and usr' = demo_user])
      (use none(2) \<open>sessions s4 ''u'' = None\<close> closed reliable_detaches [OF demo_sys_reliable] in simp_all)
  then obtain s3 where "open_user_session demo_env s4 w4 ''u'' ct [] []
      = (Ret (failed ServiceOperationResult.EncryptionError), s3, w4)"
    by blast
  with opened closed show ?thesis
    by (intro exI [of _ s1] exI [of _ ct] exI [of _ s4] exI [of _ w4] exI [of _ s3]) simp
qed

text \<open>
  The demonstration from the start of a service: any table of authorizations that is a file, any path
  for the key.
\<close>

definition demo_calls :: "u8 list \<Rightarrow> action list" where
  "demo_calls ct = [Initiate demo_env of_nat, Open demo_env ''u'' ct [] []]"

definition free_for_demo :: "world \<Rightarrow> bool" where
  "free_for_demo w \<longleftrightarrow> \<not> path_exists w ''/etc/polyauth/u.json''
     \<and> files w ''/tmp/xdg/'' = None \<and> files w ''/tmp/xdg/1000'' = None \<and> files w ''/home/u'' = None"

lemma demo_run_opens:
  assumes "fetch_priv_key s = (Ret (Inr (as_bytes ''k'')), s0)" and "sessions s = Map.empty"
    and "path_exists w (file_path (mounts_auth s))" and "free_for_demo w"
  obtains ct s' w' where "foldl service_step (s, w) (demo_calls ct) = (s', w')"
    "sessions s' = [''u'' \<mapsto> \<lparr>session_mounts = user_requests demo_user [] None, session_count = 1\<rparr>]"
    "mounted w' = mounted w + mset (user_requests demo_user [] None)"
proof -
  have "lossy ''/home/u'' = ''/home/u''" by (rule lossy_ascii) simp
  moreover have "dec_nat (unat (user_uid demo_user)) = ''1000''"
    by (simp add: demo_user_def dec_nat.simps char_of_def bit_0)
  ultimately have free: "\<forall>t \<in> {XDG_RUNTIME_DIR_PATH, user_xdg_path (user_uid demo_user), lossy (user_home demo_user)}.
      files w t = None"
    using assms(4) by (simp add: free_for_demo_def XDG_RUNTIME_DIR_PATH_def user_xdg_path_def path_join_def)
  have "approved demo_env w (mounts_auth s) ''u'' [] None"
    using assms(4) by (simp add: approved_def load_user_mountpoints_def load_config_from_source_def demo_env_def
        config_path_from_source_def config_path_for_username_def path_join_def POLYAUTH_CONFIG_DIR_def
        free_for_demo_def)
  then obtain s1 ct s2 w2 where "initiate_session demo_env of_nat s = (Ret ''k'', s1)"
    "open_user_session demo_env s1 w ''u'' ct [] []
       = (Ret (result_into_u32 Ok, user_uid demo_user, user_gid demo_user), s2, w2)"
    "mounted w2 = mounted w + mset (user_requests demo_user [] None)"
    "sessions s2 = (sessions s)(''u'' \<mapsto>
       \<lparr>session_mounts = user_requests demo_user [] None, session_count = 1\<rparr>)"
    using login_opens [where E = demo_env and d = toy_prelude_draws and s = s and ?s0.0 = s0
        and key = "as_bytes ''k''" and pem = "''k''" and ek = "replicate 32 7" and pw = "''secret''"
        and random = of_nat and serialized = "''k''" and username = "''u''" and usr = demo_user
        and w = w and ks = "[]" and km = "[]" and mps = None]
      assms(1-3) demo_key_facts free
    by (auto simp del: as_bytes_Cons result_into_u32.simps)
  with assms(2) that [of ct s2 w2] show ?thesis by (simp add: demo_calls_def service_step_def)
qed

lemma demo_new:
  assumes "Sessions_new toy_crypto demo_sys w p ops (Some ''k'') = (s, w')" and "\<not> path_exists w p"
  shows "fetch_priv_key s = (Ret (Inr (as_bytes ''k'')), s\<lparr>priv_key := Ready (as_bytes ''k'')\<rparr>)"
    "sessions s = Map.empty" "mounts_auth s = ops" "files w' = (files w)(p \<mapsto> as_bytes ''k'')"
    "dirs w' = dirs w" "mounted w' = mounted w"
  using assms
  by (auto simp: Sessions_new_def key_fetch_task_def read_file_or_create_default_def file_create_def is_dir_def
      path_exists_def allowed_def demo_sys_def set_mode_def file_write_all_def fetch_priv_key_def toy_crypto_def
      simp del: as_bytes_Cons)

theorem mounts_are_sessions_witness:
  "\<exists>ct s' w'. foldl service_step (Sessions_new toy_crypto demo_sys toy_file_world ''/key'' toy_ops (Some ''k''))
       (demo_calls ct) = (s', w')
     \<and> sessions s' ''u'' \<noteq> None \<and> mounted w' \<noteq> {#}
     \<and> mounted w' = mounted (snd (Sessions_new toy_crypto demo_sys toy_file_world ''/key'' toy_ops (Some ''k'')))
         + session_sum (sessions s')"
proof -
  obtain s0 w where new: "Sessions_new toy_crypto demo_sys toy_file_world ''/key'' toy_ops (Some ''k'') = (s0, w)"
    by fastforce
  have "\<not> path_exists toy_file_world ''/key''"
    by (simp add: path_exists_def toy_file_world_def demo_world_def)
  note started = demo_new [OF new this]
  obtain ct s' w' where run: "foldl service_step (s0, w) (demo_calls ct) = (s', w')"
    "sessions s' = [''u'' \<mapsto> \<lparr>session_mounts = user_requests demo_user [] None, session_count = 1\<rparr>]"
    "mounted w' = mounted w + mset (user_requests demo_user [] None)"
    by (rule demo_run_opens [OF started(1,2), of w])
      (simp_all add: started free_for_demo_def path_exists_def toy_ops_def toy_file_world_def demo_world_def)
  have "list_all action_detaches (demo_calls ct)"
    using reliable_detaches [OF demo_sys_reliable] by (simp add: demo_calls_def)
  note mounted = mounts_are_sessions [OF new this run(1)]
  have "mounted w' \<noteq> {#}" using run(3) by simp
  moreover have "sessions s' ''u'' \<noteq> None" using run(2) by simp
  ultimately show ?thesis
    unfolding new snd_conv using mounted run(1) by blast
qed

definition open_demo :: Sessions where
  "open_demo = demo_sessions\<lparr>sessions := [''u'' \<mapsto> \<lparr>session_mounts = [], session_count = 1\<rparr>]\<rparr>"

theorem session_counting_witness:
  "\<exists>s'. foldl service_step (open_demo, demo_world)
       (map (user_call demo_env ''u'') [Some [], Some [], None, None]) = (s', demo_world)
     \<and> close_user_session demo_env s' demo_world ''u''
       = (Ret (result_into_u32 Ok), s'\<lparr>sessions := Map.empty\<rparr>, demo_world)"
proof -
  have "sessions open_demo (user_name demo_user) = Some \<lparr>session_mounts = [], session_count = 1\<rparr>"
    "(sessions open_demo)(''u'' := None) = Map.empty"
    by (simp_all add: open_demo_def)
  with session_counting [OF demo_env_simps(4), of open_demo "\<lparr>session_mounts = [], session_count = 1\<rparr>"
      "[Some [], Some [], None, None]" 1 demo_world]
  show ?thesis by (auto simp del: result_into_u32.simps list.map foldl_Cons)
qed

theorem open_again_ignores_password_witness:
  "fst (open_user_session demo_env open_demo demo_world ''u'' [] [] [])
     = Ret (result_into_u32 Ok, user_uid demo_user, user_gid demo_user)"
  using open_again_ignores_password [OF demo_env_simps(4), of open_demo
      "\<lparr>session_mounts = [], session_count = 1\<rparr>" demo_world "[]" "[]" "[]"]
  by (simp add: open_demo_def)

theorem failed_key_panics_later_witness:
  "\<exists>s0 s1. initiate_session demo_env of_nat s0 = (Ret [], s1)
     \<and> initiate_session demo_env of_nat s1 = (Panic, s1)"
proof -
  define s0 where "s0 = demo_sessions\<lparr>priv_key := InProgress (Finished (Inl ''task panicked''))\<rparr>"
  have "priv_key s0 = InProgress (Finished (Inl ''task panicked''))"
    "sessions s0 (user_name demo_user) = None"
    by (simp_all add: s0_def demo_sessions_def)
  from failed_key_panics_later [OF this(1) _ demo_env_simps(4) this(2)] show ?thesis by blast
qed

section \<open>The password itself\<close>

text \<open>
  C37: the service never checks the password. Two messages that carry the same token but different
  passwords have exactly the same effect and answer: whoever can send a message for an issued token
  opens the session of any user, with any password.
\<close>

theorem service_ignores_password:
  assumes "\<And>key s1. fetch_priv_key s = (Ret (Inr key), s1) \<Longrightarrow>
      decrypt (env_checks E) (env_crypto E) key message = Ret (Inr (otp, pw))
    \<and> decrypt (env_checks E) (env_crypto E) key message' = Ret (Inr (otp, pw'))"
  shows "open_user_session E s w username message ks km = open_user_session E s w username message' ks km"
proof -
  have "open_mounts E s' w username usr pw ks km = open_mounts E s' w username usr pw' ks km" for s' usr
    unfolding open_mounts_def mount_all_def by (rule refl)
  then show ?thesis
    using assms by (auto simp: open_user_session_def split: option.split run.split sum.split prod.split)
qed

theorem service_ignores_password_witness:
  "\<exists>s1 right wrong. initiate_session demo_env of_nat demo_sessions = (Ret ''k'', s1)
     \<and> encrypt toy_crypto toy_prelude_draws (SessionPrelude_new of_nat ''k'') ''secret'' = Ret (Inr right)
     \<and> encrypt toy_crypto toy_prelude_draws (SessionPrelude_new of_nat ''k'') ''guess'' = Ret (Inr wrong)
     \<and> open_user_session demo_env s1 toy_file_world ''u'' right [] []
       = open_user_session demo_env s1 toy_file_world ''u'' wrong [] []"
proof -
  obtain right wrong otp where sealed:
    "encrypt toy_crypto toy_prelude_draws (SessionPrelude_new of_nat ''k'') ''secret'' = Ret (Inr right)"
    "decrypt True toy_crypto (as_bytes ''k'') right = Ret (Inr (otp, non_zero (as_bytes ''secret'')))"
    "encrypt toy_crypto toy_prelude_draws (SessionPrelude_new of_nat ''k'') ''guess'' = Ret (Inr wrong)"
    "decrypt True toy_crypto (as_bytes ''k'') wrong = Ret (Inr (otp, non_zero (as_bytes ''guess'')))"
    using encrypt_decrypts [OF demo_login_hyps toy_prelude_draws_ok demo_key_facts(1,2), of "''secret''" of_nat True]
      encrypt_decrypts [OF demo_login_hyps toy_prelude_draws_ok demo_key_facts(1,2), of "''guess''" of_nat True]
    by (auto simp del: as_bytes_Cons)
  define s1 where "s1 = snd (initiate_session demo_env of_nat demo_sessions)"
  have init: "initiate_session demo_env of_nat demo_sessions = (Ret ''k'', s1)"
    using demo_fetch demo_key_facts(1,3) by (simp add: s1_def initiate_session_def Let_def del: as_bytes_Cons)
  then have "priv_key s1 = Ready (as_bytes ''k'')"
    using demo_fetch demo_key_facts(1,3)
    by (auto simp: initiate_session_def Let_def simp del: as_bytes_Cons)
  then have "open_user_session demo_env s1 toy_file_world ''u'' right [] []
      = open_user_session demo_env s1 toy_file_world ''u'' wrong [] []"
    using sealed(2,4) by (intro service_ignores_password) (auto simp: fetch_ready simp del: as_bytes_Cons)
  with init sealed(1,3) show ?thesis by blast
qed

end
