(* ===== verification/SessionRegistry.thy ===== *)
theory SessionRegistry
  imports Sessions
begin

text \<open>
  The table of sessions as its clients see it: for every user a number, which a successful opening
  raises and a successful closing lowers. The answers of the service along a run determine the
  numbers, and a user has an entry in the table of src/pam/session.rs while the number is positive.
\<close>

section \<open>What the callers learn\<close>

datatype session_event = Opened string | Closed string | Silent

definition open_succeeded :: "open_answer run \<Rightarrow> bool" where
  "open_succeeded r = (case r of Panic \<Rightarrow> False | Ret (code, uid, gid) \<Rightarrow> code = result_into_u32 Ok)"

text \<open>The answer of a step, as far as it tells of the sessions of a user.\<close>

definition step_event :: "Sessions \<times> world \<Rightarrow> action \<Rightarrow> session_event" where
  "step_event sw a =
    (case a of
       Open E username password ks km \<Rightarrow>
         (case env_user E username of
            None \<Rightarrow> Silent
          | Some usr \<Rightarrow>
              if open_succeeded (fst (open_user_session E (fst sw) (snd sw) username password ks km))
              then Opened (user_name usr) else Silent)
     | Close E name \<Rightarrow>
         (case env_user E name of
            None \<Rightarrow> Silent
          | Some usr \<Rightarrow>
              if fst (close_user_session E (fst sw) (snd sw) name) = Ret (result_into_u32 Ok)
              then Closed (user_name usr) else Silent)
     | _ \<Rightarrow> Silent)"


fun run_events :: "Sessions \<times> world \<Rightarrow> action list \<Rightarrow> session_event list" where
  "run_events sw [] = []"
| "run_events sw (a # as) = step_event sw a # run_events (service_step sw a) as"


lemma length_run_events [simp]: "length (run_events sw as) = length as"
  by (induction as arbitrary: sw) simp_all

section \<open>The number of open sessions\<close>








section \<open>Every step keeps the account\<close>















end
