(* ===== verification/Bus.thy ===== *)
theory Bus
  imports SystemModel
begin

text \<open>
  What the clients of the service (src/lib.rs and src/bin/polyauthctl) use of the bus: connecting,
  making a proxy, and calling a method. The method is run by the service on its state, or the call
  fails on the way there or back.
\<close>

section \<open>The bus\<close>

text \<open>
  Connecting and making the proxy may fail, a request may be lost before it reaches the service, a
  reply afterwards, and a method that panics leaves its caller without a reply.
\<close>

record bus =
  bus_connect :: "string option \<Rightarrow> ext_error + unit"
  bus_proxy :: "ext_error + unit"
  request_lost :: "string \<Rightarrow> ext_error option"
  reply_lost :: "string \<Rightarrow> ext_error option"
  no_reply :: ext_error

definition bus_call ::
  "bus \<Rightarrow> string \<Rightarrow> ('s \<Rightarrow> 'a run \<times> 's) \<Rightarrow> 's \<Rightarrow> (ext_error + 'a) \<times> 's" where
  "bus_call B meth handler s =
    (case request_lost B meth of
       Some e \<Rightarrow> (Inl e, s)
     | None \<Rightarrow>
         (case handler s of
            (Panic, s') \<Rightarrow> (Inl (no_reply B), s')
          | (Ret r, s') \<Rightarrow>
              (case reply_lost B meth of
                 Some e \<Rightarrow> (Inl e, s')
               | None \<Rightarrow> (Inr r, s'))))"

text \<open>Connecting at an address and making the proxy.\<close>

definition bus_open :: "bus \<Rightarrow> string option \<Rightarrow> ext_error + unit" where
  "bus_open B address = and_then (bus_connect B address) (\<lambda>_. bus_proxy B)"

text \<open>A bus that connects and loses nothing.\<close>

definition bus_works :: "bus \<Rightarrow> bool" where
  "bus_works B \<longleftrightarrow> (\<forall>a. bus_connect B a = Inr ()) \<and> bus_proxy B = Inr ()
     \<and> (\<forall>m. request_lost B m = None \<and> reply_lost B m = None)"

lemma bus_works_open [simp]: "bus_works B \<Longrightarrow> bus_open B a = Inr ()"
  by (simp add: bus_works_def bus_open_def)

lemma bus_works_call:
  "bus_works B \<Longrightarrow> handler s = (Ret r, s') \<Longrightarrow> bus_call B m handler s = (Inr r, s')"
  by (simp add: bus_works_def bus_call_def)

text \<open>A call that got an answer changed the state as its method did.\<close>

lemma bus_call_Inr:
  "bus_call B m handler s = (Inr r, s') \<Longrightarrow> handler s = (Ret r, s')"
  by (auto simp: bus_call_def split: option.splits prod.splits run.splits)

lemma bus_call_frame:
  "bus_call B m handler s = (r, s') \<Longrightarrow> s' = s \<or> (\<exists>q. handler s = (q, s'))"
  by (auto simp: bus_call_def split: option.splits prod.splits run.splits)

text \<open>A bus on which nothing is lost.\<close>

definition demo_bus :: bus where
  "demo_bus = \<lparr>bus_connect = (\<lambda>_. Inr ()), bus_proxy = Inr (), request_lost = (\<lambda>_. None),
     reply_lost = (\<lambda>_. None), no_reply = ''no reply''\<rparr>"

lemma demo_bus_works [simp]: "bus_works demo_bus"
  by (simp add: bus_works_def demo_bus_def)

end
