(* ===== verification/PamModule.thy ===== *)
theory PamModule
  imports Bus Sessions AccountSpec
begin

text \<open>
  The PAM module (src/lib.rs): the client side of the session service and the four hooks. A hook runs
  in a process (its bus address and the runtime that is made once), talks to the PAM library through a
  handle that keeps module data and environment variables, and calls the methods of the service, whose
  state is the pair of sessions and world of the theory Sessions. Log lines are left out.
\<close>

section \<open>The PAM library\<close>

datatype PamErrorCode =
    AUTH_ERR
  | SERVICE_ERR
  | USER_UNKNOWN
  | CRED_INSUFFICIENT
  | NO_MODULE_DATA
  | Other_pam_error nat

text \<open>
  What the library answers during one hook: the user name, the item with the user name (a C string),
  the conversation and what it returns for the prompt, and which of the storing calls fail.
\<close>

record pam_stack =
  get_user :: "PamErrorCode + string option"
  item_user :: "PamErrorCode + string option"
  item_conv :: "PamErrorCode + (PamErrorCode + string option) option"
  set_data_error :: "string \<Rightarrow> PamErrorCode option"
  env_set_error :: "PamErrorCode option"

record pam_handle =
  module_data :: "string \<rightharpoonup> string"
  pam_env :: "string \<rightharpoonup> string"

definition set_data :: "pam_stack \<Rightarrow> pam_handle \<Rightarrow> string \<Rightarrow> string \<Rightarrow> (PamErrorCode + unit) \<times> pam_handle" where
  "set_data P h key v =
    (case set_data_error P key of
       Some err \<Rightarrow> (Inl err, h)
     | None \<Rightarrow> (Inr (), h\<lparr>module_data := (module_data h)(key \<mapsto> v)\<rparr>))"

definition get_data :: "pam_handle \<Rightarrow> string \<Rightarrow> PamErrorCode + string" where
  "get_data h key = ok_or (module_data h key) NO_MODULE_DATA"

definition env_set :: "pam_stack \<Rightarrow> pam_handle \<Rightarrow> string \<Rightarrow> string \<Rightarrow> (PamErrorCode + unit) \<times> pam_handle" where
  "env_set P h name v =
    (case env_set_error P of
       Some err \<Rightarrow> (Inl err, h)
     | None \<Rightarrow> (Inr (), h\<lparr>pam_env := (pam_env h)(name \<mapsto> v)\<rparr>))"

section \<open>The process\<close>

text \<open>The state of a once-cell: a closure that panics poisons it, and a poisoned cell panics.\<close>

datatype once = Fresh | Done | Poisoned

record process =
  bus_address :: "string option"
  init_once :: once
  runtime_set :: bool

text \<open>An environment variable that is not valid UTF-8 reads as an error, like a missing one.\<close>

definition default_bus_address :: string where
  "default_bus_address = ''unix:path=/run/dbus/system_bus_socket''"

definition ensure_bus_address :: "process \<Rightarrow> process" where
  "ensure_bus_address p =
    (case bus_address p of
       Some v \<Rightarrow> if utf8_valid (as_bytes v) then p else p\<lparr>bus_address := Some default_bus_address\<rparr>
     | None \<Rightarrow> p\<lparr>bus_address := Some default_bus_address\<rparr>)"

definition init_runtime :: "bool \<Rightarrow> process \<Rightarrow> unit run \<times> process" where
  "init_runtime runtime_new_ok p =
    (case init_once p of
       Fresh \<Rightarrow>
         if runtime_new_ok then (Ret (), p\<lparr>init_once := Done, runtime_set := True\<rparr>)
         else (Panic, p\<lparr>init_once := Poisoned\<rparr>)
     | Done \<Rightarrow> (Ret (), p)
     | Poisoned \<Rightarrow> (Panic, p))"

section \<open>The surroundings\<close>

text \<open>
  The surroundings of a hook: the library, the bus, the service behind it with the random token it
  would draw and the enumeration orders it would use, and the module's own crates.
\<close>

record hook_env =
  hk_stack :: pam_stack
  hk_runtime_ok :: bool
  hk_bus :: bus
  hk_service :: env
  hk_token :: "nat \<Rightarrow> u8"
  hk_hash_order :: "string list"
  hk_mount_order :: "string list"
  hk_crypto :: crypto
  hk_draws :: prelude_draws
  hk_prelude_from_json :: "string \<Rightarrow> ext_error + SessionPrelude"
  hk_storage :: storage_crates
  hk_sys :: sys

type_synonym service = "Sessions \<times> world"

section \<open>Calls of the service\<close>

definition call_initiate :: "hook_env \<Rightarrow> service \<Rightarrow> string run \<times> service" where
  "call_initiate H sw =
    (case initiate_session (hk_service H) (hk_token H) (fst sw) of (r, s) \<Rightarrow> (r, s, snd sw))"

definition call_open :: "hook_env \<Rightarrow> string \<Rightarrow> u8 list \<Rightarrow> service \<Rightarrow> open_answer run \<times> service" where
  "call_open H usr encrypted sw =
    open_user_session (hk_service H) (fst sw) (snd sw) usr encrypted (hk_hash_order H) (hk_mount_order H)"

definition call_close :: "hook_env \<Rightarrow> string \<Rightarrow> service \<Rightarrow> u32 run \<times> service" where
  "call_close H usr sw = close_user_session (hk_service H) (fst sw) (snd sw) usr"

definition call_enabled :: "hook_env \<Rightarrow> string \<Rightarrow> service \<Rightarrow> u32 run \<times> service" where
  "call_enabled H usr sw = (Ret (is_user_polyauth_enabled (hk_service H) (snd sw) usr), sw)"

definition open_session_for_user ::
  "hook_env \<Rightarrow> process \<Rightarrow> service \<Rightarrow> string \<Rightarrow> string \<Rightarrow>
   (ext_error + ServiceOperationResult \<times> u32 \<times> u32) run \<times> service" where
  "open_session_for_user H p sw usr plain_main_password =
    (case bus_open (hk_bus H) (bus_address p) of
       Inl e \<Rightarrow> (Ret (Inl e), sw)
     | Inr u \<Rightarrow>
         (case bus_call (hk_bus H) ''initiate_session'' (call_initiate H) sw of
            (Inl e, sw1) \<Rightarrow> (Ret (Inl e), sw1)
          | (Inr pk, sw1) \<Rightarrow>
              (if pk = [] then (Ret (Inr (EmptyPubKey, 0, 0)), sw1)
               else
                 (case hk_prelude_from_json H pk of
                    Inl e \<Rightarrow> (Ret (Inr (SerializationError, 0, 0)), sw1)
                  | Inr session_prelude \<Rightarrow>
                      (case encrypt (hk_crypto H) (hk_draws H) session_prelude plain_main_password of
                         Panic \<Rightarrow> (Panic, sw1)
                       | Ret (Inl e) \<Rightarrow> (Ret (Inr (ServiceOperationResult.EncryptionError, 0, 0)), sw1)
                       | Ret (Inr encrypted_password) \<Rightarrow>
                           (case bus_call (hk_bus H) ''open_user_session''
                                (call_open H usr encrypted_password) sw1 of
                              (Inl e, sw2) \<Rightarrow> (Ret (Inl e), sw2)
                            | (Inr (code, uid, gid), sw2) \<Rightarrow>
                                (Ret (Inr (result_from_u32 code, uid, gid)), sw2)))))))"

definition close_session_for_user ::
  "hook_env \<Rightarrow> process \<Rightarrow> service \<Rightarrow> string \<Rightarrow> (ext_error + u32) \<times> service" where
  "close_session_for_user H p sw usr =
    (case bus_open (hk_bus H) (bus_address p) of
       Inl e \<Rightarrow> (Inl e, sw)
     | Inr u \<Rightarrow> bus_call (hk_bus H) ''close_user_session'' (call_close H usr) sw)"

definition ask_polyauth_enabled ::
  "hook_env \<Rightarrow> process \<Rightarrow> service \<Rightarrow> string \<Rightarrow> (ext_error + u32) \<times> service" where
  "ask_polyauth_enabled H p sw usr =
    (case bus_open (hk_bus H) (bus_address p) of
       Inl e \<Rightarrow> (Inl e, sw)
     | Inr u \<Rightarrow> bus_call (hk_bus H) ''is_user_polyauth_enabled'' (call_enabled H usr) sw)"

section \<open>The hooks\<close>

text \<open>The user name, from the library or from its item; the same in every hook.\<close>

definition hook_username :: "pam_stack \<Rightarrow> PamErrorCode + string" where
  "hook_username P =
    (case get_user P of
       Inr (Some res) \<Rightarrow> Inr res
     | Inr None \<Rightarrow>
         (case item_user P of
            Inr (Some username) \<Rightarrow> Inr (lossy username)
          | Inr None \<Rightarrow> Inl AUTH_ERR
          | Inl err \<Rightarrow> Inl err)
     | Inl err \<Rightarrow> Inl err)"

text \<open>A hook ends with an error or success, or panics; what it changed is returned either way.\<close>

type_synonym hook_result = "(PamErrorCode + unit) run"

definition sm_close_session :: "hook_env \<Rightarrow> process \<Rightarrow> service \<Rightarrow> hook_result \<times> process \<times> service" where
  "sm_close_session H p sw =
    (case init_runtime (hk_runtime_ok H) (ensure_bus_address p) of
       (Panic, p1) \<Rightarrow> (Panic, p1, sw)
     | (Ret u, p1) \<Rightarrow>
         (case hook_username (hk_stack H) of
            Inl err \<Rightarrow> (Ret (Inl err), p1, sw)
          | Inr username \<Rightarrow>
              (if runtime_set p1 then
                 (case close_session_for_user H p1 sw username of
                    (Inl e, sw1) \<Rightarrow> (Ret (Inl SERVICE_ERR), p1, sw1)
                  | (Inr result, sw1) \<Rightarrow>
                      (case result_from_u32 result of
                         Ok \<Rightarrow> (Ret (Inr ()), p1, sw1)
                       | _ \<Rightarrow> (Ret (Inl SERVICE_ERR), p1, sw1)))
               else (Ret (Inl SERVICE_ERR), p1, sw))))"

definition cred_data :: "string \<Rightarrow> string" where
  "cred_data username = username @ ''-polyauth''"

definition sm_open_session ::
  "hook_env \<Rightarrow> process \<Rightarrow> pam_handle \<Rightarrow> service \<Rightarrow> hook_result \<times> process \<times> pam_handle \<times> service" where
  "sm_open_session H p h sw =
    (case init_runtime (hk_runtime_ok H) (ensure_bus_address p) of
       (Panic, p1) \<Rightarrow> (Panic, p1, h, sw)
     | (Ret u, p1) \<Rightarrow>
         (case hook_username (hk_stack H) of
            Inl err \<Rightarrow> (Ret (Inl err), p1, h, sw)
          | Inr username \<Rightarrow>
              (if \<not> runtime_set p1 then (Ret (Inl SERVICE_ERR), p1, h, sw)
               else
                 (case get_data h (cred_data username) of
                    Inl err \<Rightarrow> (Ret (Inl err), p1, h, sw)
                  | Inr main_pw \<Rightarrow>
                      (case open_session_for_user H p1 sw username main_pw of
                         (Panic, sw1) \<Rightarrow> (Panic, p1, h, sw1)
                       | (Ret (Inl err), sw1) \<Rightarrow> (Ret (Inl SERVICE_ERR), p1, h, sw1)
                       | (Ret (Inr (result, uid, gid)), sw1) \<Rightarrow>
                           (if result = Ok then
                              (case env_set (hk_stack H) h ''XDG_RUNTIME_DIR'' (user_xdg_path uid) of
                                 (set_res, h1) \<Rightarrow> (Ret (Inr ()), p1, h1, sw1))
                            else (Ret (Inl SERVICE_ERR), p1, h, sw1)))))))"

definition sm_setcred :: "hook_env \<Rightarrow> process \<Rightarrow> service \<Rightarrow> hook_result \<times> process \<times> service" where
  "sm_setcred H p sw =
    (case init_runtime (hk_runtime_ok H) (ensure_bus_address p) of
       (Panic, p1) \<Rightarrow> (Panic, p1, sw)
     | (Ret u, p1) \<Rightarrow>
         (case hook_username (hk_stack H) of
            Inl err \<Rightarrow> (Ret (Inl err), p1, sw)
          | Inr username \<Rightarrow>
              (if runtime_set p1 then
                 (case ask_polyauth_enabled H p1 sw username of
                    (Inl e, sw1) \<Rightarrow> (Ret (Inl SERVICE_ERR), p1, sw1)
                  | (Inr result, sw1) \<Rightarrow>
                      (case result_from_u32 result of
                         Ok \<Rightarrow> (Ret (Inr ()), p1, sw1)
                       | _ \<Rightarrow> (Ret (Inl USER_UNKNOWN), p1, sw1)))
               else (Ret (Inl SERVICE_ERR), p1, sw))))"

text \<open>The prompt of the conversation; its answer is a C string.\<close>

definition prompt_for_password :: "pam_stack \<Rightarrow> PamErrorCode + string" where
  "prompt_for_password P =
    and_then (item_conv P) (\<lambda>maybe_conv.
    and_then (ok_or maybe_conv SERVICE_ERR) (\<lambda>send.
    and_then send (\<lambda>cstr.
    ok_or (map_option lossy cstr) CRED_INSUFFICIENT)))"

definition sm_authenticate ::
  "hook_env \<Rightarrow> world \<Rightarrow> pam_handle \<Rightarrow> (PamErrorCode + unit) \<times> pam_handle" where
  "sm_authenticate H w h =
    (case hook_username (hk_stack H) of
       Inl err \<Rightarrow> (Inl err, h)
     | Inr username \<Rightarrow>
         (case load_user_auth_data (hk_storage H) (hk_sys H) w (Username username) of
            Inr (Some user_cfg) \<Rightarrow>
              (if \<not> has_main user_cfg then (Inl USER_UNKNOWN, h)
               else
                 (case main_by_auth (hk_crypto H) user_cfg (Some []) of
                    Inr main_pw \<Rightarrow> set_data (hk_stack H) h (cred_data username) main_pw
                  | Inl e \<Rightarrow>
                      (case prompt_for_password (hk_stack H) of
                         Inl err \<Rightarrow> (Inl err, h)
                       | Inr password \<Rightarrow>
                           (case main_by_auth (hk_crypto H) user_cfg (Some password) of
                              Inl err \<Rightarrow> (Inl AUTH_ERR, h)
                            | Inr main_pw \<Rightarrow> set_data (hk_stack H) h (cred_data username) main_pw))))
          | _ \<Rightarrow> (Inl USER_UNKNOWN, h)))"

section \<open>The process\<close>

text \<open>The runtime is there exactly when the cell was initialized, so a hook never misses it.\<close>

definition process_ok :: "process \<Rightarrow> bool" where
  "process_ok p \<longleftrightarrow> (init_once p = Done) = runtime_set p"

lemma ensure_bus_address_frame [simp]:
  "init_once (ensure_bus_address p) = init_once p" "runtime_set (ensure_bus_address p) = runtime_set p"
  by (simp_all add: ensure_bus_address_def split: option.split)

lemma ensure_bus_address_set: "\<exists>v. bus_address (ensure_bus_address p) = Some v \<and> utf8_valid (as_bytes v)"
  by (auto simp: ensure_bus_address_def default_bus_address_def utf8_valid_ascii split: option.split)

lemma ensure_process_ok [simp]: "process_ok (ensure_bus_address p) = process_ok p"
  by (simp add: process_ok_def)

lemma init_runtime_ok:
  assumes "process_ok p" and "init_runtime ok p = (r, p')"
  shows "process_ok p' \<and> bus_address p' = bus_address p \<and> (r = Ret () \<longrightarrow> runtime_set p' \<and> init_once p' = Done)
    \<and> (r = Panic \<longrightarrow> init_once p' = Poisoned)"
  using assms by (auto simp: init_runtime_def process_ok_def split: once.splits if_splits)

text \<open>A process that has its runtime, or can make it, gets past the first part of a hook.\<close>

definition started :: "hook_env \<Rightarrow> process \<Rightarrow> process \<Rightarrow> bool" where
  "started H p p1 \<longleftrightarrow> init_runtime (hk_runtime_ok H) (ensure_bus_address p) = (Ret (), p1) \<and> runtime_set p1"

lemma process_starts:
  assumes "process_ok p" and "hk_runtime_ok H" and "init_once p \<noteq> Poisoned"
  obtains p1 where "started H p p1" "process_ok p1" "init_once p1 = Done"
proof -
  obtain r p1 where r: "init_runtime (hk_runtime_ok H) (ensure_bus_address p) = (r, p1)" by fastforce
  then have "r = Ret ()"
    using assms(2,3) by (auto simp: init_runtime_def split: once.splits)
  with init_runtime_ok [OF _ r] assms(1) r that show ?thesis by (simp add: started_def)
qed

lemma started_again:
  "process_ok p \<Longrightarrow> init_once p = Done \<Longrightarrow> \<exists>p1. started H p p1 \<and> process_ok p1 \<and> init_once p1 = Done"
  by (auto simp: started_def init_runtime_def process_ok_def)

section \<open>Authentication\<close>

lemma set_data_cases:
  "set_data P h k v = (Inr (), h') \<Longrightarrow> h' = h\<lparr>module_data := (module_data h)(k \<mapsto> v)\<rparr>"
  "set_data P h k v = (Inl e, h') \<Longrightarrow> h' = h \<and> set_data_error P k = Some e"
  by (auto simp: set_data_def split: option.splits)

text \<open>The ends of the authentication hook.\<close>

lemma sm_authenticate_cases:
  assumes "sm_authenticate H w h = (r, h')"
  shows "(r = Inr () \<longrightarrow>
      (\<exists>u data s m. hook_username (hk_stack H) = Inr u
         \<and> load_user_auth_data (hk_storage H) (hk_sys H) w (Username u) = Inr (Some data) \<and> has_main data
         \<and> (s = [] \<or> prompt_for_password (hk_stack H) = Inr s)
         \<and> main_by_auth (hk_crypto H) data (Some s) = Inr m
         \<and> h' = h\<lparr>module_data := (module_data h)(cred_data u \<mapsto> m)\<rparr>))
    \<and> (\<forall>e. r = Inl e \<longrightarrow> h' = h)"
  using assms
  by (fastforce simp: sm_authenticate_def dest: set_data_cases
      split: sum.splits option.splits if_splits)

text \<open>
  C6: authentication is decided by the stored data. When sm_authenticate succeeds, the named user has
  stored data with a main password, the empty password or the one the conversation returned unlocks
  it, and the unlocked main password is what the module keeps for the user. With any error the handle
  is unchanged; a user without loadable data and main password is unknown.
\<close>

theorem authenticate_sound:
  assumes "sm_authenticate H w h = (r, h')"
  shows "(r = Inr () \<longrightarrow>
      (\<exists>u data s m. hook_username (hk_stack H) = Inr u
         \<and> load_user_auth_data (hk_storage H) (hk_sys H) w (Username u) = Inr (Some data) \<and> has_main data
         \<and> (s = [] \<or> prompt_for_password (hk_stack H) = Inr s)
         \<and> main_by_auth (hk_crypto H) data (Some s) = Inr m
         \<and> h' = h\<lparr>module_data := (module_data h)(cred_data u \<mapsto> m)\<rparr>))
    \<and> (\<forall>e. r = Inl e \<longrightarrow> h' = h)
    \<and> (\<forall>u. hook_username (hk_stack H) = Inr u
         \<and> (\<nexists>data. load_user_auth_data (hk_storage H) (hk_sys H) w (Username u) = Inr (Some data)
              \<and> has_main data) \<longrightarrow> r = Inl USER_UNKNOWN)"
proof -
  have "r = Inl USER_UNKNOWN"
    if "hook_username (hk_stack H) = Inr u"
      "\<nexists>data. load_user_auth_data (hk_storage H) (hk_sys H) w (Username u) = Inr (Some data) \<and> has_main data"
    for u
    using assms that by (auto simp: sm_authenticate_def split: sum.splits option.splits if_splits)
  with sm_authenticate_cases [OF assms] show ?thesis by blast
qed

lemma account_login_cases:
  "account_login (Some a) pw = Inr (acc_main a) \<or> account_login (Some a) pw = Inl (User CouldNotAuthenticate)"
  by (simp add: account_login_def)

lemma authenticates:
  assumes "lawful_crypto (hk_crypto H)" and "hook_username (hk_stack H) = Inr u"
    and "load_user_auth_data (hk_storage H) (hk_sys H) w (Username u) = Inr (Some data)"
    and "represents (hk_crypto H) data (Some a)"
    and "prompt_for_password (hk_stack H) = Inr pw" and "password_ok pw"
    and "set_data_error (hk_stack H) (cred_data u) = None"
  shows "sm_authenticate H w h =
    (if account_login (Some a) [] = Inr (acc_main a) \<or> account_login (Some a) pw = Inr (acc_main a)
     then (Inr (), h\<lparr>module_data := (module_data h)(cred_data u \<mapsto> acc_main a)\<rparr>)
     else (Inl AUTH_ERR, h))"
proof -
  have "password_ok []"
    by (simp add: password_ok_def is_string_def utf8_valid_ascii bcrypt_distinguishes_def no_nul_def)
  then have login: "main_by_auth (hk_crypto H) data (Some []) = account_login (Some a) []"
    "main_by_auth (hk_crypto H) data (Some pw) = account_login (Some a) pw"
    using main_by_auth_exact [OF assms(1,4)] assms(6) by simp_all
  have "has_main data" using assms(4) by (auto simp: represents_def has_main_def)
  with assms(2,3,5,7) login show ?thesis
    using account_login_cases [of a "[]"] account_login_cases [of a pw]
    by (auto simp: sm_authenticate_def set_data_def)
qed

text \<open>
  Authentication answers as the account does. For stored data that represents an account, a user
  name and an answered prompt: the hook accepts when the account accepts the empty password or the
  typed one, and then keeps the account's main password; otherwise it fails with AUTH_ERR.
\<close>

theorem authenticate_exact:
  assumes "lawful_crypto (hk_crypto H)" and "hook_username (hk_stack H) = Inr u"
    and "load_user_auth_data (hk_storage H) (hk_sys H) w (Username u) = Inr (Some data)"
    and "represents (hk_crypto H) data (Some a)"
    and "prompt_for_password (hk_stack H) = Inr pw" and "password_ok pw"
    and "set_data_error (hk_stack H) (cred_data u) = None"
  shows "sm_authenticate H w h =
    (if account_login (Some a) [] = Inr (acc_main a) \<or> account_login (Some a) pw = Inr (acc_main a)
     then (Inr (), h\<lparr>module_data := (module_data h)(cred_data u \<mapsto> acc_main a)\<rparr>)
     else (Inl AUTH_ERR, h))"
  by (rule authenticates [OF assms])

section \<open>Sessions\<close>

lemma result_from_Ok: "result_from_u32 c = Ok \<longleftrightarrow> c = result_into_u32 Ok"
  by (auto simp: result_from_u32_def)

text \<open>A hook that opened a session did it by one successful call of the service.\<close>

lemma open_session_for_user_Ok:
  assumes "open_session_for_user H p sw u pw = (Ret (Inr (Ok, uid, gid)), sw')"
  shows "\<exists>pk sw1 ct. bus_call (hk_bus H) ''initiate_session'' (call_initiate H) sw = (Inr pk, sw1)
    \<and> call_open H u ct sw1 = (Ret (result_into_u32 Ok, uid, gid), sw')"
  using assms
  by (auto simp: open_session_for_user_def bus_call_def result_from_Ok
      split: sum.splits if_splits run.splits prod.splits option.splits)

lemma call_initiate_frame:
  "call_initiate H sw = (r, sw') \<Longrightarrow> sessions (fst sw') = sessions (fst sw) \<and> snd sw' = snd sw"
  using initiate_session_sessions [of "hk_service H" "hk_token H" "fst sw"]
  by (auto simp: call_initiate_def split: prod.splits)

lemma bus_call_initiate_frame:
  "bus_call (hk_bus H) m (call_initiate H) sw = (r, sw') \<Longrightarrow>
   sessions (fst sw') = sessions (fst sw) \<and> snd sw' = snd sw"
  by (auto simp: bus_call_def dest: call_initiate_frame split: option.splits prod.splits run.splits)

text \<open>Without the credentials of the authentication no call reaches the service.\<close>

lemma sm_open_session_started:
  "started H p p1 \<Longrightarrow> hook_username (hk_stack H) = Inr u \<Longrightarrow> module_data h (cred_data u) = Some m \<Longrightarrow>
   open_session_for_user H p1 sw u m = (Ret (Inr (Ok, uid, gid)), sw') \<Longrightarrow>
   sm_open_session H p h sw =
     (Ret (Inr ()), p1, snd (env_set (hk_stack H) h ''XDG_RUNTIME_DIR'' (user_xdg_path uid)), sw')"
  by (simp add: sm_open_session_def started_def get_data_def split: prod.split)

lemma open_hook_cases:
  assumes "sm_open_session H p h sw = (Ret (Inr ()), p', h', sw')"
  shows "\<exists>u m sw1 ct uid gid. hook_username (hk_stack H) = Inr u \<and> module_data h (cred_data u) = Some m
    \<and> sessions (fst sw1) = sessions (fst sw) \<and> snd sw1 = snd sw
    \<and> call_open H u ct sw1 = (Ret (result_into_u32 Ok, uid, gid), sw')
    \<and> h' = snd (env_set (hk_stack H) h ''XDG_RUNTIME_DIR'' (user_xdg_path uid))"
proof -
  from assms obtain p1 u m uid gid sw2 where "hook_username (hk_stack H) = Inr u"
    "module_data h (cred_data u) = Some m"
    "open_session_for_user H p1 sw u m = (Ret (Inr (Ok, uid, gid)), sw')"
    "h' = snd (env_set (hk_stack H) h ''XDG_RUNTIME_DIR'' (user_xdg_path uid))"
    by (auto simp: sm_open_session_def get_data_def ok_or_def
        split: run.splits sum.splits if_splits prod.splits option.splits)
  with open_session_for_user_Ok bus_call_initiate_frame show ?thesis by metis
qed

text \<open>
  What an opened session means. When sm_open_session succeeds, the named user had credentials from
  an authentication of this handle, the service answered the opening of that user's session with
  success, and the runtime directory in the environment is the one of the number the service returned
  (or could not be set). When it fails or panics before the credentials are found, the service is
  untouched.
\<close>

theorem open_hook_sound:
  assumes "sm_open_session H p h sw = (r, p', h', sw')"
  shows "(r = Ret (Inr ()) \<longrightarrow>
      (\<exists>u m sw1 ct uid gid. hook_username (hk_stack H) = Inr u \<and> module_data h (cred_data u) = Some m
         \<and> sessions (fst sw1) = sessions (fst sw) \<and> snd sw1 = snd sw
         \<and> call_open H u ct sw1 = (Ret (result_into_u32 Ok, uid, gid), sw')
         \<and> h' = snd (env_set (hk_stack H) h ''XDG_RUNTIME_DIR'' (user_xdg_path uid))))
    \<and> ((\<forall>u. hook_username (hk_stack H) = Inr u \<longrightarrow> module_data h (cred_data u) = None) \<longrightarrow>
        sw' = sw \<and> h' = h \<and> r \<noteq> Ret (Inr ()))"
proof (intro conjI impI)
  assume "r = Ret (Inr ())"
  with assms open_hook_cases
  show "\<exists>u m sw1 ct uid gid. hook_username (hk_stack H) = Inr u \<and> module_data h (cred_data u) = Some m
         \<and> sessions (fst sw1) = sessions (fst sw) \<and> snd sw1 = snd sw
         \<and> call_open H u ct sw1 = (Ret (result_into_u32 Ok, uid, gid), sw')
         \<and> h' = snd (env_set (hk_stack H) h ''XDG_RUNTIME_DIR'' (user_xdg_path uid))"
    by simp
next
  assume none: "\<forall>u. hook_username (hk_stack H) = Inr u \<longrightarrow> module_data h (cred_data u) = None"
  have "sw' = sw \<and> h' = h \<and> r \<noteq> Ret (Inr ())"
    using assms none
    by (auto simp: sm_open_session_def get_data_def ok_or_def
        split: run.splits sum.splits if_splits prod.splits option.splits)
  then show "sw' = sw" "h' = h" "r \<noteq> Ret (Inr ())" by simp_all
qed

section \<open>From opening to closing\<close>

text \<open>
  What the surroundings must give for a session of a user to be opened: a bus, working cryptography
  that both sides share, a key, the text of the prelude, mounts root approved, and no mount point
  that is a regular file.
\<close>

definition key_exchange :: "hook_env \<Rightarrow> Sessions \<Rightarrow> rsa_private_key \<Rightarrow> string \<Rightarrow> u8 list \<Rightarrow> string \<Rightarrow> bool" where
  "key_exchange H s key pem ek serialized \<longleftrightarrow>
     fst (fetch_priv_key s) = Ret (Inr key)
   \<and> rsa_public_to_pem (hk_crypto H) (rsa_public (hk_crypto H) key) = Inr pem
   \<and> rsa_encrypt (hk_crypto H) (rsa_public (hk_crypto H) key) (rsa_padding (hk_draws H))
       (aes_key (hk_draws H)) = Inr ek
   \<and> length ek + 530 < 2 ^ 64
   \<and> env_prelude_json (hk_service H) (SessionPrelude_new (hk_token H) pem) = Inr serialized
   \<and> serialized \<noteq> []
   \<and> hk_prelude_from_json H serialized = Inr (SessionPrelude_new (hk_token H) pem)"

definition hook_able :: "hook_env \<Rightarrow> Sessions \<Rightarrow> string \<Rightarrow> user \<Rightarrow> bool" where
  "hook_able H s u usr \<longleftrightarrow>
     bus_works (hk_bus H) \<and> env_crypto (hk_service H) = hk_crypto H
   \<and> aes_correct (hk_crypto H) \<and> aes_tagged (hk_crypto H) \<and> rsa_correct (hk_crypto H)
   \<and> pem_correct (hk_crypto H) \<and> crypto_total (hk_crypto H) \<and> prelude_draws_ok (hk_draws H)
   \<and> (\<exists>key pem ek serialized. key_exchange H s key pem ek serialized)
   \<and> env_user (hk_service H) u = Some usr \<and> sessions s (user_name usr) = None
   \<and> reliable (env_sys (hk_service H))"

definition mount_targets :: "user \<Rightarrow> MountPoints option \<Rightarrow> path set" where
  "mount_targets usr mps =
     {XDG_RUNTIME_DIR_PATH, user_xdg_path (user_uid usr), lossy (user_home usr)}
     \<union> (case mps of None \<Rightarrow> {} | Some mp \<Rightarrow> dom (mounts mp))"

definition hook_ready :: "hook_env \<Rightarrow> Sessions \<Rightarrow> world \<Rightarrow> string \<Rightarrow> user \<Rightarrow> MountPoints option \<Rightarrow> bool" where
  "hook_ready H s w u usr mps \<longleftrightarrow> hook_able H s u usr
   \<and> approved (hk_service H) w (mounts_auth s) u (hk_hash_order H) mps
   \<and> path_exists w (file_path (mounts_auth s)) \<and> (\<forall>t \<in> mount_targets usr mps. files w t = None)"

lemma hook_readyD:
  assumes "hook_ready H s w u usr mps"
  shows "bus_works (hk_bus H)" "env_crypto (hk_service H) = hk_crypto H"
    "aes_correct (hk_crypto H)" "aes_tagged (hk_crypto H)" "rsa_correct (hk_crypto H)"
    "pem_correct (hk_crypto H)" "crypto_total (hk_crypto H)" "prelude_draws_ok (hk_draws H)"
    "\<exists>key pem ek serialized. key_exchange H s key pem ek serialized"
    "env_user (hk_service H) u = Some usr" "sessions s (user_name usr) = None"
    "approved (hk_service H) w (mounts_auth s) u (hk_hash_order H) mps"
    "path_exists w (file_path (mounts_auth s))" "reliable (env_sys (hk_service H))"
    "\<forall>t \<in> {XDG_RUNTIME_DIR_PATH, user_xdg_path (user_uid usr), lossy (user_home usr)}. files w t = None"
    "\<forall>mp k. mps = Some mp \<and> k \<in> dom (mounts mp) \<longrightarrow> files w k = None"
  using assms unfolding hook_ready_def hook_able_def mount_targets_def by auto

text \<open>The two calls of the opening hook and what is between them.\<close>

definition calls_open ::
  "hook_env \<Rightarrow> service \<Rightarrow> string \<Rightarrow> string \<Rightarrow> open_answer \<Rightarrow> service \<Rightarrow> bool" where
  "calls_open H sw u m answer sw' \<longleftrightarrow>
     (\<exists>serialized sw1 prelude ct. call_initiate H sw = (Ret serialized, sw1) \<and> serialized \<noteq> []
        \<and> hk_prelude_from_json H serialized = Inr prelude
        \<and> encrypt (hk_crypto H) (hk_draws H) prelude m = Ret (Inr ct)
        \<and> call_open H u ct sw1 = (Ret answer, sw'))"

lemma ready_calls:
  assumes "hook_ready H s w u usr mps" and "length m \<le> 255"
  obtains s2 w2 where
    "calls_open H (s, w) u m (result_into_u32 Ok, user_uid usr, user_gid usr) (s2, w2)"
    "mounted w2 = mounted w + mset (user_requests usr (hk_mount_order H) mps)"
    "sessions s2 = (sessions s)(user_name usr \<mapsto>
         \<lparr>session_mounts = user_requests usr (hk_mount_order H) mps, session_count = 1\<rparr>)"
proof -
  note ready = hook_readyD [OF assms(1)]
  obtain key pem ek serialized where "key_exchange H s key pem ek serialized"
    using ready(9) by blast
  then have key: "fst (fetch_priv_key s) = Ret (Inr key)"
      "rsa_public_to_pem (hk_crypto H) (rsa_public (hk_crypto H) key) = Inr pem"
      "rsa_encrypt (hk_crypto H) (rsa_public (hk_crypto H) key) (rsa_padding (hk_draws H))
         (aes_key (hk_draws H)) = Inr ek" "length ek + 530 < 2 ^ 64"
    and json: "env_prelude_json (hk_service H) (SessionPrelude_new (hk_token H) pem) = Inr serialized"
      "serialized \<noteq> []" "hk_prelude_from_json H serialized = Inr (SessionPrelude_new (hk_token H) pem)"
    unfolding key_exchange_def by simp_all
  obtain s0 where s0: "fetch_priv_key s = (Ret (Inr key), s0)"
    using key(1) by (metis prod.collapse)
  note bus = ready(1)
  have "\<exists>s1 ct s2 w2. initiate_session (hk_service H) (hk_token H) s = (Ret serialized, s1)
    \<and> encrypt (hk_crypto H) (hk_draws H) (SessionPrelude_new (hk_token H) pem) m = Ret (Inr ct)
    \<and> open_user_session (hk_service H) s1 w u ct (hk_hash_order H) (hk_mount_order H)
        = (Ret (result_into_u32 Ok, user_uid usr, user_gid usr), s2, w2)
    \<and> sessions s1 = sessions s
    \<and> mounted w2 = mounted w + mset (user_requests usr (hk_mount_order H) mps)
    \<and> sessions s2 = (sessions s)(user_name usr \<mapsto>
         \<lparr>session_mounts = user_requests usr (hk_mount_order H) mps, session_count = 1\<rparr>)"
    using login_opens [of "hk_service H", unfolded ready(2), OF ready(3-8) s0 key(2-4) assms(2)
        json(1) ready(10-16)] .
  then obtain s1 ct s2 w2 where
    "call_initiate H (s, w) = (Ret serialized, s1, w)"
    "encrypt (hk_crypto H) (hk_draws H) (SessionPrelude_new (hk_token H) pem) m = Ret (Inr ct)"
    "call_open H u ct (s1, w) = (Ret (result_into_u32 Ok, user_uid usr, user_gid usr), s2, w2)"
    and left: "mounted w2 = mounted w + mset (user_requests usr (hk_mount_order H) mps)"
    "sessions s2 = (sessions s)(user_name usr \<mapsto>
         \<lparr>session_mounts = user_requests usr (hk_mount_order H) mps, session_count = 1\<rparr>)"
    by (auto simp: call_initiate_def call_open_def)
  with json have "calls_open H (s, w) u m (result_into_u32 Ok, user_uid usr, user_gid usr) (s2, w2)"
    unfolding calls_open_def by blast
  with left that show ?thesis by blast
qed

text \<open>The client makes these calls over a working bus; when only the second reply is lost, in vain.\<close>

lemma client_opens:
  assumes "calls_open H sw u m (code, uid, gid) sw'" and "bus_works (hk_bus H)"
  shows "open_session_for_user H p sw u m = (Ret (Inr (result_from_u32 code, uid, gid)), sw')"
  using assms by (auto simp: calls_open_def open_session_for_user_def bus_works_def bus_open_def bus_call_def)

lemma client_misses_reply:
  assumes "calls_open H sw u m answer sw'" and "bus_works (hk_bus H)"
    and "H' = H\<lparr>hk_bus := (hk_bus H)\<lparr>reply_lost := (reply_lost (hk_bus H))(''open_user_session'' := Some e)\<rparr>\<rparr>"
  shows "open_session_for_user H' p sw u m = (Ret (Inl e), sw')"
  using assms
  by (auto simp: calls_open_def open_session_for_user_def bus_works_def bus_open_def bus_call_def
      call_initiate_def call_open_def)

lemma sm_close_session_started:
  assumes "started H p p1" and "hook_username (hk_stack H) = Inr u" and "bus_works (hk_bus H)"
    and "close_user_session (hk_service H) (fst sw) (snd sw) u = (Ret c, sw')"
  shows "sm_close_session H p sw =
    (Ret (if c = result_into_u32 Ok then Inr () else Inl SERVICE_ERR), p1, sw')"
  using assms bus_works_call [OF assms(3), of "call_close H u" sw c sw']
  by (auto simp: sm_close_session_def started_def close_session_for_user_def call_close_def result_from_Ok
      simp del: result_into_u32.simps split: ServiceOperationResult.split)

lemma close_opened:
  assumes "env_user E u = Some usr" and "detaches (env_sys E)"
    and "sessions s (user_name usr) = Some \<lparr>session_mounts = ms, session_count = 1\<rparr>"
  shows "close_user_session E s w u =
    (Ret (result_into_u32 Ok), s\<lparr>sessions := (sessions s)(user_name usr := None)\<rparr>,
     w\<lparr>mounted := mounted w - mset ms\<rparr>)"
  using assms by (simp add: close_user_session_def usize_sub_def drop_mounts_detaches)

text \<open>The two hooks with the surroundings in order.\<close>

lemma hook_opens:
  assumes "process_ok p" and "hk_runtime_ok H" and "init_once p \<noteq> Poisoned"
    and "hook_username (hk_stack H) = Inr u" and "module_data h (cred_data u) = Some m"
    and "length m \<le> 255" and "env_set_error (hk_stack H) = None" and "hook_ready H s w u usr mps"
  obtains p1 s1 w1 where "sm_open_session H p h (s, w) = (Ret (Inr ()), p1,
      h\<lparr>pam_env := (pam_env h)(''XDG_RUNTIME_DIR'' \<mapsto> user_xdg_path (user_uid usr))\<rparr>, s1, w1)"
    "process_ok p1" "init_once p1 = Done"
    "mounted w1 = mounted w + mset (user_requests usr (hk_mount_order H) mps)"
    "sessions s1 = (sessions s)(user_name usr \<mapsto>
         \<lparr>session_mounts = user_requests usr (hk_mount_order H) mps, session_count = 1\<rparr>)"
proof -
  obtain p1 where p1: "started H p p1" "process_ok p1" "init_once p1 = Done"
    using process_starts [OF assms(1-3)] .
  obtain s1 w1 where calls:
      "calls_open H (s, w) u m (result_into_u32 Ok, user_uid usr, user_gid usr) (s1, w1)"
    and left: "mounted w1 = mounted w + mset (user_requests usr (hk_mount_order H) mps)"
      "sessions s1 = (sessions s)(user_name usr \<mapsto>
         \<lparr>session_mounts = user_requests usr (hk_mount_order H) mps, session_count = 1\<rparr>)"
    by (rule ready_calls [OF assms(8,6)])
  have "open_session_for_user H p1 (s, w) u m
      = (Ret (Inr (Ok, user_uid usr, user_gid usr)), s1, w1)"
    using client_opens [OF calls hook_readyD(1) [OF assms(8)], of p1] result_from_Ok by simp
  from sm_open_session_started [OF p1(1) assms(4,5) this] assms(7) that p1(2,3) left
  show ?thesis by (simp add: env_set_def)
qed

lemma hook_closes:
  assumes "process_ok p" and "init_once p = Done" and "hook_username (hk_stack H) = Inr u"
    and "bus_works (hk_bus H)" and "env_user (hk_service H) u = Some usr"
    and "detaches (env_sys (hk_service H))"
    and "sessions s (user_name usr) = Some \<lparr>session_mounts = ms, session_count = 1\<rparr>"
  obtains p1 where "sm_close_session H p (s, w) = (Ret (Inr ()), p1,
      s\<lparr>sessions := (sessions s)(user_name usr := None)\<rparr>, w\<lparr>mounted := mounted w - mset ms\<rparr>)"
proof -
  obtain p1 where p1: "started H p p1" using started_again [OF assms(1,2)] by blast
  from sm_close_session_started [OF p1 assms(3,4), of "(s, w)"] close_opened [OF assms(5-7)] that
  show ?thesis by simp
qed

text \<open>
  C4: from opening to closing. In a process that can have its runtime, with the surroundings in order
  and credentials of at most 255 bytes from the authentication, the opening hook succeeds, puts the
  user's runtime directory into the environment and mounts exactly what the user has configured; the
  closing hook in the same process then succeeds and leaves the mounts and the sessions as they were
  before.
\<close>

theorem session_hooks_roundtrip:
  assumes "process_ok p" and "hk_runtime_ok H" and "init_once p \<noteq> Poisoned"
    and "hook_username (hk_stack H) = Inr u" and "module_data h (cred_data u) = Some m"
    and "length m \<le> 255" and "env_set_error (hk_stack H) = None" and "hook_ready H s w u usr mps"
  shows "\<exists>p1 h1 s1 w1 p2 s2 w2. sm_open_session H p h (s, w) = (Ret (Inr ()), p1, h1, s1, w1)
    \<and> pam_env h1 ''XDG_RUNTIME_DIR'' = Some (user_xdg_path (user_uid usr))
    \<and> mounted w1 = mounted w + mset (user_requests usr (hk_mount_order H) mps)
    \<and> sm_close_session H p1 (s1, w1) = (Ret (Inr ()), p2, s2, w2)
    \<and> mounted w2 = mounted w \<and> sessions s2 = sessions s"
proof -
  note ready = hook_readyD [OF assms(8)]
  obtain p1 s1 w1 where opened: "sm_open_session H p h (s, w) = (Ret (Inr ()), p1,
      h\<lparr>pam_env := (pam_env h)(''XDG_RUNTIME_DIR'' \<mapsto> user_xdg_path (user_uid usr))\<rparr>, s1, w1)"
    "process_ok p1" "init_once p1 = Done"
    "mounted w1 = mounted w + mset (user_requests usr (hk_mount_order H) mps)"
    "sessions s1 = (sessions s)(user_name usr \<mapsto>
         \<lparr>session_mounts = user_requests usr (hk_mount_order H) mps, session_count = 1\<rparr>)"
    by (rule hook_opens [OF assms])
  obtain p2 where "sm_close_session H p1 (s1, w1) = (Ret (Inr ()), p2,
      s1\<lparr>sessions := (sessions s1)(user_name usr := None)\<rparr>,
      w1\<lparr>mounted := mounted w1 - mset (user_requests usr (hk_mount_order H) mps)\<rparr>)"
    by (rule hook_closes [OF opened(2,3) assms(4) ready(1,10) reliable_detaches [OF ready(14)], of s1])
      (simp add: opened(5))
  with opened ready(11) show ?thesis by (auto simp: fun_upd_idem)
qed

text \<open>What the authentication hook does when only the typed password unlocks the stored data.\<close>

lemma typed_password_authenticates:
  assumes "hook_username (hk_stack H) = Inr u"
    and "load_user_auth_data (hk_storage H) (hk_sys H) w (Username u) = Inr (Some data)" and "has_main data"
    and "main_by_auth (hk_crypto H) data (Some []) = Inl e" and "prompt_for_password (hk_stack H) = Inr pw"
    and "main_by_auth (hk_crypto H) data (Some pw) = Inr m" and "set_data_error (hk_stack H) (cred_data u) = None"
  shows "sm_authenticate H w h = (Inr (), h\<lparr>module_data := (module_data h)(cred_data u \<mapsto> m)\<rparr>)"
  using assms by (simp add: sm_authenticate_def set_data_def)

text \<open>What a call for a token leaves of the service.\<close>

lemma bus_call_initiate_cases:
  assumes "bus_call B meth (call_initiate H) (s, w) = (r, sw)"
  shows "sw = (s, w) \<or> sw = (snd (initiate_session (hk_service H) (hk_token H) s), w)"
  using assms by (auto simp: bus_call_def call_initiate_def split: option.splits prod.splits run.splits)

lemma long_message_fails:
  assumes "hook_username (hk_stack H) = Inr u" and "module_data h (cred_data u) = Some m"
    and "255 < length m" and "process_ok p" and "hk_runtime_ok H" and "init_once p \<noteq> Poisoned"
  obtains p1 s1 where "sm_open_session H p h (s, w) = (Ret (Inl SERVICE_ERR), p1, h, s1, w)"
    "s1 = s \<or> s1 = snd (initiate_session (hk_service H) (hk_token H) s)"
proof -
  obtain p1 where p1: "started H p p1" using process_starts [OF assms(4-6)] by blast
  obtain r sw1 where r: "bus_call (hk_bus H) ''initiate_session'' (call_initiate H) (s, w) = (r, sw1)"
    by (metis prod.exhaust)
  have "encrypt (hk_crypto H) (hk_draws H) prelude m = Ret (Inl PlaintextTooLong)" for prelude
    using assms(3) by (simp add: encrypt_def Let_def)
  then have "sm_open_session H p h (s, w) = (Ret (Inl SERVICE_ERR), p1, h,
      (case bus_open (hk_bus H) (bus_address p1) of Inl e \<Rightarrow> (s, w) | Inr u \<Rightarrow> sw1))"
    using p1 assms(1,2) r
    by (auto simp: sm_open_session_def started_def get_data_def open_session_for_user_def
        split: sum.splits)
  then show ?thesis
    using that bus_call_initiate_cases [OF r] by (auto split: sum.splits)
qed

text \<open>
  C38: a main password the message cannot carry. A main password of more than 255 bytes that set_main
  accepted can be stored, and the user who types it is authenticated: the hook succeeds and keeps it for
  the session. But then, in any process that has its runtime and whatever the bus and the service do,
  the opening hook on the same handle fails with SERVICE_ERR. No mount is made, no file touched, and the
  service is as before, or as it is after one request for a token; its sessions are the same.
\<close>

theorem long_password_never_opens:
  assumes "bcrypt_complete (hk_crypto H)" and "main_draws_ok r"
    and "set_main (hk_crypto H) r fs old m ik = (Inr (), data)" and "is_string m" and "255 < length m"
    and "hook_username (hk_stack H) = Inr u"
    and "load_user_auth_data (hk_storage H) (hk_sys H) w0 (Username u) = Inr (Some data)"
    and "main_by_auth (hk_crypto H) data (Some []) = Inl e"
    and "prompt_for_password (hk_stack H) = Inr m" and "set_data_error (hk_stack H) (cred_data u) = None"
    and "hook_username (hk_stack G) = Inr u"
    and "process_ok p" and "hk_runtime_ok G" and "init_once p \<noteq> Poisoned"
  shows "\<exists>h p1 s1. sm_authenticate H w0 h0 = (Inr (), h) \<and> module_data h (cred_data u) = Some m
    \<and> sm_open_session G p h (s, w) = (Ret (Inl SERVICE_ERR), p1, h, s1, w)
    \<and> (s1 = s \<or> s1 = snd (initiate_session (hk_service G) (hk_token G) s)) \<and> sessions s1 = sessions s"
proof -
  obtain mp where mp: "main_password data = Some mp" "bcrypt_verify (hk_crypto H) (as_bytes m) (main_hash mp) = Inr True"
    by (rule set_main_verifies [OF assms(1-3)])
  let ?h = "h0\<lparr>module_data := (module_data h0)(cred_data u \<mapsto> m)\<rparr>"
  have auth: "sm_authenticate H w0 h0 = (Inr (), ?h)"
    using mp(1) by (intro typed_password_authenticates [OF assms(6,7) _ assms(8,9) verified_main_logs_in [OF mp assms(4)] assms(10)])
      (simp add: has_main_def)
  obtain p1 s1 where "sm_open_session G p ?h (s, w) = (Ret (Inl SERVICE_ERR), p1, ?h, s1, w)"
    "s1 = s \<or> s1 = snd (initiate_session (hk_service G) (hk_token G) s)"
    by (rule long_message_fails [of G u ?h m, OF assms(11) _ assms(5,12-14)]) simp
  moreover from this(2) have "sessions s1 = sessions s" using initiate_session_sessions by metis
  ultimately show ?thesis using auth by (intro exI [of _ ?h] exI [of _ p1] exI [of _ s1]) simp
qed

text \<open>
  The credentials hook asks the service. In a process that has its runtime and over a working bus
  it succeeds exactly for the users who are not root, have a name, and whose stored data loads and has
  a main password; everybody else is unknown, and the service is left as it was.
\<close>

theorem setcred_iff:
  assumes "process_ok p" and "hk_runtime_ok H" and "init_once p \<noteq> Poisoned"
    and "hook_username (hk_stack H) = Inr u" and "bus_works (hk_bus H)"
  shows "\<exists>p1. sm_setcred H p sw =
    (Ret (if u \<notin> {[], ''root''}
        \<and> (\<exists>data. load_user_auth_data (env_storage (hk_service H)) (env_sys (hk_service H)) (snd sw)
             (Username u) = Inr (Some data) \<and> has_main data)
      then Inr () else Inl USER_UNKNOWN), p1, sw)"
proof -
  obtain p1 where p1: "started H p p1" using process_starts [OF assms(1-3)] by blast
  let ?c = "is_user_polyauth_enabled (hk_service H) (snd sw) u"
  have "ask_polyauth_enabled H p1 sw u = (Inr ?c, sw)"
    using assms(5) bus_works_call [OF assms(5), of "call_enabled H u" sw ?c sw]
    by (simp add: ask_polyauth_enabled_def call_enabled_def)
  then have "sm_setcred H p sw =
      (Ret (if ?c = result_into_u32 Ok then Inr () else Inl USER_UNKNOWN), p1, sw)"
    using p1 assms(4)
    by (auto simp: sm_setcred_def started_def result_from_Ok simp del: result_into_u32.simps
        split: ServiceOperationResult.split)
  moreover have "?c = result_into_u32 Ok \<longleftrightarrow> u \<notin> {[], ''root''}
        \<and> (\<exists>data. load_user_auth_data (env_storage (hk_service H)) (env_sys (hk_service H)) (snd sw)
             (Username u) = Inr (Some data) \<and> has_main data)"
    by (auto simp: is_user_polyauth_enabled_def split: sum.splits option.splits)
  ultimately show ?thesis by simp
qed

text \<open>
  A lost reply leaves a session behind. When the reply to the opening call is lost on a bus that
  otherwise works, the hook fails although the service has mounted the user's directories and counts a
  session of the user.
\<close>

theorem lost_reply_leaves_session:
  assumes "process_ok p" and "hk_runtime_ok H" and "init_once p \<noteq> Poisoned"
    and "hook_username (hk_stack H) = Inr u" and "module_data h (cred_data u) = Some m"
    and "length m \<le> 255" and "hook_ready H s w u usr mps"
    and "H' = H\<lparr>hk_bus := (hk_bus H)\<lparr>reply_lost := (reply_lost (hk_bus H))(''open_user_session'' := Some e)\<rparr>\<rparr>"
  shows "\<exists>p1 s1 w1. sm_open_session H' p h (s, w) = (Ret (Inl SERVICE_ERR), p1, h, s1, w1)
    \<and> mounted w1 = mounted w + mset (user_requests usr (hk_mount_order H) mps)
    \<and> sessions s1 (user_name usr) = Some
        \<lparr>session_mounts = user_requests usr (hk_mount_order H) mps, session_count = 1\<rparr>"
proof -
  obtain p1 where "started H p p1" using process_starts [OF assms(1-3)] by blast
  then have p1: "started H' p p1" using assms(8) by (simp add: started_def)
  obtain s1 w1 where calls:
      "calls_open H (s, w) u m (result_into_u32 Ok, user_uid usr, user_gid usr) (s1, w1)"
    and left: "mounted w1 = mounted w + mset (user_requests usr (hk_mount_order H) mps)"
      "sessions s1 = (sessions s)(user_name usr \<mapsto>
         \<lparr>session_mounts = user_requests usr (hk_mount_order H) mps, session_count = 1\<rparr>)"
    by (rule ready_calls [OF assms(7,6)])
  have "open_session_for_user H' p1 (s, w) u m = (Ret (Inl e), s1, w1)"
    by (rule client_misses_reply [OF calls hook_readyD(1) [OF assms(7)] assms(8)])
  then have "sm_open_session H' p h (s, w) = (Ret (Inl SERVICE_ERR), p1, h, s1, w1)"
    using p1 assms(4,5,8) by (simp add: sm_open_session_def started_def get_data_def)
  with left show ?thesis by simp
qed

section \<open>Instances\<close>

definition demo_stack :: pam_stack where
  "demo_stack = \<lparr>get_user = Inr (Some ''u''), item_user = Inr None,
     item_conv = Inr (Some (Inr (Some ''key''))), set_data_error = (\<lambda>_. None), env_set_error = None\<rparr>"

definition demo_process :: process where
  "demo_process = \<lparr>bus_address = None, init_once = Fresh, runtime_set = False\<rparr>"

definition demo_handle :: "string \<Rightarrow> pam_handle" where
  "demo_handle m = \<lparr>module_data = [cred_data ''u'' \<mapsto> m], pam_env = Map.empty\<rparr>"

definition empty_handle :: pam_handle where
  "empty_handle = \<lparr>module_data = Map.empty, pam_env = Map.empty\<rparr>"

text \<open>Crates that decode every main password to one, and a world where the user's file is there.\<close>

definition one_crates :: "MainPassword \<Rightarrow> storage_crates" where
  "one_crates mp = (toy_crates (UserConfig_new\<lparr>auth_data := Some \<lparr>ser_main = Some [], ser_secondary = []\<rparr>\<rparr>))
     \<lparr>decode_main := (\<lambda>_. Inr mp)\<rparr>"

definition user_world :: world where
  "user_world = demo_world\<lparr>files := [''/etc/polyauth/u.json'' \<mapsto> as_bytes ''{}'']\<rparr>"

definition demo_hook :: "MainPassword \<Rightarrow> hook_env" where
  "demo_hook mp =
    \<lparr>hk_stack = demo_stack, hk_runtime_ok = True, hk_bus = demo_bus, hk_service = demo_env,
     hk_token = of_nat, hk_hash_order = [], hk_mount_order = [], hk_crypto = toy_crypto,
     hk_draws = toy_prelude_draws, hk_prelude_from_json = (\<lambda>s. Inr (SessionPrelude_new of_nat s)),
     hk_storage = one_crates mp, hk_sys = demo_sys\<rparr>"

lemma demo_hook_simps [simp]:
  "hk_stack (demo_hook mp) = demo_stack" "hk_runtime_ok (demo_hook mp)" "hk_bus (demo_hook mp) = demo_bus"
  "hk_service (demo_hook mp) = demo_env" "hk_crypto (demo_hook mp) = toy_crypto"
  "hk_storage (demo_hook mp) = one_crates mp" "hk_sys (demo_hook mp) = demo_sys"
  by (simp_all add: demo_hook_def)

lemma demo_process_simps [simp]: "process_ok demo_process" "init_once demo_process \<noteq> Poisoned"
  by (simp_all add: demo_process_def process_ok_def)

lemma demo_stack_simps [simp]:
  "hook_username demo_stack = Inr ''u''" "set_data_error demo_stack = (\<lambda>_. None)"
  "env_set_error demo_stack = None" "prompt_for_password demo_stack = Inr (lossy ''key'')"
  by (simp_all add: demo_stack_def hook_username_def prompt_for_password_def)

lemma demo_load:
  "load_user_auth_data (one_crates mp) demo_sys user_world (Username ''u'')
   = Inr (Some (push_main UserAuthData_new mp))"
proof -
  have path: "config_path_from_source (Username ''u'') = ''/etc/polyauth/u.json''"
    by (simp add: config_path_from_source_def config_path_for_username_def path_join_def
        POLYAUTH_CONFIG_DIR_def)
  have "read_to_string utf8_valid demo_sys user_world ''/etc/polyauth/u.json'' = Inr ''{}''"
    by (rule read_to_string_reliable) (simp_all add: user_world_def utf8_valid_ascii)
  then show ?thesis
    by (simp add: load_user_auth_data_def load_config_from_source_def path path_exists_def user_world_def
        one_crates_def toy_crates_def)
qed

lemma demo_ready: "hook_ready (demo_hook mp) demo_sessions toy_file_world ''u'' demo_user None"
proof -
  have "key_exchange (demo_hook mp) demo_sessions (as_bytes ''k'') ''k'' (replicate 32 7) ''k''"
    using demo_key_facts demo_fetch by (simp add: key_exchange_def demo_hook_def del: as_bytes_Cons)
  then show ?thesis
    using demo_key_facts demo_free demo_login_hyps
    by (auto simp: hook_ready_def hook_able_def mount_targets_def demo_hook_def)
qed

text \<open>The main password is \<open>main\<close> and the intermediate key, which is typed, is \<open>key\<close>.\<close>

lemma demo_authenticates:
  obtains mp where
    "represents toy_crypto (push_main UserAuthData_new mp)
       (Some \<lparr>acc_main = ''main'', acc_key = ''key'', acc_secondary = []\<rparr>)"
    "password_ok (lossy ''key'')" "lossy ''key'' = ''key''"
proof -
  have "password_ok ''main''" "password_ok ''key''" by (rule password_ok_ascii; simp)+
  moreover have "lossy ''key'' = ''key''" by (rule lossy_ascii) simp
  ultimately show ?thesis using demo_account that by metis
qed

text \<open>The typed intermediate key unlocks the main password, which is kept.\<close>

theorem authenticate_sound_witness:
  "\<exists>mp h' data m. sm_authenticate (demo_hook mp) user_world empty_handle = (Inr (), h')
     \<and> load_user_auth_data (one_crates mp) demo_sys user_world (Username ''u'') = Inr (Some data)
     \<and> (main_by_auth toy_crypto data (Some []) = Inr m \<or> main_by_auth toy_crypto data (Some ''key'') = Inr m)
     \<and> module_data h' (cred_data ''u'') = Some m"
proof -
  obtain mp where mp: "represents toy_crypto (push_main UserAuthData_new mp)
       (Some \<lparr>acc_main = ''main'', acc_key = ''key'', acc_secondary = []\<rparr>)"
    "password_ok (lossy ''key'')" "lossy ''key'' = ''key''"
    by (rule demo_authenticates)
  obtain h' where run: "sm_authenticate (demo_hook mp) user_world empty_handle = (Inr (), h')"
    using authenticates [of "demo_hook mp", unfolded demo_hook_simps, OF lawful_toy, of "''u''"
        user_world _ _ "lossy ''key''" empty_handle, OF _ demo_load mp(1) _ mp(2)] mp(3)
    by (simp add: account_login_def account_accepts_def)
  from authenticate_sound [OF this] run mp(3) show ?thesis
    by (intro exI [of _ mp] exI [of _ h']) auto
qed

theorem authenticate_exact_witness:
  "\<exists>mp. sm_authenticate (demo_hook mp) user_world (demo_handle [])
     = (Inr (), (demo_handle [])\<lparr>module_data :=
         (module_data (demo_handle []))(cred_data ''u'' \<mapsto> ''main'')\<rparr>)"
proof -
  obtain mp where mp: "represents toy_crypto (push_main UserAuthData_new mp)
       (Some \<lparr>acc_main = ''main'', acc_key = ''key'', acc_secondary = []\<rparr>)"
    "password_ok (lossy ''key'')" "lossy ''key'' = ''key''"
    by (rule demo_authenticates)
  from authenticate_exact [of "demo_hook mp", unfolded demo_hook_simps, OF lawful_toy, of "''u''"
      user_world _ _ "lossy ''key''" "demo_handle []", OF _ demo_load mp(1) _ mp(2)]
  show ?thesis using mp(3) by (intro exI [of _ mp]) (simp add: account_login_def account_accepts_def)
qed

theorem open_hook_sound_witness:
  "\<exists>r p' h' sw'. sm_open_session (demo_hook toy_main) demo_process (demo_handle ''secret'')
       (demo_sessions, toy_file_world) = (r, p', h', sw')
     \<and> (r = Ret (Inr ()) \<longrightarrow> (\<exists>sw1 ct uid gid.
          call_open (demo_hook toy_main) ''u'' ct sw1 = (Ret (result_into_u32 Ok, uid, gid), sw')))"
proof -
  obtain r p' h' sw' where "sm_open_session (demo_hook toy_main) demo_process (demo_handle ''secret'')
       (demo_sessions, toy_file_world) = (r, p', h', sw')"
    by (metis prod.exhaust)
  with open_hook_sound [OF this] show ?thesis by fastforce
qed

theorem session_hooks_roundtrip_witness:
  "\<exists>p1 h1 s1 w1 p2 s2 w2. sm_open_session (demo_hook toy_main) demo_process (demo_handle ''secret'')
       (demo_sessions, toy_file_world) = (Ret (Inr ()), p1, h1, s1, w1)
     \<and> mounted w1 = mounted toy_file_world
         + mset (user_requests demo_user (hk_mount_order (demo_hook toy_main)) None)
     \<and> sm_close_session (demo_hook toy_main) p1 (s1, w1) = (Ret (Inr ()), p2, s2, w2)
     \<and> mounted w2 = mounted toy_file_world"
  using session_hooks_roundtrip [of demo_process "demo_hook toy_main" "''u''" "demo_handle ''secret''"
      "''secret''", OF _ _ _ _ _ _ _ demo_ready]
  by (auto simp: demo_handle_def)

definition long_password :: string where
  "long_password = replicate 300 CHR ''a''"

text \<open>The hook of the demonstration, with the long password typed at the prompt.\<close>

definition long_hook :: "MainPassword \<Rightarrow> hook_env" where
  "long_hook mp = (demo_hook mp)\<lparr>hk_stack := demo_stack\<lparr>item_conv := Inr (Some (Inr (Some long_password)))\<rparr>\<rparr>"

lemma long_password_string [simp]: "is_string long_password" "lossy long_password = long_password"
  "255 < length long_password"
  by (simp_all add: is_string_def lossy_ascii long_password_def as_bytes_def utf8_valid_ascii list_all_iff)

lemma long_hook_simps [simp]:
  "hook_username (hk_stack (long_hook mp)) = Inr ''u''" "set_data_error (hk_stack (long_hook mp)) = (\<lambda>_. None)"
  "prompt_for_password (hk_stack (long_hook mp)) = Inr long_password" "hk_runtime_ok (long_hook mp)"
  "hk_crypto (long_hook mp) = toy_crypto" "hk_storage (long_hook mp) = one_crates mp" "hk_sys (long_hook mp) = demo_sys"
  by (simp_all add: long_hook_def demo_stack_def hook_username_def prompt_for_password_def)

theorem long_password_never_opens_witness:
  "\<exists>mp h p1 s1. sm_authenticate (long_hook mp) user_world empty_handle = (Inr (), h)
     \<and> module_data h (cred_data ''u'') = Some long_password
     \<and> sm_open_session (long_hook mp) demo_process h (demo_sessions, toy_file_world)
         = (Ret (Inl SERVICE_ERR), p1, h, s1, toy_file_world)"
proof -
  obtain mp where mp: "MainPassword_new toy_crypto demo_draws (as_bytes long_password) ''key''
      (replicate 32 0) = Inr mp"
    by (auto simp: MainPassword_new_def toy_crypto_def Let_def)
  let ?data = "push_main UserAuthData_new mp"
  have set: "set_main toy_crypto demo_draws (replicate 32 0) UserAuthData_new long_password ''key'' = (Inr (), ?data)"
    using mp by (simp add: set_main_def UserAuthData_new_def push_main_def password_to_vec_def)
  have "bcrypt_verify toy_crypto [] (main_hash mp) = Inr False"
    "bcrypt_verify toy_crypto [] (intermediate_key_hash mp) = Inr False"
    using mp by (auto simp: MainPassword_new_eq_Inr toy_crypto_def demo_draws_def long_password_def)
  then have locked: "main_by_auth toy_crypto ?data (Some []) = Inl (User CouldNotAuthenticate)"
    by (simp add: main_by_auth_def push_main_def UserAuthData_new_def MainPassword_plain_def)
  from long_password_never_opens [of "long_hook mp", unfolded long_hook_simps, OF toy_bcrypt_complete
      demo_draws_ok set long_password_string(1,3) refl demo_load locked refl, of "long_hook mp" demo_process
      empty_handle demo_sessions toy_file_world]
  show ?thesis by auto
qed

theorem setcred_iff_witness:
  "\<exists>p1. sm_setcred (demo_hook toy_main) demo_process (demo_sessions, demo_world)
     = (Ret (Inl USER_UNKNOWN), p1, demo_sessions, demo_world)"
proof -
  have "load_user_auth_data (env_storage demo_env) (env_sys demo_env) demo_world (Username ''u'') = Inr None"
    by (simp add: load_user_auth_data_def load_config_from_source_def config_path_from_source_def
        config_path_for_username_def path_join_def POLYAUTH_CONFIG_DIR_def path_exists_def demo_world_def)
  then show ?thesis
    using setcred_iff [of demo_process "demo_hook toy_main" "''u''" "(demo_sessions, demo_world)"] by simp
qed

theorem lost_reply_leaves_session_witness:
  "\<exists>H p1 h s1 w1. sm_open_session H demo_process h (demo_sessions, toy_file_world)
       = (Ret (Inl SERVICE_ERR), p1, h, s1, w1)
     \<and> sessions s1 ''u'' \<noteq> None"
proof -
  have "module_data (demo_handle ''secret'') (cred_data ''u'') = Some ''secret''"
    by (simp add: demo_handle_def)
  from lost_reply_leaves_session [OF _ _ _ _ this _ demo_ready [of toy_main] refl, of demo_process "''lost''"]
  obtain H p1 s1 w1 where "sm_open_session H demo_process (demo_handle ''secret'')
      (demo_sessions, toy_file_world) = (Ret (Inl SERVICE_ERR), p1, demo_handle ''secret'', s1, w1)"
    "sessions s1 ''u'' \<noteq> None"
    by auto
  then show ?thesis by blast
qed

end
