(* ===== verification/PamRun.thy ===== *)
theory PamRun
  imports PamModule SessionRegistry
begin

text \<open>
  An application that logs users in: it calls the hooks of src/lib.rs on one handle, in any order and
  in surroundings that change between the calls, while other clients call the service and other
  processes change files. Its runs are those of a machine over the process, the handle and the
  service; what it can do to the service is a sequence of calls on the bus.
\<close>

section \<open>The machine of an application\<close>

datatype hook = Authenticate | OpenSession | CloseSession | Setcred

type_synonym pam_state = "process \<times> pam_handle \<times> service"

definition call_hook :: "pam_state \<Rightarrow> hook_env \<Rightarrow> hook \<Rightarrow> hook_result \<times> pam_state" where
  "call_hook st H k =
    (case st of (p, h, sw) \<Rightarrow>
       (case k of
          Authenticate \<Rightarrow> (case sm_authenticate H (snd sw) h of (r, h') \<Rightarrow> (Ret r, p, h', sw))
        | OpenSession \<Rightarrow> sm_open_session H p h sw
        | CloseSession \<Rightarrow> (case sm_close_session H p sw of (r, p', sw') \<Rightarrow> (r, p', h, sw'))
        | Setcred \<Rightarrow> (case sm_setcred H p sw of (r, p', sw') \<Rightarrow> (r, p', h, sw'))))"

datatype pam_event = Hook hook_env hook | Elsewhere action

definition pam_step :: "pam_state \<Rightarrow> pam_event \<Rightarrow> pam_state" where
  "pam_step st ev =
    (case ev of
       Hook H k \<Rightarrow> snd (call_hook st H k)
     | Elsewhere a \<Rightarrow> (case st of (p, h, sw) \<Rightarrow> (p, h, service_step sw a)))"

abbreviation handle_of :: "pam_state \<Rightarrow> pam_handle" where
  "handle_of st \<equiv> fst (snd st)"

abbreviation service_of :: "pam_state \<Rightarrow> service" where
  "service_of st \<equiv> snd (snd st)"

section \<open>A hook is a sequence of calls\<close>

text \<open>The calls a hook can make: those of its own surroundings.\<close>

inductive hook_calls :: "hook_env \<Rightarrow> service \<Rightarrow> service \<Rightarrow> bool" for H where
  no_call: "hook_calls H sw sw"
| initiate_call: "hook_calls H sw (s, w) \<Longrightarrow>
    hook_calls H sw (service_step (s, w) (Initiate (hk_service H) (hk_token H)))"
| open_call: "hook_calls H sw (s, w) \<Longrightarrow> hook_calls H sw (service_step (s, w)
    (Open (hk_service H) usr encrypted (hk_hash_order H) (hk_mount_order H)))"
| close_call: "hook_calls H sw (s, w) \<Longrightarrow>
    hook_calls H sw (service_step (s, w) (Close (hk_service H) usr))"

lemma hook_calls_invariant:
  assumes "hook_calls H sw sw'" and "safe sw"
    and "\<And>sx a. safe sx \<Longrightarrow> action_detaches a \<Longrightarrow> safe (service_step sx a)"
    and "detaches (env_sys (hk_service H))"
  shows "safe sw'"
  using assms(1,2) by (induction rule: hook_calls.induct) (auto intro!: assms(3) simp: assms(4))

lemma call_initiate_step:
  "call_initiate H sw = (r, sw') \<Longrightarrow> sw' = service_step sw (Initiate (hk_service H) (hk_token H))"
  by (auto simp: call_initiate_def service_step_def split: prod.splits)

lemma call_open_step:
  "call_open H usr ct sw = (r, sw') \<Longrightarrow>
   sw' = service_step sw (Open (hk_service H) usr ct (hk_hash_order H) (hk_mount_order H))"
  by (auto simp: call_open_def service_step_def split: prod.splits)

lemma call_close_step:
  "call_close H usr sw = (r, sw') \<Longrightarrow> sw' = service_step sw (Close (hk_service H) usr)"
  by (auto simp: call_close_def service_step_def split: prod.splits)

lemma bus_call_hook:
  assumes "bus_call B m handler sw = (r, sw')" and "hook_calls H sw0 sw"
    and "\<And>q sx. handler sw = (q, sx) \<Longrightarrow> hook_calls H sw0 sx"
  shows "hook_calls H sw0 sw'"
  using bus_call_frame [OF assms(1)] assms(2,3) by blast

lemma call_initiate_hook: "call_initiate H sw = (q, sx) \<Longrightarrow> hook_calls H sw0 sw \<Longrightarrow> hook_calls H sw0 sx"
  using call_initiate_step [of H sw q sx] initiate_call [of H sw0 "fst sw" "snd sw"] by simp

lemma call_open_hook: "call_open H usr ct sw = (q, sx) \<Longrightarrow> hook_calls H sw0 sw \<Longrightarrow> hook_calls H sw0 sx"
  using call_open_step [of H usr ct sw q sx] open_call [of H sw0 "fst sw" "snd sw"] by simp

lemma call_close_hook: "call_close H usr sw = (q, sx) \<Longrightarrow> hook_calls H sw0 sw \<Longrightarrow> hook_calls H sw0 sx"
  using call_close_step [of H usr sw q sx] close_call [of H sw0 "fst sw" "snd sw"] by simp

lemma open_session_for_user_hook:
  assumes "open_session_for_user H p sw usr pw = (r, sw')"
  shows "hook_calls H sw sw'"
proof (cases "bus_open (hk_bus H) (bus_address p)")
  case (Inl e)
  with assms show ?thesis by (auto simp: open_session_for_user_def intro: no_call)
next
  case (Inr u)
  obtain q sw1 where init: "bus_call (hk_bus H) ''initiate_session'' (call_initiate H) sw = (q, sw1)"
    by (metis prod.exhaust)
  have one: "hook_calls H sw sw1"
    by (rule bus_call_hook [OF init no_call]) (rule call_initiate_hook [OF _ no_call])
  have "hook_calls H sw sx"
    if "bus_call (hk_bus H) ''open_user_session'' (call_open H usr ct) sw1 = (a, sx)" for ct a sx
    by (rule bus_call_hook [OF that one]) (rule call_open_hook [OF _ one])
  with assms Inr init one show ?thesis
    by (auto simp: open_session_for_user_def split: sum.splits if_splits run.splits prod.splits)
qed

lemma close_session_for_user_hook:
  "close_session_for_user H p sw usr = (r, sw') \<Longrightarrow> hook_calls H sw sw'"
  using bus_call_hook [of "hk_bus H" "''close_user_session''" "call_close H usr" sw r sw' H sw]
    call_close_hook [OF _ no_call, of H usr sw]
  by (auto simp: close_session_for_user_def split: sum.splits intro: no_call)

lemma ask_polyauth_enabled_hook:
  "ask_polyauth_enabled H p sw usr = (r, sw') \<Longrightarrow> sw' = sw"
  by (auto simp: ask_polyauth_enabled_def call_enabled_def split: sum.splits dest!: bus_call_frame)

lemma call_hook_calls:
  assumes "call_hook st H k = (r, st')"
  shows "hook_calls H (service_of st) (service_of st')"
proof -
  obtain p h sw where st: "st = (p, h, sw)" by (metis prod.exhaust)
  show ?thesis
  proof (cases k)
    case Authenticate
    with assms st show ?thesis by (auto simp: call_hook_def intro: no_call split: prod.splits)
  next
    case OpenSession
    with assms st have "sm_open_session H p h sw = (r, st')" by (simp add: call_hook_def)
    then show ?thesis
      using st by (auto simp: sm_open_session_def intro: no_call dest: open_session_for_user_hook
          split: run.splits sum.splits if_splits prod.splits)
  next
    case CloseSession
    with assms st show ?thesis
      by (auto simp: call_hook_def sm_close_session_def intro: no_call dest: close_session_for_user_hook
          split: run.splits sum.splits if_splits prod.splits ServiceOperationResult.splits)
  next
    case Setcred
    with assms st show ?thesis
      by (auto simp: call_hook_def sm_setcred_def intro: no_call dest!: ask_polyauth_enabled_hook
          split: run.splits sum.splits if_splits prod.splits ServiceOperationResult.splits)
  qed
qed

text \<open>What the service keeps under every call it therefore keeps along every run of applications.\<close>

fun event_detaches :: "pam_event \<Rightarrow> bool" where
  "event_detaches (Hook H k) = detaches (env_sys (hk_service H))"
| "event_detaches (Elsewhere a) = action_detaches a"

lemma pam_step_safe:
  assumes "safe (service_of st)" and "event_detaches ev"
    and "\<And>sx a. safe sx \<Longrightarrow> action_detaches a \<Longrightarrow> safe (service_step sx a)"
  shows "safe (service_of (pam_step st ev))"
proof (cases ev)
  case (Hook H k)
  obtain r st' where "call_hook st H k = (r, st')" by (metis prod.exhaust)
  with hook_calls_invariant [OF call_hook_calls, of st H k r st' safe] assms Hook show ?thesis
    by (simp add: pam_step_def)
next
  case (Elsewhere a)
  with assms show ?thesis by (simp add: pam_step_def case_prod_unfold)
qed

lemma leak_free_event:
  "leak_free base (service_of st) \<Longrightarrow> event_detaches ev \<Longrightarrow> leak_free base (service_of (pam_step st ev))"
  by (rule pam_step_safe [where safe = "leak_free base"]) (auto intro: leak_free_step)

interpretation application: machine pam_step "\<lambda>st. leak_free base (service_of st)" event_detaches for base
  by unfold_locales (rule leak_free_event)

section \<open>Where credentials come from\<close>

text \<open>
  In a state, the authentication hook would find the main password m of the user: the stored data
  loads, and the empty password or the one that is typed unlocks it.
\<close>

definition authenticated :: "pam_state \<Rightarrow> hook_env \<Rightarrow> string \<Rightarrow> string \<Rightarrow> bool" where
  "authenticated st H u m \<longleftrightarrow> hook_username (hk_stack H) = Inr u
   \<and> (\<exists>data s. load_user_auth_data (hk_storage H) (hk_sys H) (snd (service_of st)) (Username u)
          = Inr (Some data) \<and> has_main data
        \<and> (s = [] \<or> prompt_for_password (hk_stack H) = Inr s)
        \<and> main_by_auth (hk_crypto H) data (Some s) = Inr m)"

lemma cred_data_inject [simp]: "cred_data u = cred_data v \<longleftrightarrow> u = v"
  by (simp add: cred_data_def)

lemma env_set_module_data [simp]: "module_data (snd (env_set P h n v)) = module_data h"
  by (simp add: env_set_def split: option.split)

lemma sm_open_session_module_data:
  "sm_open_session H p h sw = (r, p', h', sw') \<Longrightarrow> module_data h' = module_data h"
  using env_set_module_data [of "hk_stack H" h]
  by (auto simp: sm_open_session_def simp del: env_set_module_data
      split: run.splits sum.splits if_splits prod.splits) (metis snd_conv)+

text \<open>Only a successful authentication changes the credentials, and then those of its user.\<close>

lemma sm_authenticate_credentials:
  assumes "sm_authenticate H (snd sw) h = (r, h')"
  shows "module_data h' = module_data h
    \<or> (\<exists>u m. authenticated (p, h, sw) H u m \<and> module_data h' = (module_data h)(cred_data u \<mapsto> m))"
proof (cases r)
  case (Inl e)
  with sm_authenticate_cases [OF assms] show ?thesis by simp
next
  case (Inr u)
  then obtain u data s m where "hook_username (hk_stack H) = Inr u"
    "load_user_auth_data (hk_storage H) (hk_sys H) (snd sw) (Username u) = Inr (Some data)" "has_main data"
    "s = [] \<or> prompt_for_password (hk_stack H) = Inr s" "main_by_auth (hk_crypto H) data (Some s) = Inr m"
    "h' = h\<lparr>module_data := (module_data h)(cred_data u \<mapsto> m)\<rparr>"
    using sm_authenticate_cases [OF assms] by auto
  then show ?thesis by (intro disjI2 exI [of _ u] exI [of _ m]) (auto simp: authenticated_def)
qed

lemma pam_step_credentials:
  assumes "module_data (handle_of (pam_step st ev)) k \<noteq> module_data (handle_of st) k"
  obtains H u m where "ev = Hook H Authenticate" "authenticated st H u m" "k = cred_data u"
    "module_data (handle_of (pam_step st ev)) k = Some m"
proof -
  obtain p h sw where st: "st = (p, h, sw)" by (metis prod.exhaust)
  show ?thesis
  proof (cases ev)
    case (Hook H kind)
    show ?thesis
    proof (cases kind)
      case Authenticate
      obtain r h' where r: "sm_authenticate H (snd sw) h = (r, h')" by fastforce
      then have h': "handle_of (pam_step st ev) = h'"
        using Hook Authenticate st by (simp add: pam_step_def call_hook_def)
      then obtain u m where "authenticated st H u m" "module_data h' = (module_data h)(cred_data u \<mapsto> m)"
        using sm_authenticate_credentials [OF r, of p] assms st by auto
      with that Hook Authenticate h' assms st show ?thesis by (auto split: if_splits)
    next
      case OpenSession
      obtain r p' h' sw' where r: "sm_open_session H p h sw = (r, p', h', sw')" by (metis prod.exhaust)
      with sm_open_session_module_data [OF r] assms Hook OpenSession st show ?thesis
        by (simp add: pam_step_def call_hook_def)
    qed (use assms Hook st in \<open>auto simp: pam_step_def call_hook_def split: prod.splits\<close>)
  qed (use assms st in \<open>simp add: pam_step_def\<close>)
qed

lemma credentials_from_authentication:
  assumes "module_data (handle_of st0) = Map.empty"
    and "module_data (handle_of (foldl pam_step st0 evs)) (cred_data u) = Some m"
  shows "\<exists>i H. i < length evs \<and> evs ! i = Hook H Authenticate
    \<and> authenticated (foldl pam_step st0 (take i evs)) H u m"
  using assms(2)
proof (induction evs rule: rev_induct)
  case Nil
  with assms(1) show ?case by simp
next
  case (snoc ev evs)
  let ?st = "foldl pam_step st0 evs"
  show ?case
  proof (cases "module_data (handle_of ?st) (cred_data u) = Some m")
    case True
    from snoc.IH [OF this] obtain i H where "i < length evs" "evs ! i = Hook H Authenticate"
      "authenticated (foldl pam_step st0 (take i evs)) H u m" by blast
    then show ?thesis by (intro exI [of _ i] exI [of _ H]) (simp add: nth_append)
  next
    case False
    then have "module_data (handle_of (pam_step ?st ev)) (cred_data u) \<noteq> module_data (handle_of ?st) (cred_data u)"
      using snoc.prems by simp
    then obtain H v m' where ev: "ev = Hook H Authenticate" "authenticated ?st H v m'"
      "cred_data u = cred_data v" "module_data (handle_of (pam_step ?st ev)) (cred_data u) = Some m'"
      by (rule pam_step_credentials)
    with snoc.prems show ?thesis
      by (intro exI [of _ "length evs"] exI [of _ H]) simp
  qed
qed

text \<open>
  C29: no session without an authentication. On a handle that began without credentials, after any
  calls of the hooks in any order and surroundings, with other clients and processes in between: when
  the opening hook succeeds for a user, some earlier call of the authentication hook on this handle
  found that user's stored data unlocked by the empty or the typed password at that time, the
  credentials still are a main password so unlocked, and the service has answered the opening of that
  user's session with success after at most drawing a new token.
\<close>

theorem sessions_need_authentication:
  assumes "module_data (handle_of st0) = Map.empty"
    and "call_hook (foldl pam_step st0 evs) H OpenSession = (Ret (Inr ()), st')"
  shows "\<exists>u m i H'. hook_username (hk_stack H) = Inr u
    \<and> i < length evs \<and> evs ! i = Hook H' Authenticate
    \<and> authenticated (foldl pam_step st0 (take i evs)) H' u m
    \<and> module_data (handle_of st') (cred_data u) = Some m
    \<and> (\<exists>s w ct uid gid. sessions s = sessions (fst (service_of (foldl pam_step st0 evs)))
        \<and> w = snd (service_of (foldl pam_step st0 evs))
        \<and> call_open H u ct (s, w) = (Ret (result_into_u32 Ok, uid, gid), service_of st'))"
proof -
  obtain p h sw where st: "foldl pam_step st0 evs = (p, h, sw)" by (metis prod.exhaust)
  obtain p' h' sw' where st': "st' = (p', h', sw')" by (metis prod.exhaust)
  have run: "sm_open_session H p h sw = (Ret (Inr ()), p', h', sw')"
    using assms(2) st st' by (simp add: call_hook_def)
  from open_hook_cases [OF this] obtain u m sw1 ct uid gid where opened:
    "hook_username (hk_stack H) = Inr u" "module_data h (cred_data u) = Some m"
    "sessions (fst sw1) = sessions (fst sw)" "snd sw1 = snd sw"
    "call_open H u ct sw1 = (Ret (result_into_u32 Ok, uid, gid), sw')"
    by blast
  from opened(2) st obtain i H' where "i < length evs" "evs ! i = Hook H' Authenticate"
    "authenticated (foldl pam_step st0 (take i evs)) H' u m"
    using credentials_from_authentication [OF assms(1), of evs u m] by auto
  moreover have "module_data h' (cred_data u) = Some m"
    using sm_open_session_module_data [OF run] opened(2) by simp
  ultimately show ?thesis
    using opened st st' by (intro exI [of _ u] exI [of _ m] exI [of _ i] exI [of _ H']) (auto, metis prod.collapse)
qed

section \<open>Instances\<close>

text \<open>An authentication, then another process that replaces the files, then the opening.\<close>

lemma demo_logged_in:
  obtains mp where
    "foldl pam_step (demo_process, empty_handle, demo_sessions, user_world)
        [Hook (demo_hook mp) Authenticate, Elsewhere (Others (files toy_file_world))]
     = (demo_process, demo_handle ''main'', demo_sessions, toy_file_world)"
proof -
  obtain mp where mp: "represents toy_crypto (push_main UserAuthData_new mp)
       (Some \<lparr>acc_main = ''main'', acc_key = ''key'', acc_secondary = []\<rparr>)"
    "password_ok (lossy ''key'')" "lossy ''key'' = ''key''"
    by (rule demo_authenticates)
  from authenticates [of "demo_hook mp", unfolded demo_hook_simps, OF lawful_toy, of "''u''"
      user_world _ _ "lossy ''key''" empty_handle, OF _ demo_load mp(1) _ mp(2)]
  have "sm_authenticate (demo_hook mp) user_world empty_handle = (Inr (), demo_handle ''main'')"
    using mp(3) by (simp add: account_login_def account_accepts_def empty_handle_def demo_handle_def)
  moreover have "user_world\<lparr>files := files toy_file_world\<rparr> = toy_file_world"
    by (simp add: user_world_def toy_file_world_def)
  ultimately show ?thesis using that [of mp] by (simp add: pam_step_def call_hook_def service_step_def)
qed

theorem sessions_need_authentication_witness:
  "\<exists>mp st'. call_hook (foldl pam_step (demo_process, empty_handle, demo_sessions, user_world)
        [Hook (demo_hook mp) Authenticate, Elsewhere (Others (files toy_file_world))])
      (demo_hook mp) OpenSession = (Ret (Inr ()), st')
   \<and> (\<exists>m. authenticated (demo_process, empty_handle, demo_sessions, user_world) (demo_hook mp) ''u'' m)"
proof -
  obtain mp where run: "foldl pam_step (demo_process, empty_handle, demo_sessions, user_world)
        [Hook (demo_hook mp) Authenticate, Elsewhere (Others (files toy_file_world))]
     = (demo_process, demo_handle ''main'', demo_sessions, toy_file_world)"
    by (rule demo_logged_in)
  obtain p1 h1 s1 w1 where "sm_open_session (demo_hook mp) demo_process (demo_handle ''main'')
      (demo_sessions, toy_file_world) = (Ret (Inr ()), p1, h1, s1, w1)"
    by (rule hook_opens [of demo_process "demo_hook mp" "''u''" "demo_handle ''main''" "''main''",
          OF _ _ _ _ _ _ _ demo_ready]) (auto simp: demo_handle_def)
  moreover define evs where
    "evs = [Hook (demo_hook mp) Authenticate, Elsewhere (Others (files toy_file_world))]"
  moreover define st0 where "st0 = (demo_process, empty_handle, demo_sessions, user_world)"
  ultimately have opened: "call_hook (foldl pam_step st0 evs) (demo_hook mp) OpenSession
      = (Ret (Inr ()), p1, h1, s1, w1)"
    using run by (simp add: call_hook_def)
  have "module_data (handle_of st0) = Map.empty" by (simp add: st0_def empty_handle_def)
  from sessions_need_authentication [OF this opened] obtain u m i H'
    where found: "hook_username (hk_stack (demo_hook mp)) = Inr u" "i < length evs"
      "evs ! i = Hook H' Authenticate" "authenticated (foldl pam_step st0 (take i evs)) H' u m"
    by blast
  then have "i = 0" by (cases i) (auto simp: evs_def)
  with found have "authenticated st0 (demo_hook mp) ''u'' m" by (simp add: evs_def)
  with opened show ?thesis unfolding evs_def st0_def by blast
qed

end
