(* ===== verification/Polyauthctl.thy ===== *)
theory Polyauthctl
  imports Bus Sessions AccountSpec UserDatabase
begin

text \<open>
  The command line tool (src/bin/polyauthctl/main.rs): it loads the data of a user, lets one command
  change them and stores them again. A run ends normally, by an exit with an error code or by a panic;
  the lines written to the standard output and the world it leaves are returned in each case. Error
  messages and the decoration of the output are left out. Arguments are taken as already parsed.
\<close>

section \<open>Arguments\<close>

datatype InfoCommand = InfoCommand

record ChangeSecondaryMountCommand =
  sec_dir :: string
  sec_device :: string
  sec_fstype :: string
  sec_flags :: "string list"

record ChangeMainMountCommand =
  home_device :: string
  home_fstype :: string
  home_flags :: "string list"

record SetupCommand =
  setup_intermediate :: "string option"

record SetSessionCommand =
  session_cmd :: string
  session_args :: "string list"

datatype ResetCommand = ResetCommand

datatype InspectCommand = InspectCommand

record AddAuthPasswordCommand =
  secondary_pw :: "string option"

datatype AddAuthMethod = AddPassword AddAuthPasswordCommand

record AddAuthCommand =
  add_name :: string
  add_intermediate :: "string option"
  add_method :: AddAuthMethod

datatype MountAuthorizeCommand = MountAuthorizeCommand

datatype MountAction = AuthorizeAction MountAuthorizeCommand

record MountCommand =
  mount_action :: MountAction

datatype Command =
    Info InfoCommand
  | Setup SetupCommand
  | Reset ResetCommand
  | Inspect InspectCommand
  | Add AddAuthCommand
  | SetSession SetSessionCommand
  | ChangeMainMount ChangeMainMountCommand
  | ChangeSecondaryMount ChangeSecondaryMountCommand
  | Mount MountCommand

record Args =
  arg_username :: "string option"
  arg_config_file :: "path option"
  arg_password :: "string option"
  arg_update_as_needed :: "bool option"
  arg_command :: Command

section \<open>Surroundings\<close>

text \<open>
  What a run meets: the name of the user who runs it, the answers at the terminal, the user database,
  the crates with the random bytes they would draw, the enumeration orders of the mounts it hashes and
  of those it stores, the bus with the authorizations behind it, and the local time zone, which shows
  a number of seconds or has no single time for it.
\<close>

record ctl_env =
  ctl_current :: "string option"
  ctl_answers :: "(ext_error + string) list"
  ctl_user :: "string \<Rightarrow> user option"
  ctl_storage :: storage_crates
  ctl_sys :: sys
  ctl_crypto :: crypto
  ctl_main_draws :: main_draws
  ctl_fresh_salt :: "u8 list"
  ctl_secondary_draws :: secondary_draws
  ctl_digest :: digest
  ctl_hash_order :: "string list"
  ctl_store_order :: "string list"
  ctl_bus :: bus
  ctl_bus_address :: "string option"
  ctl_service_json :: auth_json
  ctl_service_sys :: sys
  ctl_service :: MountAuthOperations
  ctl_local_time :: "int \<Rightarrow> string option"

text \<open>How a run can end early: by exit with the code -1, or by a panic.\<close>

datatype stop = Exit | Abort

text \<open>A line of the output: a rule, a text, or a label with a value.\<close>

datatype line = Rule | Text_line string | Value_line string string

text \<open>
  What a command works on: the authentication data, the mounts, and whether they are written in the
  end.
\<close>

record ctl =
  user_cfg :: UserAuthData
  user_mounts :: "MountPoints option"
  write_file :: "bool option"

type_synonym ctl_result = "(stop + ctl) \<times> line list \<times> world"

section \<open>Prompts\<close>

text \<open>A prompt takes the next answer; at the end of the input it fails.\<close>

fun prompt_password :: "(ext_error + string) list \<Rightarrow> (ext_error + string) \<times> (ext_error + string) list" where
  "prompt_password [] = (Inl ''no more input'', [])"
| "prompt_password (a # rest) = (a, rest)"

text \<open>A prompt whose failure panics, and two prompts that must agree.\<close>

definition prompt_or_abort :: "(ext_error + string) list \<Rightarrow> (stop + string) \<times> (ext_error + string) list" where
  "prompt_or_abort answers = (case prompt_password answers of (r, rest) \<Rightarrow> (map_err (\<lambda>_. Abort) r, rest))"

definition prompt_twice :: "(ext_error + string) list \<Rightarrow> (stop + string) \<times> (ext_error + string) list" where
  "prompt_twice answers =
    (case prompt_or_abort answers of
       (Inl e, rest) \<Rightarrow> (Inl e, rest)
     | (Inr value, rest) \<Rightarrow>
         (case prompt_or_abort rest of
            (Inl e, rest') \<Rightarrow> (Inl e, rest')
          | (Inr again, rest') \<Rightarrow> (if value \<noteq> again then Inl Exit else Inr value, rest')))"

section \<open>Loading\<close>

definition ctl_source :: "ctl_env \<Rightarrow> Args \<Rightarrow> stop + StorageSource" where
  "ctl_source T args =
    (case arg_config_file args of
       Some p \<Rightarrow> Inr (File p)
     | None \<Rightarrow>
         (case ctl_current T of
            None \<Rightarrow> Inl Abort
          | Some n \<Rightarrow> Inr (Username (lossy n))))"

definition is_setup :: "Command \<Rightarrow> bool" where
  "is_setup c = (case c of Setup s \<Rightarrow> True | _ \<Rightarrow> False)"

definition ctl_load_auth :: "ctl_env \<Rightarrow> world \<Rightarrow> Args \<Rightarrow> StorageSource \<Rightarrow> stop + UserAuthData" where
  "ctl_load_auth T w args source =
    (case load_user_auth_data (ctl_storage T) (ctl_sys T) w source of
       Inr (Some existing) \<Rightarrow> Inr existing
     | Inr None \<Rightarrow> Inr UserAuthData_new
     | Inl err \<Rightarrow> if is_setup (arg_command args) then Inl Exit else Inr UserAuthData_new)"

section \<open>Authorizing mounts\<close>

definition ctl_hash :: "ctl_env \<Rightarrow> MountPoints \<Rightarrow> string" where
  "ctl_hash T mp = mount_hash (ctl_digest T) mp (ctl_hash_order T)"

definition call_authorize :: "ctl_env \<Rightarrow> string \<Rightarrow> string \<Rightarrow> world \<Rightarrow> u32 run \<times> world" where
  "call_authorize T username hash w =
    authorize (ctl_service_json T) (ctl_service_sys T) w (ctl_service T) username hash"

definition ask_authorize :: "ctl_env \<Rightarrow> string \<Rightarrow> string \<Rightarrow> world \<Rightarrow> (ext_error + u32) \<times> world" where
  "ask_authorize T username hash w =
    (case bus_open (ctl_bus T) (ctl_bus_address T) of
       Inl e \<Rightarrow> (Inl e, w)
     | Inr u \<Rightarrow> bus_call (ctl_bus T) ''authorize'' (call_authorize T username hash) w)"

definition mount_authorize :: "ctl_env \<Rightarrow> world \<Rightarrow> Args \<Rightarrow> StorageSource \<Rightarrow> ctl \<Rightarrow> ctl_result" where
  "mount_authorize T w args source c =
    (let name =
       (case arg_username args of
          Some user \<Rightarrow> Inr user
        | None \<Rightarrow> (case source of Username user \<Rightarrow> Inr user | File p \<Rightarrow> Inl Exit)) in
     case name of
       Inl e \<Rightarrow> (Inl e, [], w)
     | Inr username \<Rightarrow>
         (case load_user_mountpoints (ctl_storage T) (ctl_sys T) w (Username username) of
            Inl err \<Rightarrow> (Inl Exit, [], w)
          | Inr None \<Rightarrow> (Inl Exit, [], w)
          | Inr (Some loaded_mounts) \<Rightarrow>
              (case ask_authorize T username (ctl_hash T loaded_mounts) w of
                 (Inl err, w1) \<Rightarrow> (Inl Exit, [], w1)
               | (Inr reply, w1) \<Rightarrow>
                   (if result_from_u32 reply \<noteq> Ok then (Inl Exit, [], w1)
                    else (Inr c, [Value_line ''Mount authorized for user'' username], w1)))))"

section \<open>Commands\<close>

definition LIBRARY_VERSION :: string where
  "LIBRARY_VERSION = ''0.8.7''"

definition print_info :: "world \<Rightarrow> ctl \<Rightarrow> ctl_result" where
  "print_info w c =
    (Inr c,
     [Text_line (''pam_polyauth version '' @ LIBRARY_VERSION @ '', Copyright (C) 2024-2025 Denis Benato''),
      Text_line ''pam_polyauth comes with ABSOLUTELY NO WARRANTY;'',
      Text_line ''This is free software, and you are welcome to redistribute it'',
      Text_line ''under certain conditions.'', Text_line [], Text_line []], w)"

definition change_secondary_mount :: "world \<Rightarrow> ChangeSecondaryMountCommand \<Rightarrow> ctl \<Rightarrow> ctl_result" where
  "change_secondary_mount w d c =
    (case user_mounts c of
       None \<Rightarrow> (Inl Exit, [], w)
     | Some new_data \<Rightarrow>
         (Inr (c\<lparr>user_mounts := Some (with_premount new_data (sec_dir d)
                   (MountParams_new (sec_device d) (sec_fstype d) (sec_flags d))),
                 write_file := Some True\<rparr>), [], w))"

definition change_main_mount :: "world \<Rightarrow> ChangeMainMountCommand \<Rightarrow> ctl \<Rightarrow> ctl_result" where
  "change_main_mount w d c =
    (let old = (case user_mounts c of Some mp \<Rightarrow> mp | None \<Rightarrow> MountPoints_default) in
     (Inr (c\<lparr>user_mounts := Some (with_mount old
               (MountParams_new (home_device d) (home_fstype d) (home_flags d))),
             write_file := Some True\<rparr>), [], w))"

definition set_session :: "ctl_env \<Rightarrow> world \<Rightarrow> StorageSource \<Rightarrow> SetSessionCommand \<Rightarrow> ctl \<Rightarrow> ctl_result" where
  "set_session T w source d c =
    (case store_user_session_command (ctl_storage T) (ctl_sys T) w (SessionCommand_new (session_cmd d))
         source None None of
       (Inr u, w1) \<Rightarrow> (Inr c, [], w1)
     | (Inl err, w1) \<Rightarrow> (Inl Exit, [], w1))"

definition reset_user :: "ctl_env \<Rightarrow> world \<Rightarrow> StorageSource \<Rightarrow> ctl \<Rightarrow> ctl_result" where
  "reset_user T w source c =
    (case remove_user_data (ctl_sys T) w source of
       (Inr u, w1) \<Rightarrow> (Inr (c\<lparr>write_file := Some False\<rparr>), [], w1)
     | (Inl err, w1) \<Rightarrow> (Inl Exit, [], w1))"

section \<open>Setup\<close>

text \<open>Asking for the authorization of the mounts that were set up; every failure is only a warning.\<close>

definition setup_authorize ::
  "ctl_env \<Rightarrow> Args \<Rightarrow> string \<Rightarrow> MountPoints option \<Rightarrow> world \<Rightarrow> line list \<times> world" where
  "setup_authorize T args setup_username setup_user_mounts w =
    (if arg_config_file args \<noteq> None then ([], w)
     else
       (case setup_user_mounts of
          None \<Rightarrow> ([], w)
        | Some mp \<Rightarrow>
            (case ask_authorize T setup_username (ctl_hash T mp) w of
               (Inl err, w1) \<Rightarrow> ([], w1)
             | (Inr reply, w1) \<Rightarrow>
                 (if result_from_u32 reply \<noteq> Ok then ([], w1)
                  else ([Value_line ''Default mount authorized for user'' setup_username], w1)))))"

text \<open>Writing what was set up, for the user with the given numbers.\<close>

definition setup_store ::
  "ctl_env \<Rightarrow> world \<Rightarrow> Args \<Rightarrow> string \<Rightarrow> user \<Rightarrow> StorageSource \<Rightarrow> ctl \<Rightarrow> ctl_result" where
  "setup_store T w args setup_username info source c =
    (case store_user_auth_data (ctl_storage T) (ctl_sys T) w (user_cfg c) source
         (Some (user_uid info)) (Some (user_gid info)) of
       (Inl err, w1) \<Rightarrow> (Inl Exit, [], w1)
     | (Inr u, w1) \<Rightarrow>
         (case load_user_mountpoints (ctl_storage T) (ctl_sys T) w1 source of
            Inl err \<Rightarrow> (Inl Exit, [], w1)
          | Inr setup_user_mounts \<Rightarrow>
              (case store_user_mountpoints (ctl_storage T) (ctl_sys T) w1 (ctl_store_order T)
                   setup_user_mounts source None None of
                 (Inl err, w2) \<Rightarrow> (Inl Exit, [], w2)
               | (Inr u, w2) \<Rightarrow>
                   (case setup_authorize T args setup_username setup_user_mounts w2 of
                      (out, w3) \<Rightarrow>
                        (Inr (c\<lparr>write_file := Some False\<rparr>),
                         out @ [Value_line ''Setup completed successfully for user'' setup_username],
                         w3)))))"

definition setup_user :: "ctl_env \<Rightarrow> world \<Rightarrow> Args \<Rightarrow> SetupCommand \<Rightarrow> ctl \<Rightarrow> ctl_result" where
  "setup_user T w args s c =
    (if has_main (user_cfg c) then (Inl Exit, [], w)
     else
       (case arg_username args of
          None \<Rightarrow> (Inl Exit, [], w)
        | Some setup_username \<Rightarrow>
            (case ctl_user T setup_username of
               None \<Rightarrow> (Inl Exit, [], w)
             | Some user_info \<Rightarrow>
                 (let setup_storage_source =
                        (case arg_config_file args of
                           Some p \<Rightarrow> File p
                         | None \<Rightarrow> Username setup_username);
                      (key, answers) =
                        (case setup_intermediate s of
                           Some ik \<Rightarrow> (Inr ik, ctl_answers T)
                         | None \<Rightarrow> prompt_twice (ctl_answers T)) in
                  case key of
                    Inl e \<Rightarrow> (Inl e, [], w)
                  | Inr intermediate_key \<Rightarrow>
                      (case (case arg_password args of
                               Some password \<Rightarrow> Inr password
                             | None \<Rightarrow> fst (prompt_or_abort answers)) of
                         Inl e \<Rightarrow> (Inl e, [], w)
                       | Inr password \<Rightarrow>
                           (case set_main (ctl_crypto T) (ctl_main_draws T) (ctl_fresh_salt T)
                                (user_cfg c) password intermediate_key of
                              (Inl err, cfg) \<Rightarrow> (Inl Exit, [], w)
                            | (Inr u, cfg) \<Rightarrow>
                                setup_store T w args setup_username user_info setup_storage_source
                                  (c\<lparr>user_cfg := cfg\<rparr>)))))))"

section \<open>Inspect\<close>

definition inspect_head :: "StorageSource \<Rightarrow> line list" where
  "inspect_head source =
    (case source of
       Username username \<Rightarrow> [Rule, Value_line ''User'' username, Rule]
     | File p \<Rightarrow> [Rule, Value_line ''Path'' (lossy p), Rule])"

definition inspect_mounts :: "ctl_env \<Rightarrow> MountPoints option \<Rightarrow> line list" where
  "inspect_mounts T mps =
    (case mps of
       None \<Rightarrow> [Text_line ''No user-defined mounts'']
     | Some mount_info \<Rightarrow>
         [Value_line ''hash'' (ctl_hash T mount_info), Value_line ''device'' (device (home mount_info))]
         @ (if fstype (home mount_info) = [] then []
            else [Value_line ''filesystem'' (fstype (home mount_info))])
         @ [Value_line ''args'' (join '','' (flags (home mount_info)))]
         @ concat (foreach mount_info (ctl_hash_order T) (\<lambda>a b.
             [Rule, Value_line ''directory'' a, Value_line ''device'' (device b),
              Value_line ''filesystem'' (fstype b), Value_line ''args'' (join '','' (flags b))])))"

definition inspect_count :: "nat \<Rightarrow> line list" where
  "inspect_count methods_count =
    (if methods_count = 0 then [Text_line ''No authentication methods configured.'']
     else if methods_count = 1 then [Text_line ''There is 1 authentication method: '', Rule]
     else [Value_line ''authentication methods'' (dec_nat methods_count), Rule])"

text \<open>The loop over the methods: a creation date without a single local time panics.\<close>

fun inspect_methods :: "ctl_env \<Rightarrow> SecondaryAuth list \<Rightarrow> (stop + unit) \<times> line list" where
  "inspect_methods T [] = (Inr (), [])"
| "inspect_methods T (s # rest) =
    (case ctl_local_time T (sint (creation_date s)) of
       None \<Rightarrow> (Inl Abort, [Value_line ''name'' (auth_name s)])
     | Some t \<Rightarrow>
         (case inspect_methods T rest of
            (r, out) \<Rightarrow>
              (r, [Value_line ''name'' (auth_name s), Value_line ''created at'' t,
                   Value_line ''type'' (type_name s), Rule] @ out)))"

definition inspect_user :: "ctl_env \<Rightarrow> world \<Rightarrow> StorageSource \<Rightarrow> ctl \<Rightarrow> ctl_result" where
  "inspect_user T w source c =
    (let shown = inspect_head source @ inspect_mounts T (user_mounts c) @ [Rule] in
     case load_user_session_command (ctl_storage T) (ctl_sys T) w source of
       Inl err \<Rightarrow> (Inl Exit, shown, w)
     | Inr maybe_data \<Rightarrow>
         (let command =
            (case maybe_data of
               Some data \<Rightarrow> Value_line ''Default session command'' (SessionCommand_command data)
             | None \<Rightarrow> Text_line ''No default session set.'') in
          case inspect_methods T (auth (user_cfg c)) of
            (r, out) \<Rightarrow>
              (map_sum id (\<lambda>u. c) r,
               shown @ [command, Rule] @ inspect_count (length (auth (user_cfg c))) @ out, w)))"

section \<open>Add\<close>

text \<open>The intermediate key: the option, or a prompt, which is repeated when no main password is set.\<close>

definition add_key :: "ctl_env \<Rightarrow> AddAuthCommand \<Rightarrow> ctl \<Rightarrow> (stop + string) \<times> (ext_error + string) list" where
  "add_key T a c =
    (case add_intermediate a of
       Some ik \<Rightarrow> (Inr ik, ctl_answers T)
     | None \<Rightarrow>
         if has_main (user_cfg c) then prompt_or_abort (ctl_answers T)
         else prompt_twice (ctl_answers T))"

text \<open>The password method, with the key that was checked.\<close>

definition add_password ::
  "ctl_env \<Rightarrow> world \<Rightarrow> string \<Rightarrow> string \<Rightarrow> AddAuthPasswordCommand \<Rightarrow> (ext_error + string) list \<Rightarrow> ctl \<Rightarrow>
   ctl_result" where
  "add_password T w n intermediate m answers c =
    (case (case secondary_pw m of
             Some secondary_password \<Rightarrow> Inr secondary_password
           | None \<Rightarrow> fst (prompt_twice answers)) of
       Inl e \<Rightarrow> (Inl e, [], w)
     | Inr secondary_password \<Rightarrow>
         (if \<not> has_main (user_cfg c) then (Inl Exit, [], w)
          else
            (case add_secondary_password (ctl_crypto T) (ctl_secondary_draws T)
                 (now_since_epoch (ctl_storage T)) (user_cfg c) n intermediate secondary_password of
               (Inr u, cfg) \<Rightarrow>
                 (Inr (c\<lparr>user_cfg := cfg, write_file := Some True\<rparr>),
                  [Text_line ''Secondary password added.''], w)
             | (Inl err, cfg) \<Rightarrow> (Inl Exit, [], w))))"

definition add_auth :: "ctl_env \<Rightarrow> world \<Rightarrow> Args \<Rightarrow> AddAuthCommand \<Rightarrow> ctl \<Rightarrow> ctl_result" where
  "add_auth T w args a c =
    (case add_key T a c of
       (Inl e, answers) \<Rightarrow> (Inl e, [], w)
     | (Inr intermediate_password, answers) \<Rightarrow>
         (let checked =
            (if has_main (user_cfg c)
             then map_sum id (\<lambda>m. ()) (main_by_auth (ctl_crypto T) (user_cfg c) (Some intermediate_password))
             else Inr ()) in
          case checked of
            Inl err \<Rightarrow> (Inl Exit, [], w)
          | Inr u \<Rightarrow>
              (let (r, cfg) =
                 (case arg_password args of
                    None \<Rightarrow> (Inr (), user_cfg c)
                  | Some m \<Rightarrow>
                      set_main (ctl_crypto T) (ctl_main_draws T) (ctl_fresh_salt T) (user_cfg c) m
                        intermediate_password) in
               case r of
                 Inl err \<Rightarrow> (Inl Abort, [], w)
               | Inr u \<Rightarrow>
                   (case add_method a of
                      AddPassword m \<Rightarrow>
                        add_password T w (add_name a) intermediate_password m answers
                          (c\<lparr>user_cfg := cfg\<rparr>)))))"

section \<open>The run\<close>

definition run_command :: "ctl_env \<Rightarrow> world \<Rightarrow> Args \<Rightarrow> StorageSource \<Rightarrow> ctl \<Rightarrow> ctl_result" where
  "run_command T w args source c =
    (case arg_command args of
       Mount m \<Rightarrow> (case mount_action m of AuthorizeAction a \<Rightarrow> mount_authorize T w args source c)
     | Info i \<Rightarrow> print_info w c
     | ChangeSecondaryMount d \<Rightarrow> change_secondary_mount w d c
     | ChangeMainMount d \<Rightarrow> change_main_mount w d c
     | SetSession d \<Rightarrow> set_session T w source d c
     | Setup s \<Rightarrow> setup_user T w args s c
     | Reset r \<Rightarrow> reset_user T w source c
     | Inspect i \<Rightarrow> inspect_user T w source c
     | Add a \<Rightarrow> add_auth T w args a c)"

text \<open>The writing at the end; a failure panics.\<close>

definition write_back :: "ctl_env \<Rightarrow> world \<Rightarrow> StorageSource \<Rightarrow> ctl \<Rightarrow> (stop + unit) \<times> world" where
  "write_back T w source c =
    (if write_file c \<noteq> Some True then (Inr (), w)
     else
       (case store_user_auth_data (ctl_storage T) (ctl_sys T) w (user_cfg c) source None None of
          (Inl err, w1) \<Rightarrow> (Inl Abort, w1)
        | (Inr u, w1) \<Rightarrow>
            (case store_user_mountpoints (ctl_storage T) (ctl_sys T) w1 (ctl_store_order T) (user_mounts c)
                 source None None of
               (Inl err, w2) \<Rightarrow> (Inl Abort, w2)
             | (Inr u, w2) \<Rightarrow> (Inr (), w2))))"

definition polyauthctl :: "ctl_env \<Rightarrow> world \<Rightarrow> Args \<Rightarrow> (stop + unit) \<times> line list \<times> world" where
  "polyauthctl T w args =
    (case ctl_source T args of
       Inl e \<Rightarrow> (Inl e, [], w)
     | Inr source \<Rightarrow>
         (case ctl_load_auth T w args source of
            Inl e \<Rightarrow> (Inl e, [], w)
          | Inr existing \<Rightarrow>
              (case load_user_mountpoints (ctl_storage T) (ctl_sys T) w source of
                 Inl err \<Rightarrow> (Inl Exit, [], w)
               | Inr existing_mounts \<Rightarrow>
                   (case run_command T w args source
                        \<lparr>user_cfg = existing, user_mounts = existing_mounts,
                         write_file = arg_update_as_needed args\<rparr> of
                      (Inl e, out, w1) \<Rightarrow> (Inl e, out, w1)
                    | (Inr c, out, w1) \<Rightarrow>
                        (case write_back T w1 source c of (r, w2) \<Rightarrow> (r, out, w2))))))"

section \<open>Writing back\<close>

text \<open>
  What the file needs for the data to be written back: it can be read, and the crates can print what
  will be written. \<open>written\<close> is the configuration at the end.
\<close>

definition written :: "ctl_env \<Rightarrow> UserConfig option \<Rightarrow> AuthDataSerialized \<Rightarrow> MountPoints option \<Rightarrow> UserConfig" where
  "written T c ser mps = (config_or_new c)\<lparr>auth_data := Some ser,
     mountpoints := map_option (serialize_mountpoints (ctl_store_order T)) mps\<rparr>"

definition writable ::
  "ctl_env \<Rightarrow> world \<Rightarrow> StorageSource \<Rightarrow> UserConfig option \<Rightarrow> UserAuthData \<Rightarrow> MountPoints option \<Rightarrow> bool" where
  "writable T w source c data mps \<longleftrightarrow>
     reliable (ctl_sys T) \<and> codecs_correct (ctl_storage T)
   \<and> config_file_holds (ctl_storage T) w source c \<and> dir_available w source
   \<and> (\<exists>ser. serialize_auth_data (ctl_storage T) data = Inr ser
        \<and> config_json_correct (ctl_storage T) ((config_or_new c)\<lparr>auth_data := Some ser\<rparr>)
        \<and> config_json_correct (ctl_storage T) (written T c ser mps))
   \<and> (\<forall>mp. mps = Some mp \<longrightarrow> enumerates (ctl_store_order T) (mounts mp))"

text \<open>What a later load finds after the writing.\<close>

definition holds_data ::
  "ctl_env \<Rightarrow> world \<Rightarrow> StorageSource \<Rightarrow> UserAuthData \<Rightarrow> MountPoints option \<Rightarrow> world \<Rightarrow> bool" where
  "holds_data T w source data mps w' \<longleftrightarrow>
     load_user_auth_data (ctl_storage T) (ctl_sys T) w' source = Inr (if has_main data then Some data else None)
   \<and> load_user_mountpoints (ctl_storage T) (ctl_sys T) w' source = Inr mps
   \<and> load_user_session_command (ctl_storage T) (ctl_sys T) w' source
       = load_user_session_command (ctl_storage T) (ctl_sys T) w source
   \<and> (\<forall>q. q \<noteq> config_path_from_source source \<longrightarrow> files w' q = files w q) \<and> keeps_files w w'"

lemma store_both:
  assumes "writable T w source c data mps"
  obtains w1 w2 where
    "store_user_auth_data (ctl_storage T) (ctl_sys T) w data source uid gid = (Inr (), w1)"
    "load_user_mountpoints (ctl_storage T) (ctl_sys T) w1 source
       = load_user_mountpoints (ctl_storage T) (ctl_sys T) w source"
    "store_user_mountpoints (ctl_storage T) (ctl_sys T) w1 (ctl_store_order T) mps source None None
       = (Inr (), w2)"
    "holds_data T w source data mps w2"
proof -
  let ?K = "ctl_storage T" and ?S = "ctl_sys T"
  obtain ser where rel: "reliable ?S" "codecs_correct ?K" "config_file_holds ?K w source c"
      "dir_available w source" "serialize_auth_data ?K data = Inr ser"
      "config_json_correct ?K ((config_or_new c)\<lparr>auth_data := Some ser\<rparr>)"
      "config_json_correct ?K (written T c ser mps)"
      "\<forall>mp. mps = Some mp \<longrightarrow> enumerates (ctl_store_order T) (mounts mp)"
    using assms unfolding writable_def by blast
  let ?c1 = "(config_or_new c)\<lparr>auth_data := Some ser\<rparr>"
  obtain w1 where w1: "store_user_auth_data ?K ?S w data source uid gid = (Inr (), w1)"
    "stored ?K w source ?c1 w1"
    using store_auth_stored [OF rel(1,3-6)] .
  have json: "config_json_correct ?K ((config_or_new (Some ?c1))\<lparr>mountpoints :=
      map_option (serialize_mountpoints (ctl_store_order T)) mps\<rparr>)"
    using rel(7) by (simp add: written_def)
  have w1_file: "config_file_holds ?K w1 source (Some ?c1)" "dir_available w1 source"
    using w1(2) by (simp_all add: stored_def)
  obtain w2 where w2: "store_user_mountpoints ?K ?S w1 (ctl_store_order T) mps source None None = (Inr (), w2)"
    "stored ?K w1 source (written T c ser mps) w2"
    using store_mounts_stored [OF rel(1) w1_file json] by (auto simp: written_def)
  have "load_config_from_source ?K ?S w source = Inr c"
    by (rule load_config_reliable [OF rel(1,3)])
  then have "load_user_mountpoints ?K ?S w1 source = load_user_mountpoints ?K ?S w source"
    using stored_loads [OF rel(1) w1(2)] by (simp add: load_eqs)
  moreover have "holds_data T w source data mps w2"
    using stored_loads [OF rel(1) w2(2)] w1(2) w2(2) rel(8) stored_keeps_files [OF w1(2) w2(2)]
      auth_data_of_serialized [OF rel(2,5)] load_eqs(3) [OF \<open>load_config_from_source ?K ?S w source = Inr c\<close>]
    by (simp add: holds_data_def written_def stored_def mounts_of_enumerated)
  ultimately show ?thesis using that w1(1) w2(1) by blast
qed

lemma write_back_stores:
  assumes "writable T w source cfg (user_cfg c) (user_mounts c)" and "write_file c = Some True"
  shows "\<exists>w'. write_back T w source c = (Inr (), w')
    \<and> holds_data T w source (user_cfg c) (user_mounts c) w'"
  by (rule store_both [OF assms(1), of None None]) (simp add: write_back_def assms(2))

text \<open>A run of which the loading succeeds.\<close>

lemma polyauthctl_loaded:
  assumes "ctl_source T args = Inr source" and "ctl_load_auth T w args source = Inr data"
    and "load_user_mountpoints (ctl_storage T) (ctl_sys T) w source = Inr mps"
    and "run_command T w args source
      \<lparr>user_cfg = data, user_mounts = mps, write_file = arg_update_as_needed args\<rparr> = (Inr c, out, w1)"
    and "write_back T w1 source c = (r, w2)"
  shows "polyauthctl T w args = (r, out, w2)"
  using assms by (simp add: polyauthctl_def)

lemma polyauthctl_stopped:
  assumes "ctl_source T args = Inr source" and "ctl_load_auth T w args source = Inr data"
    and "load_user_mountpoints (ctl_storage T) (ctl_sys T) w source = Inr mps"
    and "run_command T w args source
      \<lparr>user_cfg = data, user_mounts = mps, write_file = arg_update_as_needed args\<rparr> = (Inl e, out, w1)"
  shows "polyauthctl T w args = (Inl e, out, w1)"
  using assms by (simp add: polyauthctl_def)

section \<open>Mounts\<close>

text \<open>Data that cannot be loaded counts as none, but for the command setup.\<close>

definition decoded :: "StorageError + UserAuthData option \<Rightarrow> UserAuthData option" where
  "decoded r = (case r of Inr x \<Rightarrow> x | Inl e \<Rightarrow> None)"

lemma ctl_load_auth_decoded:
  assumes "ctl_load_auth T w args source = Inr data"
  shows "(if has_main data then Some data else None)
    = decoded (load_user_auth_data (ctl_storage T) (ctl_sys T) w source)"
proof (cases "load_user_auth_data (ctl_storage T) (ctl_sys T) w source")
  case (Inl e)
  with assms show ?thesis
    by (auto simp: ctl_load_auth_def decoded_def UserAuthData_new_def has_main_def split: if_splits)
next
  case (Inr r)
  with assms loaded_has_main [of "ctl_storage T" "ctl_sys T" w source] show ?thesis
    by (cases r) (auto simp: ctl_load_auth_def decoded_def UserAuthData_new_def has_main_def)
qed

text \<open>
  C35: what set-home-mount does to a user's file. The home mount is replaced, the other mounts and the
  session command stay; but the authentication data is written too, and data that could not be
  decoded was read as empty: it is gone afterwards.
\<close>

theorem set_home_mount_effect:
  assumes "ctl_source T args = Inr source" and "arg_command args = ChangeMainMount d"
    and "load_user_mountpoints (ctl_storage T) (ctl_sys T) w source = Inr mps"
    and "ctl_load_auth T w args source = Inr data"
    and "new = with_mount (case mps of Some mp \<Rightarrow> mp | None \<Rightarrow> MountPoints_default)
      (MountParams_new (home_device d) (home_fstype d) (home_flags d))"
    and "writable T w source c data (Some new)"
  shows "\<exists>w'. polyauthctl T w args = (Inr (), [], w')
    \<and> load_user_mountpoints (ctl_storage T) (ctl_sys T) w' source = Inr (Some new)
    \<and> load_user_session_command (ctl_storage T) (ctl_sys T) w' source
        = load_user_session_command (ctl_storage T) (ctl_sys T) w source
    \<and> load_user_auth_data (ctl_storage T) (ctl_sys T) w' source
        = Inr (decoded (load_user_auth_data (ctl_storage T) (ctl_sys T) w source))
    \<and> (\<forall>q. q \<noteq> config_path_from_source source \<longrightarrow> files w' q = files w q)"
proof -
  let ?c = "\<lparr>user_cfg = data, user_mounts = Some new, write_file = Some True\<rparr>"
  have run: "run_command T w args source
      \<lparr>user_cfg = data, user_mounts = mps, write_file = arg_update_as_needed args\<rparr> = (Inr ?c, [], w)"
    using assms(2,5) by (simp add: run_command_def change_main_mount_def Let_def)
  obtain w' where w': "write_back T w source ?c = (Inr (), w')" "holds_data T w source data (Some new) w'"
    using write_back_stores [of T w source c ?c] assms(6) by auto
  from w' polyauthctl_loaded [OF assms(1,4,3) run w'(1)] show ?thesis
    by (simp add: holds_data_def ctl_load_auth_decoded [OF assms(4)])
qed

section \<open>Setup\<close>

lemma ask_authorize_touches:
  assumes "ask_authorize T u hash w = (r, w')"
  shows "touches (file_path (ctl_service T)) w w'"
  using assms
  by (auto simp: ask_authorize_def call_authorize_def split: sum.splits
      dest!: bus_call_frame authorize_touches)

lemma setup_authorize_touches:
  "setup_authorize T args u mps w = (out, w') \<Longrightarrow> touches (file_path (ctl_service T)) w w'"
  by (auto simp: setup_authorize_def split: if_splits option.splits prod.splits sum.splits
      dest: ask_authorize_touches)

text \<open>
  What a setup from the command line needs: a runner without a main password, an existing user, two
  passwords, working cryptography and a file of the user that can be written.
\<close>

definition setup_ready ::
  "ctl_env \<Rightarrow> Args \<Rightarrow> world \<Rightarrow> string \<Rightarrow> string \<Rightarrow> string \<Rightarrow> UserAuthData \<Rightarrow> MountPoints option \<Rightarrow> bool" where
  "setup_ready T args w u m ik data mps \<longleftrightarrow>
     arg_command args = Setup \<lparr>setup_intermediate = Some ik\<rparr> \<and> arg_username args = Some u
   \<and> arg_password args = Some m \<and> arg_config_file args = None \<and> ctl_user T u \<noteq> None
   \<and> (\<exists>runner runner_mps. ctl_current T = Some runner
      \<and> load_user_auth_data (ctl_storage T) (ctl_sys T) w (Username (lossy runner)) = Inr None
      \<and> load_user_mountpoints (ctl_storage T) (ctl_sys T) w (Username (lossy runner)) = Inr runner_mps)
   \<and> lawful_crypto (ctl_crypto T) \<and> main_draws_ok (ctl_main_draws T) \<and> length (ctl_fresh_salt T) = 32
   \<and> password_ok m \<and> password_ok ik
   \<and> set_main (ctl_crypto T) (ctl_main_draws T) (ctl_fresh_salt T) UserAuthData_new m ik = (Inr (), data)
   \<and> load_user_mountpoints (ctl_storage T) (ctl_sys T) w (Username u) = Inr mps
   \<and> (\<exists>c. writable T w (Username u) c data mps)
   \<and> file_path (ctl_service T) \<noteq> config_path_from_source (Username u)"

lemma holds_after_authorize:
  assumes "holds_data T w (Username u) data mps w2" and "setup_authorize T args u mps w2 = (out, w')"
    and "file_path (ctl_service T) \<noteq> config_path_from_source (Username u)"
    and "represents C data (Some a)"
  shows "load_user_auth_data (ctl_storage T) (ctl_sys T) w' (Username u) = Inr (Some data)"
    "load_user_mountpoints (ctl_storage T) (ctl_sys T) w' (Username u) = Inr mps"
    "load_user_session_command (ctl_storage T) (ctl_sys T) w' (Username u)
        = load_user_session_command (ctl_storage T) (ctl_sys T) w (Username u)"
proof -
  have "has_main data" using assms(4) by (auto simp: represents_def has_main_def)
  with assms(1) loads_untouched [OF setup_authorize_touches [OF assms(2)] assms(3)]
  show "load_user_auth_data (ctl_storage T) (ctl_sys T) w' (Username u) = Inr (Some data)"
    "load_user_mountpoints (ctl_storage T) (ctl_sys T) w' (Username u) = Inr mps"
    "load_user_session_command (ctl_storage T) (ctl_sys T) w' (Username u)
        = load_user_session_command (ctl_storage T) (ctl_sys T) w (Username u)"
    by (simp_all add: holds_data_def)
qed

lemma setup_runs:
  assumes "setup_ready T args w u m ik data mps"
  obtains out w' where "polyauthctl T w args = (Inr (), out, w')"
    "load_user_auth_data (ctl_storage T) (ctl_sys T) w' (Username u) = Inr (Some data)"
    "represents (ctl_crypto T) data (Some \<lparr>acc_main = m, acc_key = ik, acc_secondary = []\<rparr>)"
    "load_user_mountpoints (ctl_storage T) (ctl_sys T) w' (Username u) = Inr mps"
    "load_user_session_command (ctl_storage T) (ctl_sys T) w' (Username u)
        = load_user_session_command (ctl_storage T) (ctl_sys T) w (Username u)"
    "\<exists>out w2. holds_data T w (Username u) data mps w2 \<and> setup_authorize T args u mps w2 = (out, w')"
proof -
  obtain info runner runner_mps c where args: "arg_command args = Setup \<lparr>setup_intermediate = Some ik\<rparr>"
      "arg_username args = Some u" "arg_password args = Some m" "arg_config_file args = None"
      "ctl_user T u = Some info" "ctl_current T = Some runner"
    and runner: "load_user_auth_data (ctl_storage T) (ctl_sys T) w (Username (lossy runner)) = Inr None"
      "load_user_mountpoints (ctl_storage T) (ctl_sys T) w (Username (lossy runner)) = Inr runner_mps"
    and crypto: "lawful_crypto (ctl_crypto T)" "main_draws_ok (ctl_main_draws T)"
      "length (ctl_fresh_salt T) = 32" "password_ok m" "password_ok ik"
      "set_main (ctl_crypto T) (ctl_main_draws T) (ctl_fresh_salt T) UserAuthData_new m ik = (Inr (), data)"
    and load: "load_user_mountpoints (ctl_storage T) (ctl_sys T) w (Username u) = Inr mps"
    and writable: "writable T w (Username u) c data mps"
    and apart: "file_path (ctl_service T) \<noteq> config_path_from_source (Username u)"
    using assms unfolding setup_ready_def by blast
  let ?start = "\<lparr>user_cfg = UserAuthData_new, user_mounts = runner_mps,
    write_file = arg_update_as_needed args\<rparr>"
  let ?new = "?start\<lparr>user_cfg := data\<rparr>"
  obtain w1 w2 where stores:
    "store_user_auth_data (ctl_storage T) (ctl_sys T) w data (Username u) (Some (user_uid info))
       (Some (user_gid info)) = (Inr (), w1)"
    "load_user_mountpoints (ctl_storage T) (ctl_sys T) w1 (Username u) = Inr mps"
    "store_user_mountpoints (ctl_storage T) (ctl_sys T) w1 (ctl_store_order T) mps (Username u) None None
       = (Inr (), w2)"
    "holds_data T w (Username u) data mps w2"
    using store_both [OF writable] load by metis
  obtain out w3 where w3: "setup_authorize T args u mps w2 = (out, w3)" by fastforce
  have account: "represents (ctl_crypto T) data (Some \<lparr>acc_main = m, acc_key = ik, acc_secondary = []\<rparr>)"
    using set_main_refines [OF crypto(1) represents_new crypto(2-6)] by (simp add: account_set_main_def)
  have "\<not> has_main UserAuthData_new" by (simp add: has_main_def UserAuthData_new_def)
  then have "run_command T w args (Username (lossy runner)) ?start
      = (Inr (?new\<lparr>write_file := Some False\<rparr>), out @ [Value_line ''Setup completed successfully for user'' u], w3)"
    using args(1-5) crypto(6) stores w3 by (simp add: run_command_def setup_user_def setup_store_def Let_def)
  moreover have "ctl_source T args = Inr (Username (lossy runner))"
    using args(4,6) by (simp add: ctl_source_def)
  moreover have "ctl_load_auth T w args (Username (lossy runner)) = Inr UserAuthData_new"
    using runner(1) by (simp add: ctl_load_auth_def)
  ultimately have "polyauthctl T w args
      = (Inr (), out @ [Value_line ''Setup completed successfully for user'' u], w3)"
    using polyauthctl_loaded [OF _ _ runner(2), of args UserAuthData_new] by (simp add: write_back_def)
  moreover note holds_after_authorize [OF stores(4) w3 apart account]
  moreover have "\<exists>out w2. holds_data T w (Username u) data mps w2 \<and> setup_authorize T args u mps w2 = (out, w3)"
    using stores(4) w3 by blast
  ultimately show ?thesis using that account by blast
qed

text \<open>
  C30: setup makes an account, whatever was there. When the user who runs the tool has no main
  password, setup for an existing user with a main password and an intermediate key writes data that
  represents exactly the account of these two, without any secondary password, and keeps the user's
  mounts and session command. The file of that user is not looked at before: data it already held is
  replaced, although the tool means to refuse that.
\<close>

theorem setup_makes_account:
  assumes "setup_ready T args w u m ik data mps"
  shows "\<exists>out w'. polyauthctl T w args = (Inr (), out, w')
    \<and> load_user_auth_data (ctl_storage T) (ctl_sys T) w' (Username u) = Inr (Some data)
    \<and> represents (ctl_crypto T) data (Some \<lparr>acc_main = m, acc_key = ik, acc_secondary = []\<rparr>)
    \<and> load_user_mountpoints (ctl_storage T) (ctl_sys T) w' (Username u) = Inr mps
    \<and> load_user_session_command (ctl_storage T) (ctl_sys T) w' (Username u)
        = load_user_session_command (ctl_storage T) (ctl_sys T) w (Username u)"
  by (rule setup_runs [OF assms]) blast

section \<open>Adding a method\<close>

text \<open>
  C31: what the tool adds opens the account. For stored data that represents an account, adding a
  secondary password with the intermediate key writes data that represents the account with that
  password in its table; every login with the data that is loaded afterwards answers accordingly, and
  the mounts and the session command stay.
\<close>

theorem add_password_extends_account:
  assumes "ctl_source T args = Inr source" and "arg_password args = None"
    and "arg_command args = Add \<lparr>add_name = n, add_intermediate = Some ik,
      add_method = AddPassword \<lparr>secondary_pw = Some pw\<rparr>\<rparr>"
    and "load_user_auth_data (ctl_storage T) (ctl_sys T) w source = Inr (Some data)"
    and "load_user_mountpoints (ctl_storage T) (ctl_sys T) w source = Inr mps"
    and "lawful_crypto (ctl_crypto T)" and "represents (ctl_crypto T) data (Some a)"
    and "secondary_draws_ok (ctl_secondary_draws T)" and "password_ok ik" and "password_ok pw"
    and "add_secondary_password (ctl_crypto T) (ctl_secondary_draws T) (now_since_epoch (ctl_storage T))
      data n ik pw = (Inr (), data')"
    and "writable T w source c data' mps"
  shows "\<exists>w'. polyauthctl T w args = (Inr (), [Text_line ''Secondary password added.''], w')
    \<and> load_user_auth_data (ctl_storage T) (ctl_sys T) w' source = Inr (Some data')
    \<and> (\<forall>q. password_ok q \<longrightarrow>
        main_by_auth (ctl_crypto T) data' (Some q) = account_login (account_add ik pw (Some a)) q)
    \<and> load_user_mountpoints (ctl_storage T) (ctl_sys T) w' source = Inr mps
    \<and> load_user_session_command (ctl_storage T) (ctl_sys T) w' source
        = load_user_session_command (ctl_storage T) (ctl_sys T) w source"
proof -
  let ?fin = "\<lparr>user_cfg = data', user_mounts = mps, write_file = Some True\<rparr>"
  have rep: "represents (ctl_crypto T) data' (account_add ik pw (Some a))"
    and ik: "account_accepts a ik"
    using add_secondary_password_refines [OF assms(6-11)] by simp_all
  have main: "has_main data" "has_main data'"
    using loaded_has_main [OF assms(4)] rep by (auto simp: represents_def has_main_def account_add_def)
  have "main_by_auth (ctl_crypto T) data (Some ik) = Inr (acc_main a)"
    using main_by_auth_exact [OF assms(6,7,9)] ik by (simp add: account_login_def)
  then have run: "run_command T w args source
      \<lparr>user_cfg = data, user_mounts = mps, write_file = arg_update_as_needed args\<rparr>
      = (Inr ?fin, [Text_line ''Secondary password added.''], w)"
    using assms(2,3,11) main(1) by (simp add: run_command_def add_auth_def add_key_def add_password_def Let_def)
  obtain w' where w': "write_back T w source ?fin = (Inr (), w')" "holds_data T w source data' mps w'"
    using write_back_stores [of T w source c ?fin] assms(12) by auto
  have "ctl_load_auth T w args source = Inr data"
    using assms(4) by (simp add: ctl_load_auth_def)
  from polyauthctl_loaded [OF assms(1) this assms(5) run w'(1)] w'(2) main(2)
    main_by_auth_exact [OF assms(6) rep]
  show ?thesis by (simp add: holds_data_def)
qed

text \<open>
  C39: changing the main password while adding can panic. When a new main password is given on the
  command line and the secret given as the intermediate key unlocks the account but is not its
  intermediate key (it is the main password, or a secondary one), the check of the tool passes and the
  change then fails on an unwrapped error: the run panics, and nothing has been written.
\<close>

theorem add_with_other_secret_panics:
  assumes "ctl_source T args = Inr source" and "arg_password args = Some m"
    and "arg_command args = Add \<lparr>add_name = n, add_intermediate = Some ik, add_method = meth\<rparr>"
    and "load_user_auth_data (ctl_storage T) (ctl_sys T) w source = Inr (Some data)"
    and "load_user_mountpoints (ctl_storage T) (ctl_sys T) w source = Inr mps"
    and "lawful_crypto (ctl_crypto T)" and "crypto_total (ctl_crypto T)"
    and "represents (ctl_crypto T) data (Some a)" and "main_draws_ok (ctl_main_draws T)"
    and "length (ctl_fresh_salt T) = 32" and "password_ok m" and "password_ok ik"
    and "account_login (Some a) ik = Inr (acc_main a)" and "ik \<noteq> acc_key a"
  shows "polyauthctl T w args = (Inl Abort, [], w)"
proof -
  have "fst (set_main (ctl_crypto T) (ctl_main_draws T) (ctl_fresh_salt T) data m ik)
      = Inl (User WrongIntermediateKey)"
    using set_main_result [OF assms(6-8), of "ctl_main_draws T" "ctl_fresh_salt T" m ik] assms(9-12,14)
    by simp
  moreover have "main_by_auth (ctl_crypto T) data (Some ik) = Inr (acc_main a)"
    using main_by_auth_exact [OF assms(6,8,12)] assms(13) by simp
  ultimately have "run_command T w args source
      \<lparr>user_cfg = data, user_mounts = mps, write_file = arg_update_as_needed args\<rparr> = (Inl Abort, [], w)"
    using assms(2,3) loaded_has_main [OF assms(4)]
    by (auto simp: run_command_def add_auth_def add_key_def Let_def split: prod.split)
  then show ?thesis
    using polyauthctl_stopped [OF assms(1) _ assms(5)] assms(4) by (simp add: ctl_load_auth_def)
qed

section \<open>Authorizing\<close>

text \<open>A request that is answered, and what it approves.\<close>

lemma ask_authorize_works:
  assumes "bus_works (ctl_bus T)" and "auth_json_correct (ctl_service_json T) MountAuth_default"
    and "auth_json_correct (ctl_service_json T) (add_authorization a u h)"
    and "reliable (ctl_service_sys T)" and "auth_file_holds (ctl_service_json T) w (ctl_service T) a"
  obtains w' where "ask_authorize T u h w = (Inr (result_into_u32 Ok), w')"
    "auth_file_holds (ctl_service_json T) w' (ctl_service T) (add_authorization a u h)"
proof -
  obtain w' where "authorize (ctl_service_json T) (ctl_service_sys T) w (ctl_service T) u h
      = (Ret (result_into_u32 Ok), w')"
    "auth_file_holds (ctl_service_json T) w' (ctl_service T) (add_authorization a u h)"
    using authorize_reliable [OF assms(2-5)] by blast
  with assms(1) bus_works_call [OF assms(1), of "call_authorize T u h"] that show ?thesis
    by (simp add: ask_authorize_def call_authorize_def)
qed

lemma authorized_approved:
  assumes "auth_json_correct (env_auth_json E) MountAuth_default" and "reliable (env_sys E)"
    and "auth_file_holds (env_auth_json E) w ops (add_authorization a u (mount_hash (env_digest E) mp ks))"
    and "load_user_mountpoints (env_storage E) (env_sys E) w (Username u) = Inr (Some mp)"
  shows "approved E w ops u ks (Some mp)"
  using read_auth_file_reliable [OF assms(1-3)] assms(4) by (auto simp: approved_def)

text \<open>
  C32: what the tool authorizes is what opening a session asks for. Over a working bus, from a table
  of authorizations that the file holds, the command succeeds for a user with configured mounts and
  adds exactly the hash of these mounts for that user; a session of the user whose mounts are hashed
  with the same digest in the same order is then approved.
\<close>

theorem authorize_approves:
  assumes "ctl_source T args = Inr source" and "arg_username args = Some u"
    and "arg_command args = Mount \<lparr>mount_action = AuthorizeAction act\<rparr>"
    and "arg_update_as_needed args = None" and "ctl_load_auth T w args source = Inr data"
    and "load_user_mountpoints (ctl_storage T) (ctl_sys T) w source = Inr mps"
    and "load_user_mountpoints (ctl_storage T) (ctl_sys T) w (Username u) = Inr (Some mp)"
    and "bus_works (ctl_bus T)" and "auth_json_correct (ctl_service_json T) MountAuth_default"
    and "auth_json_correct (ctl_service_json T) (add_authorization a u (ctl_hash T mp))"
    and "reliable (ctl_service_sys T)" and "auth_file_holds (ctl_service_json T) w (ctl_service T) a"
    and "file_path (ctl_service T) \<noteq> config_path_from_source (Username u)"
    and "env_auth_json E = ctl_service_json T" and "env_sys E = ctl_service_sys T"
    and "env_digest E = ctl_digest T" and "env_storage E = ctl_storage T" and "ctl_sys T = env_sys E"
  shows "\<exists>w'. polyauthctl T w args = (Inr (), [Value_line ''Mount authorized for user'' u], w')
    \<and> auth_file_holds (ctl_service_json T) w' (ctl_service T) (add_authorization a u (ctl_hash T mp))
    \<and> approved E w' (ctl_service T) u (ctl_hash_order T) (Some mp)"
proof -
  obtain w' where w': "ask_authorize T u (ctl_hash T mp) w = (Inr (result_into_u32 Ok), w')"
    "auth_file_holds (ctl_service_json T) w' (ctl_service T) (add_authorization a u (ctl_hash T mp))"
    by (rule ask_authorize_works [OF assms(8-12)])
  then have run: "run_command T w args source
      \<lparr>user_cfg = data, user_mounts = mps, write_file = arg_update_as_needed args\<rparr>
      = (Inr \<lparr>user_cfg = data, user_mounts = mps, write_file = None\<rparr>,
         [Value_line ''Mount authorized for user'' u], w')"
    using assms(2-4,7) by (simp add: run_command_def mount_authorize_def Let_def result_from_u32_def)
  have "polyauthctl T w args = (Inr (), [Value_line ''Mount authorized for user'' u], w')"
    by (rule polyauthctl_loaded [OF assms(1,5,6) run]) (simp add: write_back_def)
  moreover have "load_user_mountpoints (ctl_storage T) (ctl_sys T) w' (Username u) = Inr (Some mp)"
    using loads_untouched(2) [OF ask_authorize_touches [OF w'(1)] assms(13)] assms(7) by simp
  then have "approved E w' (ctl_service T) u (ctl_hash_order T) (Some mp)"
    using authorized_approved [of E w' "ctl_service T" a u mp "ctl_hash_order T"] w'(2) assms(9,11,14-18)
    by (simp add: ctl_hash_def)
  ultimately show ?thesis using w'(2) by blast
qed

section \<open>Runs that write nothing\<close>

text \<open>The commands that only look: nothing is written unless the update is forced.\<close>

definition only_looks :: "Args \<Rightarrow> bool" where
  "only_looks args \<longleftrightarrow> arg_update_as_needed args \<noteq> Some True
     \<and> (case arg_command args of Info i \<Rightarrow> True | Inspect i \<Rightarrow> True | _ \<Rightarrow> False)"

text \<open>The commands that change the loaded data and leave the writing to the end.\<close>

definition changes_data :: "Command \<Rightarrow> bool" where
  "changes_data co = (case co of Add a \<Rightarrow> True | ChangeMainMount d \<Rightarrow> True
     | ChangeSecondaryMount d \<Rightarrow> True | Info i \<Rightarrow> True | Inspect i \<Rightarrow> True | _ \<Rightarrow> False)"

lemma changes_data_run:
  assumes "changes_data (arg_command args)" and "run_command T w args source c = (r, out, w')"
  shows "w' = w"
  using assms
  by (auto simp: changes_data_def run_command_def add_auth_def add_password_def change_main_mount_def
      change_secondary_mount_def print_info_def inspect_user_def Let_def
      split: Command.splits sum.splits prod.splits option.splits if_splits AddAuthMethod.splits)

lemma map_sum_const_Inr: "map_sum id (\<lambda>u. c) r = Inr c' \<Longrightarrow> c' = c"
  by (cases r) simp_all

lemma looks_run:
  assumes "only_looks args" and "run_command T w args source c = (Inr c', out, w')"
  shows "c' = c"
  using assms
  by (auto simp: only_looks_def run_command_def print_info_def inspect_user_def Let_def
      dest!: map_sum_const_Inr split: Command.splits sum.splits prod.splits option.splits)

lemma only_looks_changes: "only_looks args \<Longrightarrow> changes_data (arg_command args)"
  by (auto simp: only_looks_def changes_data_def split: Command.splits)

lemma write_back_exit: "write_back T w source c = (r, w') \<Longrightarrow> r \<noteq> Inl Exit"
  by (auto simp: write_back_def split: if_splits sum.splits prod.splits)

text \<open>How a run can go: it ends before the command, in the command, or with the writing.\<close>

lemma polyauthctl_cases:
  assumes "polyauthctl T w args = (r, out, w')"
  obtains (early) "w' = w" "out = []"
  | (stopped) source data mps e where "ctl_source T args = Inr source" "run_command T w args source
      \<lparr>user_cfg = data, user_mounts = mps, write_file = arg_update_as_needed args\<rparr> = (Inl e, out, w')"
      "r = Inl e"
  | (ran) source data mps c w1 where "ctl_source T args = Inr source" "run_command T w args source
      \<lparr>user_cfg = data, user_mounts = mps, write_file = arg_update_as_needed args\<rparr> = (Inr c, out, w1)"
      "write_back T w1 source c = (r, w')"
  using assms by (auto simp: polyauthctl_def split: sum.splits prod.splits)

text \<open>
  C33: a refused command leaves no trace. When adding a method, changing a mount, looking at the data
  or printing information ends with the error exit, or when a command that only looks ends in any
  way, the world is as it was before.
\<close>

theorem refused_command_writes_nothing:
  assumes "polyauthctl T w args = (r, out, w')"
    and "r = Inl Exit \<and> changes_data (arg_command args) \<or> only_looks args"
  shows "w' = w"
  using assms(1)
proof (cases rule: polyauthctl_cases)
  case (stopped source data mps e)
  with assms(2) show ?thesis using changes_data_run only_looks_changes by blast
next
  case (ran source data mps c w1)
  then have "w1 = w" using assms(2) changes_data_run only_looks_changes by blast
  moreover have "only_looks args" using assms(2) write_back_exit [OF ran(3)] by blast
  then have "c = \<lparr>user_cfg = data, user_mounts = mps, write_file = arg_update_as_needed args\<rparr>"
    using looks_run ran(2) by blast
  ultimately show ?thesis
    using ran(3) \<open>only_looks args\<close> by (simp add: write_back_def only_looks_def)
qed

section \<open>Prompts\<close>

text \<open>Only the setup of a user and the adding of a method look at the answers.\<close>

definition with_answers :: "ctl_env \<Rightarrow> (ext_error + string) list \<Rightarrow> ctl_env" where
  "with_answers T answers = T\<lparr>ctl_answers := answers\<rparr>"

lemma with_answers_env [simp]:
  "ctl_answers (with_answers T as) = as" "ctl_current (with_answers T as) = ctl_current T"
  "ctl_user (with_answers T as) = ctl_user T" "ctl_storage (with_answers T as) = ctl_storage T"
  "ctl_sys (with_answers T as) = ctl_sys T" "ctl_crypto (with_answers T as) = ctl_crypto T"
  "ctl_main_draws (with_answers T as) = ctl_main_draws T"
  "ctl_fresh_salt (with_answers T as) = ctl_fresh_salt T"
  "ctl_secondary_draws (with_answers T as) = ctl_secondary_draws T"
  "ctl_store_order (with_answers T as) = ctl_store_order T"
  "ctl_hash_order (with_answers T as) = ctl_hash_order T"
  "ctl_local_time (with_answers T as) = ctl_local_time T"
  "ctl_bus (with_answers T as) = ctl_bus T" "ctl_bus_address (with_answers T as) = ctl_bus_address T"
  "ctl_digest (with_answers T as) = ctl_digest T" "ctl_service (with_answers T as) = ctl_service T"
  "ctl_service_json (with_answers T as) = ctl_service_json T"
  "ctl_service_sys (with_answers T as) = ctl_service_sys T"
  by (simp_all add: with_answers_def)

lemma with_answers_calls [simp]:
  "ctl_source (with_answers T as) args = ctl_source T args"
  "ctl_load_auth (with_answers T as) w args source = ctl_load_auth T w args source"
  "ctl_hash (with_answers T as) mp = ctl_hash T mp"
  "ask_authorize (with_answers T as) u h w = ask_authorize T u h w"
  "write_back (with_answers T as) w source c = write_back T w source c"
  unfolding ctl_source_def ctl_load_auth_def ctl_hash_def ask_authorize_def call_authorize_def [abs_def]
    write_back_def with_answers_env
  by (rule refl)+

lemma with_answers_commands [simp]:
  "mount_authorize (with_answers T as) w args source c = mount_authorize T w args source c"
  "set_session (with_answers T as) w source d c = set_session T w source d c"
  "reset_user (with_answers T as) w source c = reset_user T w source c"
  "setup_authorize (with_answers T as) args u mps w = setup_authorize T args u mps w"
  "inspect_mounts (with_answers T as) mps = inspect_mounts T mps"
  "add_password (with_answers T as) w n ik m rest c = add_password T w n ik m rest c"
  unfolding mount_authorize_def set_session_def reset_user_def setup_authorize_def inspect_mounts_def
    add_password_def with_answers_calls with_answers_env
  by (rule refl)+

lemma with_answers_setup_store [simp]:
  "setup_store (with_answers T as) w args u info source c = setup_store T w args u info source c"
  unfolding setup_store_def with_answers_commands with_answers_env by (rule refl)

lemma with_answers_methods [simp]: "inspect_methods (with_answers T as) ss = inspect_methods T ss"
  by (induction ss) (simp_all split: option.split prod.split)

lemma with_answers_inspect [simp]:
  "inspect_user (with_answers T as) w source c = inspect_user T w source c"
  unfolding inspect_user_def with_answers_commands with_answers_methods with_answers_env by (rule refl)

lemmas prompt_defs = prompt_twice_def prompt_or_abort_def

lemma four_answers_setup:
  assumes "ctl_answers T = a # b # c # d # X"
  shows "setup_user (with_answers T (a # b # c # d # Y)) w args s st = setup_user T w args s st"
  using assms
  by (cases a; cases b; cases "setup_intermediate s") 
      (simp_all add: setup_user_def prompt_defs Let_def cong: option.case_cong sum.case_cong prod.case_cong)

lemma four_answers_add_key:
  assumes "ctl_answers T = a # b # c # d # X"
  shows "fst (add_key (with_answers T (a # b # c # d # Y)) m st) = fst (add_key T m st)
    \<and> fst (prompt_twice (snd (add_key (with_answers T (a # b # c # d # Y)) m st)))
      = fst (prompt_twice (snd (add_key T m st)))"
  using assms
  by (cases a; cases b; cases c; cases d; cases "add_intermediate m"; cases "has_main (user_cfg st)")
    (simp_all add: add_key_def prompt_defs)

lemma add_password_answers:
  "fst (prompt_twice answers') = fst (prompt_twice answers) \<Longrightarrow>
   add_password T w n ik m answers' c = add_password T w n ik m answers c"
  unfolding add_password_def by (rule arg_cong) simp

lemma four_answers_add:
  assumes "ctl_answers T = a # b # c # d # X"
  shows "add_auth (with_answers T (a # b # c # d # Y)) w args m st = add_auth T w args m st"
proof -
  obtain r answers answers' where key: "add_key T m st = (r, answers)"
    "add_key (with_answers T (a # b # c # d # Y)) m st = (r, answers')"
    and same: "fst (prompt_twice answers') = fst (prompt_twice answers)"
    using four_answers_add_key [OF assms, of Y m st] by (metis prod.collapse)
  show ?thesis
    unfolding add_auth_def key prod.case with_answers_commands with_answers_env
      add_password_answers [OF same]
    by (rule refl)
qed

lemma four_answers_run:
  assumes "ctl_answers T = a # b # c # d # X"
  shows "run_command (with_answers T (a # b # c # d # Y)) w args source st = run_command T w args source st"
  by (simp add: run_command_def four_answers_setup [OF assms] four_answers_add [OF assms]
      split: Command.split MountAction.split)

text \<open>
  C34: a run ends after at most four answers: whatever is typed beyond the fourth prompt is never
  read, and the run is the same without it.
\<close>

theorem four_answers_suffice:
  "polyauthctl (T\<lparr>ctl_answers := take 4 (ctl_answers T)\<rparr>) w args = polyauthctl T w args"
proof -
  have "polyauthctl (with_answers T (take 4 (ctl_answers T))) w args = polyauthctl T w args"
  proof (cases "length (ctl_answers T) \<le> 4")
    case True
    then show ?thesis by (simp add: with_answers_def)
  next
    case False
    then obtain a b c d X where answers: "ctl_answers T = a # b # c # d # X"
      by (auto simp: not_le Suc_le_length_iff numeral_eq_Suc less_eq_Suc_le)
    then have "take 4 (ctl_answers T) = a # b # c # d # []" by simp
    then show ?thesis
      unfolding polyauthctl_def with_answers_calls with_answers_env
      by (simp only: four_answers_run [OF answers, of "[]", abs_def])
  qed
  then show ?thesis by (simp add: with_answers_def)
qed

section \<open>Instances\<close>

definition demo_ctl :: "string \<Rightarrow> storage_crates \<Rightarrow> ctl_env" where
  "demo_ctl runner K =
    \<lparr>ctl_current = Some runner, ctl_answers = [],
     ctl_user = (\<lambda>n. if n = ''u'' then Some demo_user else None), ctl_storage = K, ctl_sys = demo_sys,
     ctl_crypto = toy_crypto, ctl_main_draws = demo_draws, ctl_fresh_salt = replicate 32 0,
     ctl_secondary_draws = toy_draws, ctl_digest = (\<lambda>_. 0), ctl_hash_order = [], ctl_store_order = [],
     ctl_bus = demo_bus, ctl_bus_address = None, ctl_service_json = toy_auth_json,
     ctl_service_sys = demo_sys, ctl_service = toy_ops, ctl_local_time = (\<lambda>i. Some ''then'')\<rparr>"

lemma demo_ctl_simps [simp]:
  "ctl_storage (demo_ctl r K) = K" "ctl_sys (demo_ctl r K) = demo_sys"
  "ctl_crypto (demo_ctl r K) = toy_crypto" "ctl_store_order (demo_ctl r K) = []"
  "ctl_main_draws (demo_ctl r K) = demo_draws" "ctl_fresh_salt (demo_ctl r K) = replicate 32 0"
  "ctl_secondary_draws (demo_ctl r K) = toy_draws" "ctl_user (demo_ctl r K) ''u'' = Some demo_user"
  "ctl_current (demo_ctl r K) = Some r" "ctl_service (demo_ctl r K) = toy_ops"
  by (simp_all add: demo_ctl_def)

definition demo_args :: "string option \<Rightarrow> Command \<Rightarrow> Args" where
  "demo_args pw co = \<lparr>arg_username = Some ''u'', arg_config_file = None, arg_password = pw,
     arg_update_as_needed = None, arg_command = co\<rparr>"

lemma demo_args_simps [simp]:
  "arg_username (demo_args pw co) = Some ''u''" "arg_config_file (demo_args pw co) = None"
  "arg_password (demo_args pw co) = pw" "arg_update_as_needed (demo_args pw co) = None"
  "arg_command (demo_args pw co) = co"
  by (simp_all add: demo_args_def)

lemma lossy_u: "lossy ''u'' = ''u''" "lossy ''root'' = ''root''"
  by (rule lossy_ascii; simp)+

lemma demo_source: "ctl_source (demo_ctl ''u'' K) (demo_args pw co) = Inr (Username ''u'')"
  by (simp add: ctl_source_def lossy_u)

text \<open>The file of the user can be written when the crates know the two configurations.\<close>

lemma demo_writable:
  assumes "cs \<noteq> []" and "serialize_auth_data (index_crates cs mp sp) data = Inr ser"
    and "(hd cs)\<lparr>auth_data := Some ser\<rparr> \<in> set cs"
    and "(hd cs)\<lparr>auth_data := Some ser, mountpoints := map_option (serialize_mountpoints []) mps\<rparr> \<in> set cs"
    and "\<forall>m. mps = Some m \<longrightarrow> mounts m = Map.empty"
  shows "writable (demo_ctl r (index_crates cs mp sp)) user_file_world (Username ''u'') (Some (hd cs)) data mps"
  using assms user_file_holds [OF assms(1)] user_dir_available
  by (auto simp: writable_def written_def index_json_correct enumerates_def)

definition garbled_auth :: UserConfig where
  "garbled_auth = UserConfig_new\<lparr>auth_data := Some \<lparr>ser_main = Some (of_bytes [9]), ser_secondary = []\<rparr>\<rparr>"

definition no_auth :: AuthDataSerialized where
  "no_auth = \<lparr>ser_main = None, ser_secondary = []\<rparr>"

definition home_points :: MountPoints where
  "home_points = with_mount MountPoints_default (MountParams_new ''/dev/sda1'' ''ext4'' [])"

text \<open>Data that cannot be decoded is erased by a change of the home mount.\<close>

theorem set_home_mount_effect_witness:
  "\<exists>K e w'. load_user_auth_data K demo_sys user_file_world (Username ''u'') = Inl e
     \<and> polyauthctl (demo_ctl ''u'' K) user_file_world (demo_args None (ChangeMainMount
         \<lparr>home_device = ''/dev/sda1'', home_fstype = ''ext4'', home_flags = []\<rparr>)) = (Inr (), [], w')
     \<and> load_user_mountpoints K demo_sys w' (Username ''u'') = Inr (Some home_points)
     \<and> load_user_auth_data K demo_sys w' (Username ''u'') = Inr None"
proof -
  let ?cs = "[garbled_auth, garbled_auth\<lparr>auth_data := Some no_auth\<rparr>, garbled_auth\<lparr>auth_data := Some no_auth,
    mountpoints := Some (serialize_mountpoints [] home_points)\<rparr>]"
  let ?K = "index_crates ?cs toy_main toy_secondary"
  let ?d = "\<lparr>home_device = ''/dev/sda1'', home_fstype = ''ext4'', home_flags = []\<rparr>"
  have load: "load_user_auth_data ?K demo_sys user_file_world (Username ''u'')
      = Inl (StorageSerializationError ''bad size'')"
    "load_user_mountpoints ?K demo_sys user_file_world (Username ''u'') = Inr None"
    using user_file_loads [of ?cs toy_main toy_secondary]
    by (simp_all add: garbled_auth_def UserConfig_new_def index_auth_data_of mounts_of_def
        del: of_bytes_Cons)
  have ser: "serialize_auth_data ?K UserAuthData_new = Inr no_auth"
    by (simp add: serialize_auth_data_def UserAuthData_new_def no_auth_def)
  have "writable (demo_ctl ''u'' ?K) user_file_world (Username ''u'') (Some (hd ?cs)) UserAuthData_new
      (Some home_points)"
    by (rule demo_writable [OF _ ser])
      (simp_all add: home_points_def MountPoints_default_def)
  moreover have "ctl_load_auth (demo_ctl ''u'' ?K) user_file_world
      (demo_args None (ChangeMainMount ?d)) (Username ''u'') = Inr UserAuthData_new"
    using load(1) by (simp add: ctl_load_auth_def is_setup_def)
  moreover have "home_points = with_mount (case None of Some mp \<Rightarrow> mp | None \<Rightarrow> MountPoints_default)
      (MountParams_new (home_device ?d) (home_fstype ?d) (home_flags ?d))"
    by (simp add: home_points_def)
  ultimately have "\<exists>w'. polyauthctl (demo_ctl ''u'' ?K) user_file_world (demo_args None (ChangeMainMount ?d))
        = (Inr (), [], w')
      \<and> load_user_mountpoints ?K demo_sys w' (Username ''u'') = Inr (Some home_points)
      \<and> load_user_auth_data ?K demo_sys w' (Username ''u'') = Inr None"
    using set_home_mount_effect [where T = "demo_ctl ''u'' ?K" and args = "demo_args None (ChangeMainMount ?d)"
        and source = "Username ''u''" and d = ?d and w = user_file_world and mps = None
        and data = UserAuthData_new and new = home_points and c = "Some (hd ?cs)"] demo_source load
    by (simp add: decoded_def) blast
  with load(1) show ?thesis by blast
qed

text \<open>A user with a main and a secondary password is set up again and has only the new main password.\<close>

definition old_auth :: AuthDataSerialized where
  "old_auth = \<lparr>ser_main = Some (of_bytes [1]), ser_secondary =
     [\<lparr>item_name = ''pin'', item_creation_date = 5, item_auth_type = 0, item_password = of_bytes [2]\<rparr>]\<rparr>"

lemma old_auth_loads:
  "auth_data_of (index_crates cs mp sp) (Some old_auth)
   = Inr (Some \<lparr>main_password = Some mp,
       auth = [\<lparr>auth_name = ''pin'', creation_date = 5, auth_method = Password sp\<rparr>]\<rparr>)"
  by (simp add: old_auth_def index_auth_data_of del: of_bytes_Cons)
    (simp add: index_crates_def toy_crates_def push_main_def push_secondary_def UserAuthData_new_def
      new_password_def del: of_bytes_Cons)

lemma demo_push_main:
  assumes "password_ok m" and "password_ok ik"
  obtains mp where "set_main toy_crypto demo_draws (replicate 32 0) UserAuthData_new m ik
    = (Inr (), push_main UserAuthData_new mp)"
proof -
  obtain mp where "MainPassword_new toy_crypto demo_draws (as_bytes m) ik (replicate 32 0) = Inr mp"
    by (auto simp: MainPassword_new_def toy_crypto_def Let_def)
  with assms that show ?thesis
    by (simp add: set_main_def UserAuthData_new_def push_main_def password_okD password_to_vec_def)
qed

lemma root_loads:
  "load_user_auth_data K demo_sys user_file_world (Username ''root'') = Inr None"
  "load_user_mountpoints K demo_sys user_file_world (Username ''root'') = Inr None"
  by (simp_all add: load_user_auth_data_def load_user_mountpoints_def load_config_from_source_def
      path_exists_def user_file_world_def demo_world_def config_path_from_source_def
      config_path_for_username_def path_join_def POLYAUTH_CONFIG_DIR_def)

lemma demo_setup_with:
  assumes "\<And>mp. mps = Some mp \<Longrightarrow> mounts mp = Map.empty"
  obtains K data where "setup_ready (demo_ctl ''root'' K)
      (demo_args (Some ''main'') (Setup \<lparr>setup_intermediate = Some ''key''\<rparr>)) user_file_world ''u''
      ''main'' ''key'' data mps"
    "\<exists>before. load_user_auth_data K demo_sys user_file_world (Username ''u'') = Inr (Some before)
      \<and> length (auth before) = 1"
proof -
  obtain mp where mp: "set_main toy_crypto demo_draws (replicate 32 0) UserAuthData_new ''main'' ''key''
      = (Inr (), push_main UserAuthData_new mp)"
    by (rule demo_push_main [OF toy_passwords_ok(1,2)])
  let ?data = "push_main UserAuthData_new mp"
  obtain ser where ser: "\<And>cs. serialize_auth_data (index_crates cs mp toy_secondary) ?data = Inr ser"
    using index_serialize [of ?data mp toy_secondary] by (auto simp: push_main_def UserAuthData_new_def)
  define c0 where "c0 = UserConfig_new\<lparr>auth_data := Some old_auth,
    mountpoints := map_option (serialize_mountpoints []) mps\<rparr>"
  let ?cs = "[c0, c0\<lparr>auth_data := Some ser\<rparr>]"
  let ?K = "index_crates ?cs mp toy_secondary"
  have same: "c0\<lparr>auth_data := Some ser, mountpoints := map_option (serialize_mountpoints []) mps\<rparr>
      = c0\<lparr>auth_data := Some ser\<rparr>"
    by (simp add: c0_def UserConfig_new_def)
  have "mounts_of (map_option (serialize_mountpoints []) mps) = mps"
    by (rule mounts_of_enumerated) (simp add: enumerates_def assms)
  then have load: "load_user_auth_data ?K demo_sys user_file_world (Username ''u'')
      = Inr (Some \<lparr>main_password = Some mp,
          auth = [\<lparr>auth_name = ''pin'', creation_date = 5, auth_method = Password toy_secondary\<rparr>]\<rparr>)"
    "load_user_mountpoints ?K demo_sys user_file_world (Username ''u'') = Inr mps"
    using user_file_loads [of ?cs mp toy_secondary] old_auth_loads [of ?cs mp toy_secondary]
    by (simp_all add: c0_def UserConfig_new_def)
  have "writable (demo_ctl ''root'' ?K) user_file_world (Username ''u'') (Some (hd ?cs)) ?data mps"
    by (rule demo_writable [OF _ ser]) (simp_all add: same assms)
  then have "setup_ready (demo_ctl ''root'' ?K)
      (demo_args (Some ''main'') (Setup \<lparr>setup_intermediate = Some ''key''\<rparr>)) user_file_world ''u''
      ''main'' ''key'' ?data mps"
    using mp load(2) root_loads [of ?K] lossy_u
    by (auto simp: setup_ready_def toy_ops_def user_path)
  moreover have "\<exists>before. load_user_auth_data ?K demo_sys user_file_world (Username ''u'') = Inr (Some before)
      \<and> length (auth before) = 1"
    using load(1) by simp
  ultimately show ?thesis using that by blast
qed

lemma no_mounts: "(None :: MountPoints option) = Some mp \<Longrightarrow> mounts mp = Map.empty"
  by simp

lemmas demo_setup = demo_setup_with [OF no_mounts]

theorem setup_makes_account_witness:
  "\<exists>K before out w' data. load_user_auth_data K demo_sys user_file_world (Username ''u'') = Inr (Some before)
     \<and> length (auth before) = 1
     \<and> polyauthctl (demo_ctl ''root'' K) user_file_world
         (demo_args (Some ''main'') (Setup \<lparr>setup_intermediate = Some ''key''\<rparr>)) = (Inr (), out, w')
     \<and> load_user_auth_data K demo_sys w' (Username ''u'') = Inr (Some data)
     \<and> represents toy_crypto data (Some \<lparr>acc_main = ''main'', acc_key = ''key'', acc_secondary = []\<rparr>)"
proof -
  obtain K data where "setup_ready (demo_ctl ''root'' K)
      (demo_args (Some ''main'') (Setup \<lparr>setup_intermediate = Some ''key''\<rparr>)) user_file_world ''u''
      ''main'' ''key'' data None"
    and before: "\<exists>before. load_user_auth_data K demo_sys user_file_world (Username ''u'') = Inr (Some before)
      \<and> length (auth before) = 1"
    by (rule demo_setup)
  from setup_makes_account [OF this(1)] before show ?thesis unfolding demo_ctl_simps by blast
qed

text \<open>The stored account with the main password \<open>main\<close> and the intermediate key \<open>key\<close>.\<close>

definition stored_main :: "MainPassword \<Rightarrow> AuthDataSerialized \<Rightarrow> bool" where
  "stored_main mp ser \<longleftrightarrow> (\<forall>cs sp. hd cs = UserConfig_new\<lparr>auth_data := Some ser\<rparr> \<and> cs \<noteq> [] \<longrightarrow>
       load_user_auth_data (index_crates cs mp sp) demo_sys user_file_world (Username ''u'')
         = Inr (Some (push_main UserAuthData_new mp))
     \<and> load_user_mountpoints (index_crates cs mp sp) demo_sys user_file_world (Username ''u'') = Inr None)"

lemma demo_stored_account:
  obtains mp ser where
    "stored_main mp ser"
    "represents toy_crypto (push_main UserAuthData_new mp)
       (Some \<lparr>acc_main = ''main'', acc_key = ''key'', acc_secondary = []\<rparr>)"
proof -
  obtain mp where mp: "represents toy_crypto (push_main UserAuthData_new mp)
      (Some \<lparr>acc_main = ''main'', acc_key = ''key'', acc_secondary = []\<rparr>)"
    by (rule demo_account [OF toy_passwords_ok(1,2)])
  let ?ser = "\<lparr>ser_main = Some (of_bytes [1]), ser_secondary = []\<rparr>"
  have "load_user_auth_data (index_crates cs mp sp) demo_sys user_file_world (Username ''u'')
      = Inr (Some (push_main UserAuthData_new mp))
     \<and> load_user_mountpoints (index_crates cs mp sp) demo_sys user_file_world (Username ''u'') = Inr None"
    if "hd cs = UserConfig_new\<lparr>auth_data := Some ?ser\<rparr>" "cs \<noteq> []" for cs sp
    using user_file_loads [OF that(2), of mp sp] that(1)
    by (simp add: index_auth_data_of UserConfig_new_def mounts_of_def del: of_bytes_Cons)
  then have "stored_main mp ?ser" by (simp add: stored_main_def)
  with mp that show ?thesis by blast
qed

theorem add_password_extends_account_witness:
  "\<exists>K w' data'. polyauthctl (demo_ctl ''u'' K) user_file_world (demo_args None
       (Add \<lparr>add_name = ''phone'', add_intermediate = Some ''key'',
          add_method = AddPassword \<lparr>secondary_pw = Some ''pin''\<rparr>\<rparr>))
       = (Inr (), [Text_line ''Secondary password added.''], w')
     \<and> load_user_auth_data K demo_sys w' (Username ''u'') = Inr (Some data')
     \<and> main_by_auth toy_crypto data' (Some ''pin'') = Inr ''main''"
proof -
  let ?a = "\<lparr>acc_main = ''main'', acc_key = ''key'', acc_secondary = []\<rparr>"
  obtain mp ser where stored: "stored_main mp ser"
    and rep: "represents toy_crypto (push_main UserAuthData_new mp) (Some ?a)"
    by (rule demo_stored_account)
  let ?data = "push_main UserAuthData_new mp"
  obtain sp where sp: "SecondaryPassword_new toy_crypto toy_draws ''key'' ''pin'' = Inr sp"
    using SecondaryPassword_new_total [OF toy_crypto_total toy_draws_ok] by blast
  let ?data' = "?data\<lparr>auth := [new_password (Inr 0) ''phone'' None sp]\<rparr>"
  have added: "add_secondary_password toy_crypto toy_draws (Inr 0) ?data ''phone'' ''key'' ''pin''
      = (Inr (), ?data')"
    using add_secondary_password_result [OF lawful_toy toy_crypto_total rep, of toy_draws "Inr 0" "''phone''"
        "''key''" "''pin''"] sp
    by (auto simp: add_secondary_password_def account_accepts_def push_main_def UserAuthData_new_def
        password_okD split: sum.splits if_splits)
  obtain ser' where ser': "\<And>cs. serialize_auth_data (index_crates cs mp sp) ?data' = Inr ser'"
    using index_serialize [of ?data' mp sp] by (auto simp: push_main_def new_password_def)
  define c0 where "c0 = UserConfig_new\<lparr>auth_data := Some ser\<rparr>"
  let ?cs = "[c0, c0\<lparr>auth_data := Some ser'\<rparr>]"
  let ?K = "index_crates ?cs mp sp"
  have same: "c0\<lparr>auth_data := Some ser', mountpoints := None\<rparr> = c0\<lparr>auth_data := Some ser'\<rparr>"
    by (simp add: c0_def UserConfig_new_def)
  have "writable (demo_ctl ''u'' ?K) user_file_world (Username ''u'') (Some (hd ?cs)) ?data' None"
    by (rule demo_writable [OF _ ser']) (simp_all add: same)
  moreover have "now_since_epoch ?K = Inr 0" by (simp add: index_crates_def toy_crates_def)
  moreover have "load_user_auth_data ?K demo_sys user_file_world (Username ''u'') = Inr (Some ?data)"
    "load_user_mountpoints ?K demo_sys user_file_world (Username ''u'') = Inr None"
    using stored by (simp_all add: stored_main_def c0_def)
  ultimately have "\<exists>w'. polyauthctl (demo_ctl ''u'' ?K) user_file_world (demo_args None
       (Add \<lparr>add_name = ''phone'', add_intermediate = Some ''key'',
          add_method = AddPassword \<lparr>secondary_pw = Some ''pin''\<rparr>\<rparr>))
       = (Inr (), [Text_line ''Secondary password added.''], w')
     \<and> load_user_auth_data ?K demo_sys w' (Username ''u'') = Inr (Some ?data')
     \<and> main_by_auth toy_crypto ?data' (Some ''pin'') = account_login (account_add ''key'' ''pin'' (Some ?a)) ''pin''"
    using add_password_extends_account [where T = "demo_ctl ''u'' ?K" and args = "demo_args None
       (Add \<lparr>add_name = ''phone'', add_intermediate = Some ''key'',
          add_method = AddPassword \<lparr>secondary_pw = Some ''pin''\<rparr>\<rparr>)" and source = "Username ''u''"
        and n = "''phone''" and ik = "''key''" and pw = "''pin''" and w = user_file_world and data = ?data
        and mps = None and a = ?a and data' = ?data' and c = "Some (hd ?cs)"]
      added rep demo_source
    by (simp add: toy_draws_ok) (blast intro: toy_passwords_ok)
  moreover have "account_login (account_add ''key'' ''pin'' (Some ?a)) ''pin'' = Inr ''main''"
    by (simp add: account_login_def account_add_def account_accepts_def)
  ultimately show ?thesis by auto
qed

theorem add_with_other_secret_panics_witness:
  "\<exists>K. polyauthctl (demo_ctl ''u'' K) user_file_world (demo_args (Some ''fresh'')
       (Add \<lparr>add_name = ''phone'', add_intermediate = Some ''main'',
          add_method = AddPassword \<lparr>secondary_pw = Some ''pin''\<rparr>\<rparr>)) = (Inl Abort, [], user_file_world)"
proof -
  let ?a = "\<lparr>acc_main = ''main'', acc_key = ''key'', acc_secondary = []\<rparr>"
  obtain mp ser where stored: "stored_main mp ser"
    and rep: "represents toy_crypto (push_main UserAuthData_new mp) (Some ?a)"
    by (rule demo_stored_account)
  let ?K = "index_crates [UserConfig_new\<lparr>auth_data := Some ser\<rparr>] mp toy_secondary"
  have "load_user_auth_data ?K demo_sys user_file_world (Username ''u'')
      = Inr (Some (push_main UserAuthData_new mp))"
    "load_user_mountpoints ?K demo_sys user_file_world (Username ''u'') = Inr None"
    using stored by (simp_all add: stored_main_def)
  then have "polyauthctl (demo_ctl ''u'' ?K) user_file_world (demo_args (Some ''fresh'')
       (Add \<lparr>add_name = ''phone'', add_intermediate = Some ''main'',
          add_method = AddPassword \<lparr>secondary_pw = Some ''pin''\<rparr>\<rparr>)) = (Inl Abort, [], user_file_world)"
    using rep
    by (intro add_with_other_secret_panics [where T = "demo_ctl ''u'' ?K" and a = ?a and m = "''fresh''"
          and ik = "''main''" and source = "Username ''u''" and mps = None, OF demo_source])
      (simp_all add: account_login_def account_accepts_def)
  then show ?thesis by blast
qed

text \<open>The text of one table and of the empty one.\<close>

definition table_json :: "MountAuth \<Rightarrow> auth_json" where
  "table_json t =
    \<lparr>auth_to_string_pretty = (\<lambda>a. if a = t then Inr ''{u}'' else if a = MountAuth_default then Inr ''{}''
        else Inl ''unknown table''),
     auth_from_str = (\<lambda>s. if s = ''{}'' \<or> s = ''{}'' @ [CHR 0x0A] then Inr MountAuth_default
        else if s = ''{u}'' \<or> s = ''{u}'' @ [CHR 0x0A] then Inr t else Inl ''expected value'')\<rparr>"

lemma table_json_correct:
  "t \<noteq> MountAuth_default \<Longrightarrow> auth_json_correct (table_json t) MountAuth_default"
  "auth_json_correct (table_json t) t"
  by (simp_all add: auth_json_correct_def table_json_def is_string_def utf8_valid_ascii)

theorem authorize_approves_witness:
  "\<exists>T E w'. polyauthctl T user_file_world (demo_args None (Mount \<lparr>mount_action = AuthorizeAction
       MountAuthorizeCommand\<rparr>)) = (Inr (), [Value_line ''Mount authorized for user'' ''u''], w')
     \<and> \<not> approved E user_file_world toy_ops ''u'' [] (Some home_points)
     \<and> approved E w' toy_ops ''u'' [] (Some home_points)"
proof -
  let ?cs = "[UserConfig_new\<lparr>mountpoints := Some (serialize_mountpoints [] home_points)\<rparr>]"
  let ?K = "index_crates ?cs toy_main toy_secondary"
  let ?args = "demo_args None (Mount \<lparr>mount_action = AuthorizeAction MountAuthorizeCommand\<rparr>)"
  define t where "t = add_authorization MountAuth_default ''u'' (ctl_hash (demo_ctl ''u'' ?K) home_points)"
  let ?T = "(demo_ctl ''u'' ?K)\<lparr>ctl_service_json := table_json t\<rparr>"
  let ?E = "demo_env\<lparr>env_auth_json := table_json t, env_storage := ?K, env_digest := ctl_digest ?T\<rparr>"
  have t: "t \<noteq> MountAuth_default"
    by (simp add: t_def add_authorization_def MountAuth_default_def fun_eq_iff)
  have table: "t = add_authorization MountAuth_default ''u'' (ctl_hash ?T home_points)"
    by (simp add: t_def ctl_hash_def)
  have "enumerates [] (mounts home_points)"
    by (simp add: enumerates_def home_points_def MountPoints_default_def)
  then have load: "load_user_mountpoints ?K demo_sys user_file_world (Username ''u'') = Inr (Some home_points)"
    "load_user_auth_data ?K demo_sys user_file_world (Username ''u'') = Inr None"
    using user_file_loads [of ?cs toy_main toy_secondary]
    by (simp_all add: mounts_of_serialized auth_data_of_def UserConfig_new_def)
  have source: "ctl_source ?T ?args = Inr (Username ''u'')" by (simp add: ctl_source_def lossy_u)
  have "ctl_load_auth ?T user_file_world ?args (Username ''u'') = Inr UserAuthData_new"
    using load(2) by (simp add: ctl_load_auth_def)
  moreover have none: "auth_file_holds (table_json t) user_file_world toy_ops MountAuth_default"
    by (simp add: auth_file_holds_def user_file_world_def demo_world_def toy_ops_def is_dir_def)
  ultimately have "\<exists>w'. polyauthctl ?T user_file_world ?args
        = (Inr (), [Value_line ''Mount authorized for user'' ''u''], w')
      \<and> approved ?E w' toy_ops ''u'' [] (Some home_points)"
    using authorize_approves [OF source, of "''u''" MountAuthorizeCommand user_file_world UserAuthData_new
        "Some home_points" home_points MountAuth_default ?E] table load(1) table_json_correct [of t] t
    by (simp add: demo_ctl_def toy_ops_def user_path) blast
  moreover have "\<not> approved ?E user_file_world toy_ops ''u'' [] (Some home_points)"
    using read_auth_file_reliable [OF table_json_correct(1) [OF t] demo_sys_reliable none]
    by (auto simp: approved_def)
  ultimately show ?thesis by blast
qed

theorem refused_command_writes_nothing_witness:
  "snd (snd (polyauthctl (demo_ctl ''root'' (toy_crates UserConfig_new)) user_file_world
     (demo_args None (ChangeSecondaryMount
       \<lparr>sec_dir = ''/d'', sec_device = ''/dev/sdb'', sec_fstype = [], sec_flags = []\<rparr>)))) = user_file_world"
proof -
  let ?T = "demo_ctl ''root'' (toy_crates UserConfig_new)"
  let ?args = "demo_args None (ChangeSecondaryMount
     \<lparr>sec_dir = ''/d'', sec_device = ''/dev/sdb'', sec_fstype = [], sec_flags = []\<rparr>)"
  have "fst (polyauthctl ?T user_file_world ?args) = Inl Exit"
    using root_loads [of "toy_crates UserConfig_new"] lossy_u
    by (simp add: polyauthctl_def ctl_source_def ctl_load_auth_def run_command_def change_secondary_mount_def)
  then show ?thesis
    using refused_command_writes_nothing [of ?T user_file_world ?args "Inl Exit"]
    by (cases "polyauthctl ?T user_file_world ?args") (simp add: changes_data_def)
qed

end
