(* ===== verification/Daemon.thy ===== *)
theory Daemon
  imports Sessions
begin

text \<open>
  The life of the service (src/bin/pam_polyauth-service/main.rs): it checks for root, chooses and
  makes its directory, puts its two objects on the bus, answers calls until SIGTERM, and drops what
  the objects own. The life is a step relation between its phases.
\<close>

section \<open>Start\<close>

text \<open>The four steps of building a connection, each of which may fail.\<close>

record builder =
  con_system :: "ext_error + unit"
  con_name :: "ext_error + unit"
  con_serve :: "ext_error + unit"
  con_build :: "ext_error + unit"

text \<open>
  What the start meets: the user it runs as, the system, the cryptography with the text of the key
  that would be generated, the two connections, and whether the signal handler can be made.
\<close>

record daemon_env =
  dm_uid :: u32
  dm_sys :: sys
  dm_crypto :: crypto
  dm_generated :: "string option"
  dm_mount_con :: builder
  dm_session_con :: builder
  dm_signal_ok :: bool

text \<open>A directory whose existence cannot be found out counts as missing.\<close>

definition fs_exists :: "sys \<Rightarrow> world \<Rightarrow> path \<Rightarrow> bool" where
  "fs_exists S w p \<longleftrightarrow> allowed S (Sys_metadata p) = Inr () \<and> path_exists w p"

definition service_dir :: "sys \<Rightarrow> world \<Rightarrow> path" where
  "service_dir S w =
    (if fs_exists S w ''/usr/lib/polyauth/'' then ''/usr/lib/polyauth/'' else ''/etc/polyauth/'')"

definition zbus :: "ext_error + unit \<Rightarrow> ServiceError + unit" where
  "zbus r = map_err ZbusError r"

text \<open>The connection of the authorizations, whose object does nothing when it is made.\<close>

definition serve_mounts :: "builder \<Rightarrow> ServiceError + unit" where
  "serve_mounts b =
    and_then (zbus (con_system b)) (\<lambda>_. and_then (zbus (con_name b)) (\<lambda>_.
    and_then (zbus (con_serve b)) (\<lambda>_. zbus (con_build b))))"

text \<open>The sessions are made, with the task that fetches their key, once the name was accepted.\<close>

definition serve_sessions ::
  "daemon_env \<Rightarrow> world \<Rightarrow> path \<Rightarrow> MountAuthOperations \<Rightarrow> (ServiceError + Sessions) \<times> world" where
  "serve_sessions D w key_path ops =
    (case and_then (zbus (con_system (dm_session_con D))) (\<lambda>_. zbus (con_name (dm_session_con D))) of
       Inl e \<Rightarrow> (Inl e, w)
     | Inr u \<Rightarrow>
         (case Sessions_new (dm_crypto D) (dm_sys D) w key_path ops (dm_generated D) of
            (s, w1) \<Rightarrow>
              (and_then (zbus (con_serve (dm_session_con D))) (\<lambda>_.
               and_then (zbus (con_build (dm_session_con D))) (\<lambda>_. Inr s)), w1)))"

definition service_start :: "daemon_env \<Rightarrow> world \<Rightarrow> (ServiceError + Sessions) run \<times> world" where
  "service_start D w =
    (if dm_uid D \<noteq> 0 then (Ret (Inl MissingPrivilegesError), w)
     else
       (let dir_path_str = service_dir (dm_sys D) w in
        case create_directory (dm_sys D) w dir_path_str of
          (Inl e, w1) \<Rightarrow> (Ret (Inl e), w1)
        | (Inr u, w1) \<Rightarrow>
            (let mounts_auth = \<lparr>file_path = path_join dir_path_str ''authorized_mounts.json''\<rparr> in
             case serve_mounts (dm_mount_con D) of
               Inl e \<Rightarrow> (Ret (Inl e), w1)
             | Inr u \<Rightarrow>
                 (case serve_sessions D w1 (path_join dir_path_str ''private_key_pkcs1.pem'') mounts_auth of
                    (Inl e, w2) \<Rightarrow> (Ret (Inl e), w2)
                  | (Inr s, w2) \<Rightarrow> (if dm_signal_ok D then (Ret (Inr s), w2) else (Panic, w2))))))"

section \<open>The end\<close>

text \<open>
  Dropping the connection drops the sessions: the guards of every session, in the order \<open>us\<close> in which
  the map hands out its users.
\<close>

fun drop_sessions :: "sys \<Rightarrow> world \<Rightarrow> (string \<rightharpoonup> UserSession) \<Rightarrow> string list \<Rightarrow> world" where
  "drop_sessions S w m [] = w"
| "drop_sessions S w m (u # us) =
    (case m u of
       None \<Rightarrow> drop_sessions S w m us
     | Some session \<Rightarrow> drop_sessions S (drop_mounts S w (session_mounts session)) m us)"

section \<open>The life\<close>

datatype phase =
    Starting world
  | Running Sessions world
  | Ended "ServiceError + unit" world
  | Crashed world

inductive life :: "daemon_env \<Rightarrow> phase \<Rightarrow> phase \<Rightarrow> bool" for D where
  started_life: "service_start D w = (Ret (Inr s), w') \<Longrightarrow> life D (Starting w) (Running s w')"
| refused_life: "service_start D w = (Ret (Inl e), w') \<Longrightarrow> life D (Starting w) (Ended (Inl e) w')"
| crashed_life: "service_start D w = (Panic, w') \<Longrightarrow> life D (Starting w) (Crashed w')"
| called_life: "action_detaches a \<Longrightarrow> service_step (s, w) a = (s', w') \<Longrightarrow>
    life D (Running s w) (Running s' w')"
| ended_life: "set us = dom (sessions s) \<Longrightarrow> distinct us \<Longrightarrow>
    life D (Running s w) (Ended (Inr ()) (drop_sessions (dm_sys D) w (sessions s) us))"

inductive_simps life_Starting: "life D (Starting w) ph"

text \<open>The world of a phase.\<close>

fun phase_world :: "phase \<Rightarrow> world" where
  "phase_world (Starting w) = w"
| "phase_world (Running s w) = w"
| "phase_world (Ended r w) = w"
| "phase_world (Crashed w) = w"

section \<open>What a life leaves\<close>

lemma key_fetch_task_mounted: "key_fetch_task C S w p g = (r, w') \<Longrightarrow> mounted w' = mounted w"
proof (cases g)
  case None
  assume "key_fetch_task C S w p g = (r, w')"
  with None show ?thesis by (simp add: key_fetch_task_def split: if_splits)
next
  case (Some pem)
  assume "key_fetch_task C S w p g = (r, w')"
  then have "w' = snd (read_file_or_create_default S w p (Inr pem))"
    using Some by (auto simp: key_fetch_task_def split: prod.splits)
  then show ?thesis by simp
qed

lemma Sessions_new_start:
  "Sessions_new C S w p ops g = (s, w') \<Longrightarrow>
   sessions s = Map.empty \<and> one_time_tokens s = Map.empty \<and> mounts_auth s = ops \<and> mounted w' = mounted w"
  by (auto simp: Sessions_new_def split: prod.splits dest: key_fetch_task_mounted)

lemma create_directory_mounted: "create_directory S w p = (r, w') \<Longrightarrow> mounted w' = mounted w"
proof -
  assume "create_directory S w p = (r, w')"
  moreover have "mounted (snd (create_directory S w p)) = mounted w"
    by (auto simp: create_directory_def set_mode_def dest!: create_dir_frame split: prod.split sum.split)
  ultimately show ?thesis by simp
qed

lemma serve_sessions_start:
  "serve_sessions D w p ops = (r, w') \<Longrightarrow>
   mounted w' = mounted w \<and> (\<forall>s. r = Inr s \<longrightarrow> sessions s = Map.empty \<and> mounts_auth s = ops)"
  by (auto simp: serve_sessions_def and_then_eq_Inr dest!: Sessions_new_start
      split: sum.splits prod.splits)

lemma service_start_mounted:
  "service_start D w = (r, w') \<Longrightarrow>
   mounted w' = mounted w \<and> (\<forall>s. r = Ret (Inr s) \<longrightarrow> sessions s = Map.empty)"
  by (auto simp: service_start_def Let_def dest!: create_directory_mounted serve_sessions_start
      split: if_splits prod.splits sum.splits)

lemma drop_sessions_detaches:
  assumes "detaches S"
  shows "distinct us \<Longrightarrow> set us = dom m \<Longrightarrow>
    mounted (drop_sessions S w m us) = mounted w - session_sum m"
proof (induction us arbitrary: w m)
  case (Cons u us)
  then have "u \<in> dom m" by (metis list.set_intros(1))
  then obtain x where x: "m u = Some x" by blast
  let ?m = "m(u := None)"
  have "finite (dom m)" using Cons.prems(2) by (metis List.finite_set)
  then have sum: "session_sum m = mset (session_mounts x) + session_sum ?m"
    using x by (rule session_sum_remove)
  have same: "drop_sessions S v m vs = drop_sessions S v ?m vs" if "u \<notin> set vs" for v vs
    using that by (induction vs arbitrary: v) (auto split: option.split)
  define w1 where "w1 = w\<lparr>mounted := mounted w - mset (session_mounts x)\<rparr>"
  have "drop_sessions S w m (u # us) = drop_sessions S w1 ?m us"
    using Cons.prems(1) x same [of us] by (simp add: drop_mounts_detaches [OF assms] w1_def)
  moreover have "distinct us" "set us = dom ?m" using Cons.prems by auto
  then have "mounted (drop_sessions S w1 ?m us) = mounted w1 - session_sum ?m"
    by (rule Cons.IH)
  moreover have "mounted w1 = mounted w - mset (session_mounts x)" by (simp add: w1_def)
  ultimately show ?case by (simp only: sum diff_diff_add_mset)
next
  case Nil
  then have "dom m = {}" by auto
  then show ?case by (simp add: session_sum_def)
qed

text \<open>
  The invariant of a life that begins with some mounts: while the service runs, the mounts are these
  and those of its sessions; before and after, they are these.
\<close>

fun tidy :: "mount_request multiset \<Rightarrow> phase \<Rightarrow> bool" where
  "tidy base (Running s w) = leak_free base (s, w)"
| "tidy base ph = (mounted (phase_world ph) = base)"

lemma tidy_step:
  assumes "life D ph ph'" and "detaches (dm_sys D)" and "tidy base ph"
  shows "tidy base ph'"
  using assms
proof (cases rule: life.cases)
  case (called_life a s w s' w')
  with assms(3) leak_free_step [of base "(s, w)" a] show ?thesis by simp
next
  case (ended_life us s w)
  with assms(2,3) drop_sessions_detaches [of "dm_sys D" us "sessions s" w] show ?thesis
    by (simp add: leak_free_def)
qed (auto dest!: service_start_mounted simp: leak_free_def)

text \<open>
  C5: a life leaves no mount behind. Whatever calls the service answers in whatever surroundings, and
  in whatever order the sessions are dropped in the end: if mounts can be detached, then while it runs
  the mounts of the system are those at its start and exactly those its sessions hold, and when it has
  ended, in any way, they are those at its start.
\<close>

theorem life_leaves_no_mount:
  assumes "(life D)\<^sup>*\<^sup>* (Starting w0) ph" and "detaches (dm_sys D)"
  shows "(case ph of
      Running s w \<Rightarrow> finite (dom (sessions s)) \<and> mounted w = mounted w0 + session_sum (sessions s)
    | _ \<Rightarrow> mounted (phase_world ph) = mounted w0)"
proof -
  have "tidy (mounted w0) ph"
    using assms(1)
  proof (induction rule: rtranclp_induct)
    case base
    show ?case by simp
  next
    case (step ph ph')
    with assms(2) tidy_step show ?case by blast
  qed
  then show ?thesis by (cases ph) (simp_all add: leak_free_def)
qed

text \<open>
  Only root starts the service. Started by any other user it ends with the error for missing
  privileges and touches nothing; and when it starts, its table of authorizations is the file in the
  directory it chose, it has no session and has issued no token.
\<close>

theorem service_start_spec:
  "(dm_uid D \<noteq> 0 \<longrightarrow> (\<forall>ph. life D (Starting w) ph \<longleftrightarrow> ph = Ended (Inl MissingPrivilegesError) w))
   \<and> (\<forall>s w'. life D (Starting w) (Running s w') \<longrightarrow>
        dm_uid D = 0 \<and> sessions s = Map.empty \<and> one_time_tokens s = Map.empty
      \<and> mounts_auth s = \<lparr>file_path = path_join (service_dir (dm_sys D) w) ''authorized_mounts.json''\<rparr>)"
proof -
  have "life D (Starting w) ph \<longleftrightarrow> ph = Ended (Inl MissingPrivilegesError) w" if "dm_uid D \<noteq> 0" for ph
    using that by (simp add: life_Starting service_start_def)
  moreover have "dm_uid D = 0 \<and> sessions s = Map.empty \<and> one_time_tokens s = Map.empty
      \<and> mounts_auth s = \<lparr>file_path = path_join (service_dir (dm_sys D) w) ''authorized_mounts.json''\<rparr>"
    if "life D (Starting w) (Running s w')" for s w'
  proof -
    from that have "service_start D w = (Ret (Inr s), w')" by (simp add: life_Starting)
    then show ?thesis
      by (auto simp: service_start_def serve_sessions_def Let_def and_then_eq_Inr dest!: Sessions_new_start
          split: if_splits prod.splits sum.splits)
  qed
  ultimately show ?thesis by blast
qed

section \<open>Instances\<close>

definition demo_builder :: builder where
  "demo_builder = \<lparr>con_system = Inr (), con_name = Inr (), con_serve = Inr (), con_build = Inr ()\<rparr>"

definition demo_daemon :: "u32 \<Rightarrow> daemon_env" where
  "demo_daemon uid = \<lparr>dm_uid = uid, dm_sys = demo_sys, dm_crypto = toy_crypto, dm_generated = Some ''k'',
     dm_mount_con = demo_builder, dm_session_con = demo_builder, dm_signal_ok = True\<rparr>"

lemma demo_start: "\<exists>s w. service_start (demo_daemon 0) demo_world = (Ret (Inr s), w)"
  by (auto simp: service_start_def demo_daemon_def demo_builder_def serve_mounts_def serve_sessions_def zbus_def
      service_dir_def fs_exists_def create_directory_def path_exists_def demo_world_def Let_def split: prod.split)

text \<open>
  A life in which a session is opened, on a system that has the file of authorizations, and that ends
  while the session is still open.
\<close>

definition ready_world :: world where
  "ready_world = demo_world\<lparr>files := [''/etc/polyauth/authorized_mounts.json'' \<mapsto> as_bytes ''{}'']\<rparr>"

lemma ready_start:
  obtains s w where "service_start (demo_daemon 0) ready_world = (Ret (Inr s), w)"
    "fetch_priv_key s = (Ret (Inr (as_bytes ''k'')), s\<lparr>priv_key := Ready (as_bytes ''k'')\<rparr>)"
    "sessions s = Map.empty" "path_exists w (file_path (mounts_auth s))" "free_for_demo w"
proof -
  let ?p = "''/etc/polyauth/private_key_pkcs1.pem''"
  let ?ops = "\<lparr>file_path = ''/etc/polyauth/authorized_mounts.json''\<rparr>"
  obtain s w where new: "Sessions_new toy_crypto demo_sys ready_world ?p ?ops (Some ''k'') = (s, w)"
    by fastforce
  have "\<not> path_exists ready_world ?p"
    by (simp add: path_exists_def ready_world_def demo_world_def)
  note started = demo_new [OF new this]
  have "service_start (demo_daemon 0) ready_world = (Ret (Inr s), w)"
    using new by (simp add: service_start_def demo_daemon_def demo_builder_def serve_mounts_def serve_sessions_def
        zbus_def service_dir_def fs_exists_def create_directory_def path_exists_def path_join_def ready_world_def
        demo_world_def Let_def del: as_bytes_Cons)
  moreover have "path_exists w (file_path (mounts_auth s))" "free_for_demo w"
    by (simp_all add: started free_for_demo_def path_exists_def ready_world_def demo_world_def)
  ultimately show ?thesis using that started(1,2) by blast
qed

lemma demo_life_runs:
  "(life D)\<^sup>*\<^sup>* ph (Running s w) \<Longrightarrow> foldl service_step (s, w) as = (s', w') \<Longrightarrow> list_all action_detaches as \<Longrightarrow>
   (life D)\<^sup>*\<^sup>* ph (Running s' w')"
proof (induction as arbitrary: s w)
  case (Cons a as)
  obtain s1 w1 where step: "service_step (s, w) a = (s1, w1)" by fastforce
  with Cons.prems have "(life D)\<^sup>*\<^sup>* ph (Running s1 w1)"
    by (auto intro: rtranclp.rtrancl_into_rtrancl called_life)
  with Cons step show ?case by simp
qed simp

theorem life_leaves_no_mount_witness:
  "\<exists>s w w'. (life (demo_daemon 0))\<^sup>*\<^sup>* (Starting ready_world) (Running s w)
     \<and> mounted w = session_sum (sessions s) \<and> mounted w \<noteq> {#}
     \<and> (life (demo_daemon 0))\<^sup>*\<^sup>* (Starting ready_world) (Ended (Inr ()) w') \<and> mounted w' = {#}"
proof -
  obtain s0 w0 where start: "service_start (demo_daemon 0) ready_world = (Ret (Inr s0), w0)"
    "fetch_priv_key s0 = (Ret (Inr (as_bytes ''k'')), s0\<lparr>priv_key := Ready (as_bytes ''k'')\<rparr>)"
    "sessions s0 = Map.empty" "path_exists w0 (file_path (mounts_auth s0))" "free_for_demo w0"
    by (rule ready_start)
  obtain ct s w where run: "foldl service_step (s0, w0) (demo_calls ct) = (s, w)"
    "sessions s = [''u'' \<mapsto> \<lparr>session_mounts = user_requests demo_user [] None, session_count = 1\<rparr>]"
    "mounted w = mounted w0 + mset (user_requests demo_user [] None)"
    by (rule demo_run_opens [OF start(2-5)])
  have detaches: "detaches (dm_sys (demo_daemon 0))" "list_all action_detaches (demo_calls ct)"
    using reliable_detaches [OF demo_sys_reliable] by (simp_all add: demo_daemon_def demo_calls_def)
  have "(life (demo_daemon 0))\<^sup>*\<^sup>* (Starting ready_world) (Running s0 w0)"
    by (intro r_into_rtranclp started_life start(1))
  then have running: "(life (demo_daemon 0))\<^sup>*\<^sup>* (Starting ready_world) (Running s w)"
    by (rule demo_life_runs [OF _ run(1) detaches(2)])
  moreover obtain w' where ended: "(life (demo_daemon 0))\<^sup>*\<^sup>* (Starting ready_world) (Ended (Inr ()) w')"
    using rtranclp.rtrancl_into_rtrancl [OF running ended_life [of "[''u'']"]] run(2) by auto
  moreover have "mounted ready_world = {#}" by (simp add: ready_world_def demo_world_def)
  then have "mounted w = session_sum (sessions s)" "mounted w' = {#}"
    using life_leaves_no_mount [OF running detaches(1)] life_leaves_no_mount [OF ended detaches(1)] by simp_all
  moreover have "mounted w \<noteq> {#}" using run(3) by simp
  ultimately show ?thesis by blast
qed

theorem service_start_spec_witness:
  "life (demo_daemon 1000) (Starting demo_world) (Ended (Inl MissingPrivilegesError) demo_world)
   \<and> (\<exists>s w. life (demo_daemon 0) (Starting demo_world) (Running s w)
        \<and> mounts_auth s = \<lparr>file_path = ''/etc/polyauth/authorized_mounts.json''\<rparr>)"
proof -
  obtain s w where "service_start (demo_daemon 0) demo_world = (Ret (Inr s), w)"
    using demo_start by blast
  then have "life (demo_daemon 0) (Starting demo_world) (Running s w)" by (rule started_life)
  moreover from this
  have "mounts_auth s = \<lparr>file_path = path_join (service_dir demo_sys demo_world) ''authorized_mounts.json''\<rparr>"
    using service_start_spec [of "demo_daemon 0" demo_world] by (auto simp: demo_daemon_def)
  then have "mounts_auth s = \<lparr>file_path = ''/etc/polyauth/authorized_mounts.json''\<rparr>"
    by (simp add: service_dir_def fs_exists_def path_exists_def demo_world_def path_join_def)
  moreover have "life (demo_daemon 1000) (Starting demo_world) (Ended (Inl MissingPrivilegesError) demo_world)"
    using service_start_spec [of "demo_daemon 1000" demo_world] by (simp add: demo_daemon_def)
  ultimately show ?thesis by blast
qed

end
