(* ===== verification/EndToEnd.thy ===== *)
theory EndToEnd
  imports PamRun Polyauthctl Daemon
begin

text \<open>
  What the parts do together: an account made with the command line tool is the one the PAM module
  authenticates, on the same files with the same crates, and the session of its user is opened by the
  service with the mounts that were authorized.
\<close>

text \<open>
  C3: from the setup to a login. After a setup with a main password and an intermediate key, in
  whatever state the user's file was before, the authentication hook accepts an answer to its prompt
  exactly when it is one of the two (or at once, without regard to the answer, when one of the two is
  empty), and what it keeps for the session is the main password.
\<close>

theorem setup_then_authenticate:
  assumes "setup_ready T args w u m ik data mps"
    and "hk_crypto H = ctl_crypto T" and "hk_storage H = ctl_storage T" and "hk_sys H = ctl_sys T"
    and "hook_username (hk_stack H) = Inr u" and "prompt_for_password (hk_stack H) = Inr pw"
    and "password_ok pw" and "set_data_error (hk_stack H) (cred_data u) = None"
  shows "\<exists>out w'. polyauthctl T w args = (Inr (), out, w')
    \<and> sm_authenticate H w' h =
        (if [] \<in> {m, ik} \<or> pw \<in> {m, ik}
         then (Inr (), h\<lparr>module_data := (module_data h)(cred_data u \<mapsto> m)\<rparr>)
         else (Inl AUTH_ERR, h))"
proof -
  let ?a = "\<lparr>acc_main = m, acc_key = ik, acc_secondary = []\<rparr>"
  obtain out w' where run: "polyauthctl T w args = (Inr (), out, w')"
    "load_user_auth_data (ctl_storage T) (ctl_sys T) w' (Username u) = Inr (Some data)"
    "represents (ctl_crypto T) data (Some ?a)"
    by (rule setup_runs [OF assms(1)])
  have "lawful_crypto (hk_crypto H)" using assms(1,2) by (simp add: setup_ready_def)
  from authenticates [OF this assms(5) _ _ assms(6-8), of w' data ?a h] run(2,3) assms(2-4)
  have "sm_authenticate H w' h =
    (if account_login (Some ?a) [] = Inr m \<or> account_login (Some ?a) pw = Inr m
     then (Inr (), h\<lparr>module_data := (module_data h)(cred_data u \<mapsto> m)\<rparr>) else (Inl AUTH_ERR, h))"
    by simp
  moreover have "account_login (Some ?a) q = Inr m \<longleftrightarrow> q \<in> {m, ik}" for q
    by (simp add: account_login_def account_accepts_def)
  ultimately have "sm_authenticate H w' h =
    (if [] \<in> {m, ik} \<or> pw \<in> {m, ik}
     then (Inr (), h\<lparr>module_data := (module_data h)(cred_data u \<mapsto> m)\<rparr>) else (Inl AUTH_ERR, h))"
    by simp
  with run(1) show ?thesis by blast
qed

theorem setup_then_authenticate_witness:
  "\<exists>K H out w'. polyauthctl (demo_ctl ''root'' K) user_file_world
         (demo_args (Some ''main'') (Setup \<lparr>setup_intermediate = Some ''key''\<rparr>)) = (Inr (), out, w')
     \<and> sm_authenticate H w' (demo_handle []) = (Inr (), demo_handle ''main'')"
proof -
  obtain K data where ready: "setup_ready (demo_ctl ''root'' K)
      (demo_args (Some ''main'') (Setup \<lparr>setup_intermediate = Some ''key''\<rparr>)) user_file_world ''u''
      ''main'' ''key'' data None"
    by (rule demo_setup)
  have key: "lossy ''key'' = ''key''" by (rule lossy_ascii) simp
  let ?H = "(demo_hook toy_main)\<lparr>hk_storage := K\<rparr>"
  have "hk_crypto ?H = ctl_crypto (demo_ctl ''root'' K)" "hk_storage ?H = ctl_storage (demo_ctl ''root'' K)"
    "hk_sys ?H = ctl_sys (demo_ctl ''root'' K)" "hook_username (hk_stack ?H) = Inr ''u''"
    "prompt_for_password (hk_stack ?H) = Inr ''key''" "password_ok ''key''"
    "set_data_error (hk_stack ?H) (cred_data ''u'') = None"
    using key by simp_all
  from setup_then_authenticate [OF ready this, of "demo_handle []"]
  obtain out w' where "polyauthctl (demo_ctl ''root'' K) user_file_world
         (demo_args (Some ''main'') (Setup \<lparr>setup_intermediate = Some ''key''\<rparr>)) = (Inr (), out, w')"
    "sm_authenticate ?H w' (demo_handle []) = (Inr (), demo_handle ''main'')"
    by (auto simp: demo_handle_def)
  then show ?thesis by blast
qed

section \<open>From the setup to the session\<close>

text \<open>
  The tool, the module and the service of one machine: they use the same crates, files and table of
  authorizations, and hash mounts in the same order.
\<close>

definition same_system :: "ctl_env \<Rightarrow> hook_env \<Rightarrow> Sessions \<Rightarrow> bool" where
  "same_system T H s \<longleftrightarrow>
     hk_crypto H = ctl_crypto T \<and> hk_storage H = ctl_storage T \<and> hk_sys H = ctl_sys T
   \<and> env_storage (hk_service H) = ctl_storage T \<and> env_sys (hk_service H) = ctl_sys T
   \<and> ctl_service_sys T = ctl_sys T \<and> env_auth_json (hk_service H) = ctl_service_json T
   \<and> env_digest (hk_service H) = ctl_digest T \<and> hk_hash_order H = ctl_hash_order T
   \<and> mounts_auth s = ctl_service T"

text \<open>
  The table of authorizations can be read and extended by the mounts, and no place where something
  will be mounted is a file.
\<close>

definition table_ready :: "ctl_env \<Rightarrow> world \<Rightarrow> string \<Rightarrow> user \<Rightarrow> MountPoints \<Rightarrow> bool" where
  "table_ready T w u usr mp \<longleftrightarrow>
     bus_works (ctl_bus T) \<and> auth_json_correct (ctl_service_json T) MountAuth_default
   \<and> files w (file_path (ctl_service T)) \<noteq> None
   \<and> (\<exists>a. auth_file_holds (ctl_service_json T) w (ctl_service T) a
        \<and> auth_json_correct (ctl_service_json T) (add_authorization a u (ctl_hash T mp)))
   \<and> (\<forall>t \<in> mount_targets usr (Some mp). files w t = None \<and> t \<noteq> config_path_from_source (Username u))"

lemma ask_authorize_mounted:
  "ask_authorize T u hash w = (r, w') \<Longrightarrow> mounted w' = mounted w"
  using authorize_mounted [of "ctl_service_json T" "ctl_service_sys T" w "ctl_service T" u hash]
  by (auto simp: ask_authorize_def call_authorize_def split: sum.splits dest!: bus_call_frame)

text \<open>A table that was added to is in a file.\<close>

lemma added_table_exists:
  assumes "auth_file_holds J w ops (add_authorization a u hash)"
  shows "path_exists w (file_path ops)"
proof -
  have "authorizations (add_authorization a u hash) u \<noteq> authorizations MountAuth_default u"
    by (simp add: add_authorization_def MountAuth_default_def)
  then have "add_authorization a u hash \<noteq> MountAuth_default" by auto
  with assms show ?thesis by (auto simp: auth_file_holds_def path_exists_def split: option.splits)
qed

text \<open>The setup leaves a world in which the session can be opened.\<close>

lemma setup_makes_ready:
  assumes "setup_ready T args w u m ik data (Some mp)" and "same_system T H s"
    and "hook_able H s u usr" and "table_ready T w u usr mp"
    and "holds_data T w (Username u) data (Some mp) w2"
    and "setup_authorize T args u (Some mp) w2 = (out, w')"
  shows "hook_ready H s w' u usr (Some mp) \<and> mounted w' = mounted w"
proof -
  obtain a where a: "auth_file_holds (ctl_service_json T) w (ctl_service T) a"
      "auth_json_correct (ctl_service_json T) (add_authorization a u (ctl_hash T mp))"
    and table: "bus_works (ctl_bus T)" "auth_json_correct (ctl_service_json T) MountAuth_default"
      "files w (file_path (ctl_service T)) \<noteq> None"
      "\<And>t. t \<in> mount_targets usr (Some mp) \<Longrightarrow> files w t = None \<and> t \<noteq> config_path_from_source (Username u)"
    using assms(4) unfolding table_ready_def by blast
  have apart: "file_path (ctl_service T) \<noteq> config_path_from_source (Username u)"
    and no_file: "arg_config_file args = None"
    using assms(1) unfolding setup_ready_def by simp_all
  have same: "files w2 q = files w q" if "q \<noteq> config_path_from_source (Username u)" for q
    using assms(5) that by (simp add: holds_data_def)
  have keeps: "keeps_files w w2" using assms(5) by (simp add: holds_data_def)
  have reliable: "reliable (ctl_service_sys T)"
    using assms(2,3) by (simp add: same_system_def hook_able_def)
  have "auth_file_holds (ctl_service_json T) w2 (ctl_service T) a"
    using a(1) table(3) keeps same [OF apart] by (auto simp: auth_file_holds_def keeps_files_def is_dir_def)
  then obtain w3 where w3: "ask_authorize T u (ctl_hash T mp) w2 = (Inr (result_into_u32 Ok), w3)"
    "auth_file_holds (ctl_service_json T) w3 (ctl_service T) (add_authorization a u (ctl_hash T mp))"
    by (rule ask_authorize_works [OF table(1,2) a(2) reliable])
  then have "w' = w3"
    using assms(6) no_file by (simp add: setup_authorize_def split: if_splits)
  note touched = ask_authorize_touches [OF w3(1)]
  have "load_user_mountpoints (ctl_storage T) (ctl_sys T) w3 (Username u) = Inr (Some mp)"
    using loads_untouched(2) [OF touched apart] assms(5) by (simp add: holds_data_def)
  then have "approved (hk_service H) w3 (mounts_auth s) u (hk_hash_order H) (Some mp)"
    using authorized_approved [of "hk_service H" w3 "ctl_service T" a u mp "ctl_hash_order T"]
      assms(2) table(2) reliable w3(2)
    by (simp add: same_system_def ctl_hash_def)
  moreover have "path_exists w3 (file_path (mounts_auth s))"
    using added_table_exists [OF w3(2)] assms(2) by (simp add: same_system_def)
  moreover have "files w3 t = None" if "t \<in> mount_targets usr (Some mp)" for t
  proof -
    have "t \<noteq> file_path (ctl_service T)" using table(3) table(4) [OF that] by auto
    with touched table(4) [OF that] same show ?thesis by (simp add: touches_def)
  qed
  moreover have "mounted w3 = mounted w"
    using ask_authorize_mounted [OF w3(1)] keeps by (simp add: keeps_files_def)
  ultimately show ?thesis using assms(3) \<open>w' = w3\<close> by (simp add: hook_ready_def)
qed

text \<open>
  C2: from the setup over the login to the end of the session. For a user with configured mounts, a
  setup with the tool stores the account and has the mounts authorized; afterwards the authentication
  hook accepts the main password or the intermediate key, the opening hook mounts exactly the user's
  directories on top of what was mounted before the setup, and the closing hook leaves the mounts and
  the sessions as they were.
\<close>

theorem setup_then_session:
  assumes "setup_ready T args w u m ik data (Some mp)" and "same_system T H s"
    and "hook_able H s u usr" and "table_ready T w u usr mp"
    and "hook_username (hk_stack H) = Inr u" and "prompt_for_password (hk_stack H) = Inr pw"
    and "pw \<in> {m, ik}" and "length m \<le> 255"
    and "set_data_error (hk_stack H) (cred_data u) = None" and "env_set_error (hk_stack H) = None"
    and "process_ok p" and "hk_runtime_ok H" and "init_once p \<noteq> Poisoned"
  shows "\<exists>out w1 h1 p1 h2 s1 w2 p2 s2 w3. polyauthctl T w args = (Inr (), out, w1)
    \<and> sm_authenticate H w1 h = (Inr (), h1)
    \<and> sm_open_session H p h1 (s, w1) = (Ret (Inr ()), p1, h2, s1, w2)
    \<and> mounted w2 = mounted w + mset (user_requests usr (hk_mount_order H) (Some mp))
    \<and> sm_close_session H p1 (s1, w2) = (Ret (Inr ()), p2, s2, w3)
    \<and> mounted w3 = mounted w \<and> sessions s2 = sessions s"
proof -
  let ?a = "\<lparr>acc_main = m, acc_key = ik, acc_secondary = []\<rparr>"
  obtain out w1 where run: "polyauthctl T w args = (Inr (), out, w1)"
      "load_user_auth_data (ctl_storage T) (ctl_sys T) w1 (Username u) = Inr (Some data)"
      "represents (ctl_crypto T) data (Some ?a)"
    and stored: "\<exists>out w2. holds_data T w (Username u) data (Some mp) w2
      \<and> setup_authorize T args u (Some mp) w2 = (out, w1)"
    using setup_runs [OF assms(1)] by metis
  have ready: "hook_ready H s w1 u usr (Some mp)" "mounted w1 = mounted w"
    using stored setup_makes_ready [OF assms(1-4)] by blast+
  note able = hook_readyD [OF ready(1)]
  have crypto: "lawful_crypto (hk_crypto H)" and pw: "password_ok pw"
    using assms(1,2,7) by (auto simp: setup_ready_def same_system_def)
  have "account_login (Some ?a) pw = Inr m"
    using assms(7) by (auto simp: account_login_def account_accepts_def)
  with authenticates [OF crypto assms(5) _ _ assms(6) pw assms(9), of w1 data ?a h] run(2,3) assms(2)
  have login: "sm_authenticate H w1 h = (Inr (), h\<lparr>module_data := (module_data h)(cred_data u \<mapsto> m)\<rparr>)"
    by (simp add: same_system_def)
  let ?h = "h\<lparr>module_data := (module_data h)(cred_data u \<mapsto> m)\<rparr>"
  have cred: "module_data ?h (cred_data u) = Some m" by simp
  obtain p1 s1 w2 where opened: "sm_open_session H p ?h (s, w1) = (Ret (Inr ()), p1,
      ?h\<lparr>pam_env := (pam_env ?h)(''XDG_RUNTIME_DIR'' \<mapsto> user_xdg_path (user_uid usr))\<rparr>, s1, w2)"
    "process_ok p1" "init_once p1 = Done"
    "mounted w2 = mounted w1 + mset (user_requests usr (hk_mount_order H) (Some mp))"
    "sessions s1 = (sessions s)(user_name usr \<mapsto>
       \<lparr>session_mounts = user_requests usr (hk_mount_order H) (Some mp), session_count = 1\<rparr>)"
    by (rule hook_opens [OF assms(11-13,5) cred assms(8,10) ready(1)])
  obtain p2 where closed: "sm_close_session H p1 (s1, w2) = (Ret (Inr ()), p2,
      s1\<lparr>sessions := (sessions s1)(user_name usr := None)\<rparr>,
      w2\<lparr>mounted := mounted w2 - mset (user_requests usr (hk_mount_order H) (Some mp))\<rparr>)"
    by (rule hook_closes [OF opened(2,3) assms(5) able(1,10) reliable_detaches [OF able(14)], of s1])
      (simp add: opened(5))
  have "(sessions s1)(user_name usr := None) = sessions s"
    using opened(5) able(11) by (simp add: fun_upd_idem)
  with run(1) login opened(1,4) closed ready(2) show ?thesis by auto
qed

section \<open>Instances\<close>

text \<open>The readiness for a setup does not depend on a file the tool does not look at.\<close>

lemma setup_ready_untouched:
  assumes "setup_ready T args w u m ik data mps" and "touches p w w'"
    and "p \<noteq> config_path_from_source (Username u)"
    and "\<And>runner. ctl_current T = Some runner \<Longrightarrow> p \<noteq> config_path_from_source (Username (lossy runner))"
    and "dir_available w' (Username u)"
  shows "setup_ready T args w' u m ik data mps"
proof -
  have "config_file_holds K w' (Username u) c = config_file_holds K w (Username u) c" for K c
    using assms(2,3) by (simp add: touches_def config_file_holds_def)
  then have "\<exists>c. writable T w' (Username u) c data mps"
    using assms(1,5) by (auto simp: setup_ready_def writable_def)
  then show ?thesis
    using assms(1) loads_untouched [OF assms(2,3)] loads_untouched [OF assms(2,4)]
    by (auto simp: setup_ready_def)
qed

text \<open>A world with the file of the user and a table of authorizations.\<close>

definition both_world :: world where
  "both_world = user_file_world\<lparr>files := (files user_file_world)(''/auth'' \<mapsto> as_bytes ''{}'')\<rparr>"

lemma both_dir_available: "dir_available both_world (Username ''u'')"
proof -
  have "path_parent ''/etc/polyauth/u.json'' = Some ''/etc/polyauth''"
    "ancestors (length ''/etc/polyauth'') ''/etc/polyauth'' = [''/etc'', ''/'']"
    by code_simp+
  then show ?thesis
    by (simp add: both_world_def user_file_world_def dir_available_def demo_world_def user_path
        del: ancestors.simps list.size)
qed

definition demo_system :: "storage_crates \<Rightarrow> auth_json \<Rightarrow> hook_env" where
  "demo_system K J = (demo_hook toy_main)\<lparr>hk_storage := K,
     hk_service := demo_env\<lparr>env_storage := K, env_auth_json := J, env_digest := (\<lambda>_. 0)\<rparr>\<rparr>"

lemma demo_able: "hook_able (demo_system K J) demo_sessions ''u'' demo_user"
proof -
  have "hook_able (demo_hook toy_main) demo_sessions ''u'' demo_user"
    using demo_ready [of toy_main] by (simp add: hook_ready_def)
  then show ?thesis by (simp add: hook_able_def key_exchange_def demo_system_def)
qed

lemma demo_same_system:
  "same_system ((demo_ctl ''root'' K)\<lparr>ctl_service_json := J\<rparr>) (demo_system K J) demo_sessions"
  by (simp add: same_system_def demo_system_def demo_hook_def demo_ctl_def demo_env_def demo_sessions_def)

lemma both_targets:
  assumes "t \<in> mount_targets demo_user (Some home_points)"
  shows "files both_world t = None \<and> t \<noteq> config_path_from_source (Username ''u'')"
proof -
  have "lossy ''/home/u'' = ''/home/u''" by (rule lossy_ascii) simp
  moreover have "dec_nat (unat (user_uid demo_user)) = ''1000''"
    by (simp add: demo_user_def dec_nat.simps char_of_def bit_0)
  ultimately show ?thesis
    using assms
    by (auto simp: mount_targets_def home_points_def MountPoints_default_def both_world_def user_path
        XDG_RUNTIME_DIR_PATH_def user_xdg_path_def path_join_def user_file_world_def demo_world_def)
qed

theorem setup_then_session_witness:
  "\<exists>T H s out w1 h1 p1 h2 s1 w2. polyauthctl T both_world
         (demo_args (Some ''main'') (Setup \<lparr>setup_intermediate = Some ''key''\<rparr>)) = (Inr (), out, w1)
     \<and> sm_authenticate H w1 (demo_handle []) = (Inr (), h1)
     \<and> sm_open_session H demo_process h1 (s, w1) = (Ret (Inr ()), p1, h2, s1, w2)
     \<and> mounted w2 = mset (user_requests demo_user [] (Some home_points))"
proof -
  let ?args = "demo_args (Some ''main'') (Setup \<lparr>setup_intermediate = Some ''key''\<rparr>)"
  obtain K data where ready: "setup_ready (demo_ctl ''root'' K) ?args user_file_world ''u''
      ''main'' ''key'' data (Some home_points)"
    by (rule demo_setup_with [of "Some home_points"]) (auto simp: home_points_def MountPoints_default_def)
  define t where "t = add_authorization MountAuth_default ''u'' (ctl_hash (demo_ctl ''root'' K) home_points)"
  have t: "t \<noteq> MountAuth_default"
    by (simp add: t_def add_authorization_def MountAuth_default_def fun_eq_iff)
  let ?T = "(demo_ctl ''root'' K)\<lparr>ctl_service_json := table_json t\<rparr>"
  let ?H = "demo_system K (table_json t)"
  have "touches ''/auth'' user_file_world both_world" by (simp add: touches_def both_world_def)
  from setup_ready_untouched [OF ready this] both_dir_available
  have "setup_ready (demo_ctl ''root'' K) ?args both_world ''u'' ''main'' ''key'' data (Some home_points)"
    using lossy_u by (simp add: config_path_from_source_def config_path_for_username_def path_join_def
        POLYAUTH_CONFIG_DIR_def)
  then have start: "setup_ready ?T ?args both_world ''u'' ''main'' ''key'' data (Some home_points)"
    by (simp add: setup_ready_def writable_def written_def)
  have "t = add_authorization MountAuth_default ''u'' (ctl_hash ?T home_points)"
    by (simp add: t_def ctl_hash_def)
  moreover have "utf8_valid (as_bytes ''{}'')" by (simp add: utf8_valid_ascii)
  then have "auth_file_holds (table_json t) both_world toy_ops MountAuth_default"
    by (simp add: auth_file_holds_def both_world_def user_file_world_def demo_world_def toy_ops_def is_dir_def
        table_json_def del: as_bytes_Cons)
  ultimately have table: "table_ready ?T both_world ''u'' demo_user home_points"
    using table_json_correct [of t] t both_targets
    by (auto simp: table_ready_def demo_ctl_def toy_ops_def both_world_def intro!: exI [of _ MountAuth_default])
  have key: "lossy ''key'' = ''key''" by (rule lossy_ascii) simp
  have "mounted both_world = {#}" by (simp add: both_world_def user_file_world_def demo_world_def)
  moreover have "hk_mount_order ?H = []" "hk_stack ?H = demo_stack" "hk_runtime_ok ?H"
    by (simp_all add: demo_system_def demo_hook_def)
  ultimately show ?thesis
    using setup_then_session [OF start demo_same_system demo_able table, of "''key''" demo_process "demo_handle []"]
      key by simp blast
qed

end
