(* ===== verification/Spec2Isabelle.thy ===== *)
theory Spec2Isabelle
  imports AccountSpec MountPoints ServiceResult Disk MountAuth Mounting SessionPrelude Storage
    UserDatabase Sessions SessionRegistry Bus PamModule PamRun Polyauthctl Daemon EndToEnd
begin

text \<open>
  A verification of polyauth, a PAM module and service that lets a user log in with any of several
  secondary passwords and mounts the user's directories for the time of the session.

  The program. The authentication data of a user (src/user.rs, src/auth.rs) is one main password,
  encrypted under a key derived from an intermediate key, and a list of secondary passwords, each of
  which encrypts the intermediate key. It is stored with the session command and the mount points
  (src/mount.rs) in one JSON file (src/storage.rs). A daemon offers two objects on the bus: one keeps
  the table of mounts that root authorized (src/pam/mount.rs), the other hands out one-time tokens,
  decrypts the password a client sends with such a token (src/pam/security.rs), checks the table,
  mounts, and counts the sessions of each user (src/pam/session.rs). Files are read and made by two
  helpers (src/pam/disk.rs), results travel as numbers (src/pam/result.rs). Three programs drive this:
  the PAM module (src/lib.rs) authenticates a user against the stored data and asks the service to
  open and close the session, the command line tool (src/bin/polyauthctl) edits the stored data and
  asks for authorizations, and the daemon (src/bin/pam_polyauth-service) starts the service and ends it.

  The theories, each with the code it models:
  Prelude: bytes, strings, results, panics, arithmetic on usize, and the generic interfaces (locales
  codec, machine, simulation).
  Utf8: the password utilities of src/lib.rs on a model of the lossy UTF-8 conversion.
  Crypto: derive_key of src/lib.rs, and the cryptographic crates as one record of functions with the
  hypotheses made on them; toy_crypto satisfies all of them.
  AuthData, SecondaryAuth, UserAuth: src/error.rs, src/user.rs and src/auth.rs, one definition per
  method, named after it (with the type as a prefix where the bare name is taken).
  AccountSpec: the abstract account (a main password and a table of secondary passwords) and the
  simulation of it by the operations of UserAuth.
  MountPoints: src/mount.rs; the hash is a function of the exact sequence of calls to the hasher, and
  hashed_bytes are the bytes these calls come to with the default methods of the hasher trait on a
  little-endian machine with 64 bits.
  SystemModel: what is used of the operating system, as a world of files, directories, modes, owners
  and mounts, and calls that fail as the environment chooses.
  ServiceResult, Disk: src/pam/result.rs and src/pam/mod.rs, src/pam/disk.rs.
  MountAuth, Mounting: the two halves of src/pam/mount.rs.
  SessionPrelude: src/pam/security.rs.
  Storage: src/storage.rs and src/command.rs; the three sections of the file interpret the locale
  config_section.
  UserDatabase: the contract of src/storage.rs as a whole, a database with one entry for each path.
  Sessions: src/pam/session.rs; a call on the bus is one step of a machine on the state of the
  sessions and the world, and the invariants are interpretations of the locale machine.
  SessionRegistry: the contract of src/pam/session.rs as a whole, a number of sessions for each user.
  Bus: what the two clients use of the bus, with requests and replies that get lost.
  PamModule: src/lib.rs, one definition per hook (sm_authenticate, sm_setcred, sm_open_session,
  sm_close_session) and per client function, with the once-cell of the runtime.
  PamRun: the application on the other side of src/lib.rs, a machine whose steps are calls of hooks.
  Polyauthctl: src/bin/polyauthctl/main.rs, one definition per command and polyauthctl for main.
  Daemon: src/bin/pam_polyauth-service/main.rs, the start as a function and the life of the service
  as a step relation between its phases.
  EndToEnd: what tool, module, storage and service do together on one system.

  How state and effects correspond. A Rust struct is a record, an enum a datatype, Result a sum with
  the error on the left, a HashMap a partial map. What a HashMap enumerates in an unspecified order is
  given that order as an argument (ks, km). A method on a mutable reference returns the new value; a
  function with effects takes the environment (sys) and the world and returns the new world, also on
  its error paths. A panic is the value Panic of the type run. A u32, u64 or usize is a word; lengths
  of vectors are natural numbers and sums of lengths are taken on usize, where the argument checks
  says whether an overflow panics (debug build) or wraps around (release build). All recursions are
  structural or on a list, so there is no fuel, but for the ancestors of a path, of which there are
  fewer than the path has bytes. The answers at a terminal are a list; no command asks for more than
  four, and longer lists change nothing (Polyauthctl.four_answers_suffice).

  What is shown. AccountSpec and UserAuth: every sequence of changes of the data, with logins, answers
  as the abstract account does, a login never succeeds without a secret that verifies, and a failed
  change changes nothing. MountPoints and MountAuth: what the hash depends on, down to the bytes, and
  that check accepts what was authorized and nothing else, under any failures. Mounting: all or nothing. SessionPrelude:
  the message round trip, the errors of both directions and exactly which messages make the service
  panic. Storage: round trips of the three sections, each leaving the others alone, and no loss of a
  file that cannot be read. UserDatabase: any sequence of stores and removals by any users acts as on
  the database. Sessions and SessionRegistry: what opening requires, that a message works once, that
  no mount leaks in any run, that the answers of the service determine the table of sessions, and the
  whole login from initiation to mounted directories. PamModule and PamRun: what each hook does on
  every path, and that along every run of hooks a session is opened only after an authentication on
  the same handle. Polyauthctl: the effect of each command on the stored data, what is written when a
  command is refused, the printed table. Daemon: how a start can end, and that no mount outlives the
  service. EndToEnd: after a setup the module accepts the two secrets and nothing else, and the session
  of the new user opens and mounts what was authorized.

  Some theorems state flaws of the code as it is. Passwords: check_main_rejects_main,
  truncated_password_logs_in, secondary_sealed_under_main_dies, long_password_never_opens. Mounts:
  mount_hash_depends_on_order, home_flags_ambiguous, short_write_revokes_all, options_need_fstype.
  The service: decrypt_panics_iff, failed_key_panics_later, open_again_ignores_password,
  service_ignores_password, lost_reply_leaves_session. Stored data: interrupted_store_locks_out,
  set_home_mount_effect (data that cannot be decoded is erased), setup_makes_account (an account that
  exists is overwritten), add_with_other_secret_panics.

  Parameters and hypotheses. Code outside the repository is a field of a record that the definitions
  take: crypto (bcrypt, HKDF, AES-GCM, RSA), auth_json and storage_crates (serde_json, base64,
  bytevec2), the hasher digest, the user database and the hasher of tokens (env). The hypotheses are
  predicates named after them (aes_correct, bcrypt_exact, codecs_correct, auth_json_correct, ...);
  those on JSON are asked for the values at hand only. Randomness is an argument.

  What is not modelled. Log lines, the texts of error messages and the decoration of printed tables;
  the delay of check; timing and secrecy of the cryptography; the parsing of arguments; symbolic
  links, several mounts at one target, permissions checked by the kernel (a call the environment lets fail stands for them), and
  concurrency inside a method (each holds the lock of its object). Dropping a connection of the daemon
  is taken to drop the object it serves. Methods that only return a field are the field of the record.
  The tests, the packaging and the manuals of the repository are left out.
\<close>

end
